(* ===== verification/Codec.thy ===== *)
theory Codec
  imports Prelude
begin

text \<open>
  The contract between a serializer and its parser. A serializer appends the encoding of
  a value to a growing buffer; a parser reads a value from the front of a byte sequence
  and returns the bytes that remain. \<open>enc\<close> is the wire format itself, \<open>ok\<close> says which
  values the format can carry.

  \<^item> \<open>codec\<close>: the parser never panics, and reading what was written gives the value back
    and leaves the rest untouched.
  \<^item> \<open>canonical_codec\<close>: in addition everything the parser accepts is the encoding of the
    value it returns, so no two byte sequences mean the same value.

  \<open>repeat_push\<close> is the loop \<open>for _ in 0..n { v.push(body(buf)?) }\<close>; both contracts
  extend to it, which is what the key-descriptor and partition parsers use.
\<close>

fun repeat_push ::
  "nat \<Rightarrow> (bytes \<Rightarrow> ('e, 'a \<times> bytes) result) \<Rightarrow> 'a list \<Rightarrow> bytes \<Rightarrow> ('e, 'a list \<times> bytes) result" where
  "repeat_push 0 body v buf = Ok (v, buf)"
| "repeat_push (Suc n) body v buf =
     and_then (body buf) (\<lambda>(x, buf). repeat_push n body (v @ [x]) buf)"

locale codec =
  fixes enc :: "'a \<Rightarrow> bytes"
    and ser :: "'a \<Rightarrow> bytes \<Rightarrow> bytes"
    and par :: "bytes \<Rightarrow> ('e, 'a \<times> bytes) result"
    and ok :: "'a \<Rightarrow> bool"
  assumes ser_enc: "ser x buf = buf @ enc x"
    and par_enc: "ok x \<Longrightarrow> par (enc x @ rest) = Ok (x, rest)"
    and par_no_panic: "par bs \<noteq> Panic"
begin

lemma fold_ser: "fold ser xs buf = buf @ concat (map enc xs)"
  by (induction xs arbitrary: buf) (simp_all add: ser_enc)

lemma par_ser: "ok x \<Longrightarrow> par (ser x [] @ rest) = Ok (x, rest)"
  by (simp add: ser_enc par_enc)

lemma enc_inj: "ok x \<Longrightarrow> ok y \<Longrightarrow> enc x @ r = enc y @ s \<Longrightarrow> x = y \<and> r = s"
  by (metis par_enc result.inject(1) prod.inject)

lemma repeat_push_enc:
  "\<forall>x \<in> set xs. ok x \<Longrightarrow>
   repeat_push (length xs) par v (concat (map enc xs) @ rest) = Ok (v @ xs, rest)"
  by (induction xs arbitrary: v) (simp_all add: par_enc)

lemma repeat_push_no_panic: "repeat_push n par v bs \<noteq> Panic"
  by (induction n arbitrary: v bs) (auto simp: par_no_panic and_then_eq_Panic)

end

locale canonical_codec = codec +
  assumes par_sound: "par bs = Ok (x, rest) \<Longrightarrow> ok x \<and> bs = enc x @ rest"
begin

lemma par_eq_Ok: "par bs = Ok (x, rest) \<longleftrightarrow> ok x \<and> bs = enc x @ rest"
  using par_sound par_enc by blast

lemma repeat_push_sound:
  "repeat_push n par v bs = Ok (ys, rest) \<Longrightarrow>
   \<exists>xs. ys = v @ xs \<and> length xs = n \<and> (\<forall>x \<in> set xs. ok x) \<and> bs = concat (map enc xs) @ rest"
proof (induction n arbitrary: v bs)
  case 0
  then show ?case by simp
next
  case (Suc n)
  then obtain x mid where x: "par bs = Ok (x, mid)"
    and tl: "repeat_push n par (v @ [x]) mid = Ok (ys, rest)"
    by auto
  from Suc.IH [OF tl] obtain xs where
    "ys = (v @ [x]) @ xs" "length xs = n" "\<forall>x \<in> set xs. ok x" "mid = concat (map enc xs) @ rest"
    by blast
  with par_sound [OF x] show ?case by (intro exI [of _ "x # xs"]) simp
qed

lemma repeat_push_eq_Ok:
  "repeat_push n par [] bs = Ok (xs, rest) \<longleftrightarrow>
   length xs = n \<and> (\<forall>x \<in> set xs. ok x) \<and> bs = concat (map enc xs) @ rest"
  using repeat_push_sound [of n "[]"] repeat_push_enc [of xs "[]" rest] by auto

end

text \<open>A whole message: the parser must consume everything.\<close>

locale message_codec =
  fixes menc :: "'a \<Rightarrow> bytes"
    and mser :: "'a \<Rightarrow> bytes"
    and mpar :: "bytes \<Rightarrow> ('e, 'a) result"
    and mok :: "'a \<Rightarrow> bool"
  assumes mser_enc: "mser x = menc x"
    and mpar_enc: "mok x \<Longrightarrow> mpar (menc x) = Ok x"
    and mpar_no_panic: "mpar bs \<noteq> Panic"
begin

lemma mpar_mser: "mok x \<Longrightarrow> mpar (mser x) = Ok x"
  by (simp add: mser_enc mpar_enc)

lemma mser_inj: "mok x \<Longrightarrow> mok y \<Longrightarrow> mser x = mser y \<Longrightarrow> x = y"
  by (metis mpar_mser result.inject(1))

end

end
