(* ===== verification/Rust_Std.thy ===== *)
theory Rust_Std
  imports Codec
begin

text \<open>
  The parts of the Rust standard library and of the \<open>bytes\<close> crate that the sources call.

  \<^item> \<open>as_bytes\<close>, \<open>from_utf8\<close>: a string's UTF-8 bytes and \<open>core::str::from_utf8\<close>, which
    walks the bytes, accepts exactly the well-formed sequences of the Unicode table and
    otherwise reports the start of the bad sequence and its length.
  \<^item> \<open>fmt_dec\<close>, \<open>fmt_hex\<close>: \<open>{}\<close> on unsigned integers and \<open>{:#04x}\<close>, \<open>{:#06x}\<close>.
  \<^item> \<open>bytes_crate\<close>: the \<open>Buf\<close>/\<open>BufMut\<close> methods of the third-party crate \<open>bytes\<close>, as a
    record of functions that every parser and serializer takes as an argument. Their
    documented behaviour is the locale \<open>bytes_laws\<close>; \<open>documented_bytes\<close> satisfies it.
\<close>

section \<open>Strings and UTF-8\<close>

definition as_bytes :: "string \<Rightarrow> bytes" where
  "as_bytes s = map (\<lambda>c. of_nat (of_char c)) s"

definition str_of_bytes :: "bytes \<Rightarrow> string" where
  "str_of_bytes bs = map (\<lambda>b. char_of (unat b)) bs"

lemma length_as_bytes [simp]: "length (as_bytes s) = length s"
  by (simp add: as_bytes_def)

lemma length_str_of_bytes [simp]: "length (str_of_bytes bs) = length bs"
  by (simp add: str_of_bytes_def)

lemma unat_of_char [simp]: "unat (of_nat (of_char c) :: u8) = of_char c"
  by (simp add: unat_of_nat take_bit_nat_eq_self)

lemma str_of_bytes_as_bytes [simp]: "str_of_bytes (as_bytes s) = s"
  by (simp add: str_of_bytes_def as_bytes_def comp_def)

lemma as_bytes_str_of_bytes [simp]: "as_bytes (str_of_bytes bs) = bs"
proof -
  have "of_nat (of_char (char_of (unat b))) = b" for b :: u8
    using unsigned_less [of b, where ?'a = nat] by (simp add: of_char_of)
  then show ?thesis by (simp add: str_of_bytes_def as_bytes_def comp_def)
qed

lemma as_bytes_inj [simp]: "as_bytes s = as_bytes t \<longleftrightarrow> s = t"
  by (metis str_of_bytes_as_bytes)

text \<open>A continuation byte: \<open>(b as i8) < -64\<close>.\<close>

definition utf8_cont :: "u8 \<Rightarrow> bool" where
  "utf8_cont b \<longleftrightarrow> 0x80 \<le> b \<and> b \<le> 0xBF"

definition utf8_char_width :: "u8 \<Rightarrow> nat" where
  "utf8_char_width b =
     (if b < 0x80 then 1
      else if 0xC2 \<le> b \<and> b \<le> 0xDF then 2
      else if 0xE0 \<le> b \<and> b \<le> 0xEF then 3
      else if 0xF0 \<le> b \<and> b \<le> 0xF4 then 4
      else 0)"

definition utf8_second3 :: "u8 \<Rightarrow> u8 \<Rightarrow> bool" where
  "utf8_second3 first b \<longleftrightarrow>
     (first = 0xE0 \<and> 0xA0 \<le> b \<and> b \<le> 0xBF) \<or>
     (0xE1 \<le> first \<and> first \<le> 0xEC \<and> 0x80 \<le> b \<and> b \<le> 0xBF) \<or>
     (first = 0xED \<and> 0x80 \<le> b \<and> b \<le> 0x9F) \<or>
     (0xEE \<le> first \<and> first \<le> 0xEF \<and> 0x80 \<le> b \<and> b \<le> 0xBF)"

definition utf8_second4 :: "u8 \<Rightarrow> u8 \<Rightarrow> bool" where
  "utf8_second4 first b \<longleftrightarrow>
     (first = 0xF0 \<and> 0x90 \<le> b \<and> b \<le> 0xBF) \<or>
     (0xF1 \<le> first \<and> first \<le> 0xF3 \<and> 0x80 \<le> b \<and> b \<le> 0xBF) \<or>
     (first = 0xF4 \<and> 0x80 \<le> b \<and> b \<le> 0x8F)"

text \<open>
  The sequence that starts with the byte \<open>first >= 128\<close>: the number of bytes that follow
  it, or the \<open>error_len\<close> of the \<open>Utf8Error\<close> (\<open>None\<close>: the input ends too early).
\<close>

definition utf8_seq :: "u8 \<Rightarrow> bytes \<Rightarrow> nat option + nat" where
  "utf8_seq first bs =
     (let w = utf8_char_width first in
      if w = 2 then
        (case bs of [] \<Rightarrow> Inl None
         | b1 # _ \<Rightarrow> if \<not> utf8_cont b1 then Inl (Some 1) else Inr 1)
      else if w = 3 then
        (case bs of [] \<Rightarrow> Inl None
         | b1 # r \<Rightarrow> if \<not> utf8_second3 first b1 then Inl (Some 1) else
           (case r of [] \<Rightarrow> Inl None
            | b2 # _ \<Rightarrow> if \<not> utf8_cont b2 then Inl (Some 2) else Inr 2))
      else if w = 4 then
        (case bs of [] \<Rightarrow> Inl None
         | b1 # r \<Rightarrow> if \<not> utf8_second4 first b1 then Inl (Some 1) else
           (case r of [] \<Rightarrow> Inl None
            | b2 # r \<Rightarrow> if \<not> utf8_cont b2 then Inl (Some 2) else
              (case r of [] \<Rightarrow> Inl None
               | b3 # _ \<Rightarrow> if \<not> utf8_cont b3 then Inl (Some 3) else Inr 3)))
      else Inl (Some 1))"

record Utf8Error =
  valid_up_to :: nat
  error_len :: "nat option"

fun run_utf8_validation :: "nat \<Rightarrow> bytes \<Rightarrow> Utf8Error option" where
  "run_utf8_validation index [] = None"
| "run_utf8_validation index (first # bs) =
     (if first < 0x80 then run_utf8_validation (index + 1) bs
      else case utf8_seq first bs of
        Inl el \<Rightarrow> Some \<lparr>valid_up_to = index, error_len = el\<rparr>
      | Inr k \<Rightarrow> run_utf8_validation (index + k + 1) (drop k bs))"

definition from_utf8 :: "bytes \<Rightarrow> Utf8Error + string" where
  "from_utf8 bs = (case run_utf8_validation 0 bs of
      None \<Rightarrow> Inr (str_of_bytes bs) | Some e \<Rightarrow> Inl e)"

text \<open>The type invariant of Rust's \<open>String\<close> and \<open>str\<close>: their bytes are valid UTF-8.\<close>

definition str_ok :: "string \<Rightarrow> bool" where
  "str_ok s \<longleftrightarrow> run_utf8_validation 0 (as_bytes s) = None"

lemma from_utf8_as_bytes [simp]: "str_ok s \<Longrightarrow> from_utf8 (as_bytes s) = Inr s"
  by (simp add: from_utf8_def str_ok_def)

lemma from_utf8_eq_Inr: "from_utf8 bs = Inr s \<longleftrightarrow> bs = as_bytes s \<and> str_ok s"
  by (auto simp: from_utf8_def str_ok_def split: option.splits)

lemma run_utf8_validation_ascii:
  "\<forall>b \<in> set bs. b < 0x80 \<Longrightarrow> run_utf8_validation i bs = None"
  by (induction bs arbitrary: i) auto

text \<open>\<open>CString::new\<close> refuses a string with a NUL byte.\<close>

definition cstring_new :: "string \<Rightarrow> string option" where
  "cstring_new s = (if 0 \<in> set (as_bytes s) then None else Some s)"

section \<open>Number formatting\<close>

definition digit_char :: "nat \<Rightarrow> char" where
  "digit_char d = (if d < 10 then char_of (48 + d) else char_of (87 + d))"

fun fmt_dec :: "nat \<Rightarrow> string" where
  "fmt_dec n = (if n < 10 then [digit_char n] else fmt_dec (n div 10) @ [digit_char (n mod 10)])"

declare fmt_dec.simps [simp del]

text \<open>\<open>k\<close> hexadecimal digits, zero-padded, with the \<open>0x\<close> of the alternate form.\<close>

definition fmt_hex :: "nat \<Rightarrow> nat \<Rightarrow> string" where
  "fmt_hex k n = ''0x'' @ map (\<lambda>i. digit_char (n div 16 ^ i mod 16)) (rev [0..<k])"

definition fmt_i32 :: "i32 \<Rightarrow> string" where
  "fmt_i32 w = (if sint w < 0 then ''-'' @ fmt_dec (nat (- sint w)) else fmt_dec (nat (sint w)))"

definition fmt_utf8_error :: "Utf8Error \<Rightarrow> string" where
  "fmt_utf8_error e = (case error_len e of
      Some n \<Rightarrow> ''invalid utf-8 sequence of '' @ fmt_dec n @ '' bytes from index '' @ fmt_dec (valid_up_to e)
    | None \<Rightarrow> ''incomplete utf-8 byte sequence from index '' @ fmt_dec (valid_up_to e))"

section \<open>The bytes crate\<close>

record bytes_crate =
  remaining :: "bytes \<Rightarrow> nat"
  get_u8 :: "bytes \<Rightarrow> (u8 \<times> bytes) option"
  get_u16_le :: "bytes \<Rightarrow> (u16 \<times> bytes) option"
  get_u32_le :: "bytes \<Rightarrow> (u32 \<times> bytes) option"
  get_u64_le :: "bytes \<Rightarrow> (u64 \<times> bytes) option"
  advance :: "nat \<Rightarrow> bytes \<Rightarrow> bytes option"
  bytes_mut_new :: bytes
  put_u8 :: "u8 \<Rightarrow> bytes \<Rightarrow> bytes"
  put_u16_le :: "u16 \<Rightarrow> bytes \<Rightarrow> bytes"
  put_u32_le :: "u32 \<Rightarrow> bytes \<Rightarrow> bytes"
  put_u64_le :: "u64 \<Rightarrow> bytes \<Rightarrow> bytes"
  put_slice :: "bytes \<Rightarrow> bytes \<Rightarrow> bytes"

text \<open>
  The documented behaviour: getters read from the front, advance the cursor and panic
  (\<open>None\<close>) when too few bytes remain; \<open>BytesMut\<close> grows at the end.
\<close>

locale bytes_laws =
  fixes B :: bytes_crate
  assumes remaining_law [simp]: "remaining B bs = length bs"
    and get_u8_law: "get_u8 B bs = (case bs of [] \<Rightarrow> None | b # r \<Rightarrow> Some (b, r))"
    and get_u16_law: "get_u16_le B bs =
      (if length bs < 2 then None else Some (from_le (take 2 bs), drop 2 bs))"
    and get_u32_law: "get_u32_le B bs =
      (if length bs < 4 then None else Some (from_le (take 4 bs), drop 4 bs))"
    and get_u64_law: "get_u64_le B bs =
      (if length bs < 8 then None else Some (from_le (take 8 bs), drop 8 bs))"
    and advance_law: "advance B n bs = (if length bs < n then None else Some (drop n bs))"
    and bytes_mut_new_law [simp]: "bytes_mut_new B = []"
    and put_u8_law [simp]: "put_u8 B x buf = buf @ [x]"
    and put_u16_law [simp]: "put_u16_le B x16 buf = buf @ le_bytes 2 x16"
    and put_u32_law [simp]: "put_u32_le B x32 buf = buf @ le_bytes 4 x32"
    and put_u64_law [simp]: "put_u64_le B x64 buf = buf @ le_bytes 8 x64"
    and put_slice_law [simp]: "put_slice B s buf = buf @ s"
begin

lemma get_u8_Cons [simp]: "get_u8 B (b # r) = Some (b, r)"
  by (simp add: get_u8_law)

lemma get_u16_le_bytes [simp]: "get_u16_le B (le_bytes 2 x @ r) = Some (x, r)"
  by (simp add: get_u16_law)

lemma get_u32_le_bytes [simp]: "get_u32_le B (le_bytes 4 x @ r) = Some (x, r)"
  by (simp add: get_u32_law)

lemma get_u64_le_bytes [simp]: "get_u64_le B (le_bytes 8 x @ r) = Some (x, r)"
  by (simp add: get_u64_law)

lemma advance_append [simp]: "length p = n \<Longrightarrow> advance B n (p @ r) = Some r"
  by (simp add: advance_law)

lemma get_u8_eq_Some: "get_u8 B bs = Some (x, r) \<longleftrightarrow> bs = x # r"
  by (cases bs) (auto simp: get_u8_law)

lemma get_u16_eq_Some: "get_u16_le B bs = Some (x, r) \<longleftrightarrow> bs = le_bytes 2 x @ r"
proof
  assume "get_u16_le B bs = Some (x, r)"
  then have "2 \<le> length bs" "x = from_le (take 2 bs)" "r = drop 2 bs"
    by (auto simp: get_u16_law split: if_splits)
  then show "bs = le_bytes 2 x @ r" by simp
qed simp

lemma get_u32_eq_Some: "get_u32_le B bs = Some (x, r) \<longleftrightarrow> bs = le_bytes 4 x @ r"
proof
  assume "get_u32_le B bs = Some (x, r)"
  then have "4 \<le> length bs" "x = from_le (take 4 bs)" "r = drop 4 bs"
    by (auto simp: get_u32_law split: if_splits)
  then show "bs = le_bytes 4 x @ r" by simp
qed simp

lemma get_u64_eq_Some: "get_u64_le B bs = Some (x, r) \<longleftrightarrow> bs = le_bytes 8 x @ r"
proof
  assume "get_u64_le B bs = Some (x, r)"
  then have "8 \<le> length bs" "x = from_le (take 8 bs)" "r = drop 8 bs"
    by (auto simp: get_u64_law split: if_splits)
  then show "bs = le_bytes 8 x @ r" by simp
qed simp

lemma advance_eq_Some: "advance B n bs = Some r \<longleftrightarrow> n \<le> length bs \<and> r = drop n bs"
  by (auto simp: advance_law)

lemmas get_eq_Some =
  get_u8_eq_Some get_u16_eq_Some get_u32_eq_Some get_u64_eq_Some advance_eq_Some

lemma get_eq_None [simp]:
  "get_u8 B bs = None \<longleftrightarrow> bs = []"
  "get_u16_le B bs = None \<longleftrightarrow> length bs < 2"
  "get_u32_le B bs = None \<longleftrightarrow> length bs < 4"
  "get_u64_le B bs = None \<longleftrightarrow> length bs < 8"
  "advance B n bs = None \<longleftrightarrow> length bs < n"
  by (auto simp: get_u8_law get_u16_law get_u32_law get_u64_law advance_law split: list.splits)

end

definition documented_bytes :: bytes_crate where
  "documented_bytes = \<lparr>
     remaining = length,
     get_u8 = (\<lambda>bs. case bs of [] \<Rightarrow> None | b # r \<Rightarrow> Some (b, r)),
     get_u16_le = (\<lambda>bs. if length bs < 2 then None else Some (from_le (take 2 bs), drop 2 bs)),
     get_u32_le = (\<lambda>bs. if length bs < 4 then None else Some (from_le (take 4 bs), drop 4 bs)),
     get_u64_le = (\<lambda>bs. if length bs < 8 then None else Some (from_le (take 8 bs), drop 8 bs)),
     advance = (\<lambda>n bs. if length bs < n then None else Some (drop n bs)),
     bytes_mut_new = [],
     put_u8 = (\<lambda>x buf. buf @ [x]),
     put_u16_le = (\<lambda>x buf. buf @ le_bytes 2 x),
     put_u32_le = (\<lambda>x buf. buf @ le_bytes 4 x),
     put_u64_le = (\<lambda>x buf. buf @ le_bytes 8 x),
     put_slice = (\<lambda>s buf. buf @ s)\<rparr>"

interpretation doc_bytes: bytes_laws documented_bytes
  by unfold_locales (simp_all add: documented_bytes_def)

end
