(* ===== verification/Wire.thy ===== *)
theory Wire
  imports Rust_Std
begin

text \<open>
  The lower half of \<open>src/protocol.rs\<close>: the message header, the string, boolean and
  key-descriptor encodings, and the error type of every parser. Parsers take the bytes
  still to be read and return the value with the bytes that remain.
\<close>

section \<open>Constants, message types and errors\<close>

definition MAGIC :: bytes where "MAGIC = [0x44, 0x42]"
definition VERSION :: u8 where "VERSION = 0x01"
definition HEADER_SIZE :: nat where "HEADER_SIZE = 12"
definition DEFAULT_MAX_PAYLOAD_SIZE :: nat where "DEFAULT_MAX_PAYLOAD_SIZE = 4 * 1024 * 1024"
definition MAX_STRING_LENGTH :: nat where "MAX_STRING_LENGTH = 1024 * 1024"

text \<open>The constructors \<open>Ok\<close> and \<open>Error\<close> of the source carry a suffix here.\<close>

datatype MsgType =
    Subscribe | Unsubscribe | Write | Dispose | WriteDispose | CreateWriter | DeleteWriter | Ping
  | OkMsg | Data | DataDisposed | DataNoWriters | ErrorMsg | Pong

text \<open>The \<open>#[repr(u8)]\<close> discriminant, \<open>msg_type as u8\<close>.\<close>

primrec msg_type_u8 :: "MsgType \<Rightarrow> u8" where
  "msg_type_u8 Subscribe = 0x01"
| "msg_type_u8 Unsubscribe = 0x02"
| "msg_type_u8 Write = 0x03"
| "msg_type_u8 Dispose = 0x04"
| "msg_type_u8 WriteDispose = 0x05"
| "msg_type_u8 CreateWriter = 0x10"
| "msg_type_u8 DeleteWriter = 0x11"
| "msg_type_u8 Ping = 0x0F"
| "msg_type_u8 OkMsg = 0x80"
| "msg_type_u8 Data = 0xC0"
| "msg_type_u8 DataDisposed = 0xC1"
| "msg_type_u8 DataNoWriters = 0xC2"
| "msg_type_u8 ErrorMsg = 0xFE"
| "msg_type_u8 Pong = 0x8F"

text \<open>The variant names that \<open>{msg_type:?}\<close> prints.\<close>

primrec msg_type_debug :: "MsgType \<Rightarrow> string" where
  "msg_type_debug Subscribe = ''Subscribe''"
| "msg_type_debug Unsubscribe = ''Unsubscribe''"
| "msg_type_debug Write = ''Write''"
| "msg_type_debug Dispose = ''Dispose''"
| "msg_type_debug WriteDispose = ''WriteDispose''"
| "msg_type_debug CreateWriter = ''CreateWriter''"
| "msg_type_debug DeleteWriter = ''DeleteWriter''"
| "msg_type_debug Ping = ''Ping''"
| "msg_type_debug OkMsg = ''Ok''"
| "msg_type_debug Data = ''Data''"
| "msg_type_debug DataDisposed = ''DataDisposed''"
| "msg_type_debug DataNoWriters = ''DataNoWriters''"
| "msg_type_debug ErrorMsg = ''Error''"
| "msg_type_debug Pong = ''Pong''"

datatype ProtocolError =
    BadMagic u8 u8
  | UnsupportedVersion u8 u8
  | InvalidMsgType u8
  | Truncated nat nat
  | PayloadTooLarge nat nat
  | ReservedRequestId
  | InvalidWriteMode u8
  | InvalidUtf8 string
  | InvalidKeyTypeHint u8
  | InvalidErrorCode u16
  | InvalidQosPolicyId u8
  | InvalidQosValue string
  | DuplicateQosPolicy u8
  | StringTooLong nat nat
  | TrailingBytes nat

text \<open>The \<open>Display\<close> implementation that the \<open>#[error(...)]\<close> attributes derive.\<close>

primrec protocol_error_to_string :: "ProtocolError \<Rightarrow> string" where
  "protocol_error_to_string (BadMagic a b) =
     ''bad magic: expected [0x44, 0x42], got ['' @ fmt_hex 2 (unat a) @ '', '' @ fmt_hex 2 (unat b) @ '']''"
| "protocol_error_to_string (UnsupportedVersion g m) =
     ''unsupported protocol version '' @ fmt_dec (unat g) @ ''; bridge supports up to version '' @ fmt_dec (unat m)"
| "protocol_error_to_string (InvalidMsgType v) = ''invalid msg_type: '' @ fmt_hex 2 (unat v)"
| "protocol_error_to_string (Truncated e g) =
     ''truncated message: expected '' @ fmt_dec e @ '' bytes, got '' @ fmt_dec g"
| "protocol_error_to_string (PayloadTooLarge s m) =
     ''payload too large: '' @ fmt_dec s @ '' bytes exceeds maximum '' @ fmt_dec m"
| "protocol_error_to_string ReservedRequestId =
     ''request_id 0 is reserved for bridge-initiated messages''"
| "protocol_error_to_string (InvalidWriteMode v) = ''invalid write mode: '' @ fmt_hex 2 (unat v)"
| "protocol_error_to_string (InvalidUtf8 s) = ''invalid UTF-8: '' @ s"
| "protocol_error_to_string (InvalidKeyTypeHint v) = ''invalid key type hint: '' @ fmt_hex 2 (unat v)"
| "protocol_error_to_string (InvalidErrorCode v) = ''invalid error code: '' @ fmt_hex 4 (unat v)"
| "protocol_error_to_string (InvalidQosPolicyId v) = ''invalid QoS policy id: '' @ fmt_hex 2 (unat v)"
| "protocol_error_to_string (InvalidQosValue s) = ''invalid QoS value: '' @ s"
| "protocol_error_to_string (DuplicateQosPolicy v) = ''duplicate QoS policy id: '' @ fmt_hex 2 (unat v)"
| "protocol_error_to_string (StringTooLong l m) =
     ''string too long: '' @ fmt_dec l @ '' bytes exceeds maximum '' @ fmt_dec m"
| "protocol_error_to_string (TrailingBytes n) = ''unexpected '' @ fmt_dec n @ '' trailing bytes''"

definition msg_type_from_u8 :: "u8 \<Rightarrow> (ProtocolError, MsgType) result" where
  "msg_type_from_u8 val =
     (if val = 0x01 then Ok Subscribe
      else if val = 0x02 then Ok Unsubscribe
      else if val = 0x03 then Ok Write
      else if val = 0x04 then Ok Dispose
      else if val = 0x05 then Ok WriteDispose
      else if val = 0x10 then Ok CreateWriter
      else if val = 0x11 then Ok DeleteWriter
      else if val = 0x0F then Ok Ping
      else if val = 0x80 then Ok OkMsg
      else if val = 0xC0 then Ok Data
      else if val = 0xC1 then Ok DataDisposed
      else if val = 0xC2 then Ok DataNoWriters
      else if val = 0xFE then Ok ErrorMsg
      else if val = 0x8F then Ok Pong
      else Err (InvalidMsgType val))"

section \<open>Header\<close>

record Header =
  version :: u8
  msg_type :: MsgType
  request_id :: u32
  payload_length :: u32

definition parse_header :: "bytes \<Rightarrow> (ProtocolError, Header) result" where
  "parse_header data =
     (if length data < HEADER_SIZE then Err (Truncated HEADER_SIZE (length data)) else
      and_then (idx data 0) (\<lambda>d0. and_then (idx data 1) (\<lambda>d1.
      if d0 \<noteq> MAGIC ! 0 \<or> d1 \<noteq> MAGIC ! 1 then Err (BadMagic d0 d1) else
      and_then (idx data 2) (\<lambda>ver.
      and_then (idx data 3) (\<lambda>d3.
      and_then (msg_type_from_u8 d3) (\<lambda>mt.
      and_then (slice data 4 8) (\<lambda>rid.
      and_then (slice data 8 12) (\<lambda>len.
      Ok \<lparr>version = ver, msg_type = mt, request_id = from_le rid, payload_length = from_le len\<rparr>))))))))"

definition serialize_header :: "Header \<Rightarrow> bytes" where
  "serialize_header header =
     [MAGIC ! 0, MAGIC ! 1, version header, msg_type_u8 (msg_type header)]
     @ le_bytes 4 (request_id header) @ le_bytes 4 (payload_length header)"

section \<open>Strings and booleans\<close>

definition read_bool :: "bytes_crate \<Rightarrow> bytes \<Rightarrow> (ProtocolError, bool \<times> bytes) result" where
  "read_bool B buf =
     (if remaining B buf < 1 then Err (Truncated 1 0) else
      and_then (call (get_u8 B buf)) (\<lambda>(b, buf). Ok (b \<noteq> 0, buf)))"

definition read_string :: "bytes_crate \<Rightarrow> bytes \<Rightarrow> (ProtocolError, string \<times> bytes) result" where
  "read_string B buf =
     (if remaining B buf < 4 then Err (Truncated 4 (remaining B buf)) else
      and_then (call (get_u32_le B buf)) (\<lambda>(n, buf).
      let len = unat n in
      if len > MAX_STRING_LENGTH then Err (StringTooLong len MAX_STRING_LENGTH)
      else if remaining B buf < len then Err (Truncated len (remaining B buf))
      else and_then (slice_to buf len) (\<lambda>raw.
        case from_utf8 raw of
          Inl e \<Rightarrow> Err (InvalidUtf8 (fmt_utf8_error e))
        | Inr s \<Rightarrow> and_then (call (advance B len buf)) (\<lambda>buf. Ok (s, buf)))))"

definition write_string :: "bytes_crate \<Rightarrow> string \<Rightarrow> bytes \<Rightarrow> bytes" where
  "write_string B s buf =
     (let buf = put_u32_le B (of_nat (length (as_bytes s))) buf
      in put_slice B (as_bytes s) buf)"

definition check_no_trailing :: "bytes \<Rightarrow> (ProtocolError, unit) result" where
  "check_no_trailing buf = (if buf \<noteq> [] then Err (TrailingBytes (length buf)) else Ok ())"

section \<open>Key descriptors\<close>

datatype KeyTypeHint = Opaque | Uuid | Int32 | Int64 | StringKey

primrec key_type_hint_u8 :: "KeyTypeHint \<Rightarrow> u8" where
  "key_type_hint_u8 Opaque = 0x00"
| "key_type_hint_u8 Uuid = 0x01"
| "key_type_hint_u8 Int32 = 0x02"
| "key_type_hint_u8 Int64 = 0x03"
| "key_type_hint_u8 StringKey = 0x04"

definition key_type_hint_from_u8 :: "u8 \<Rightarrow> (ProtocolError, KeyTypeHint) result" where
  "key_type_hint_from_u8 val =
     (if val = 0x00 then Ok Opaque
      else if val = 0x01 then Ok Uuid
      else if val = 0x02 then Ok Int32
      else if val = 0x03 then Ok Int64
      else if val = 0x04 then Ok StringKey
      else Err (InvalidKeyTypeHint val))"

record KeyField =
  kf_offset :: u32
  kf_size :: u32
  kf_type_hint :: KeyTypeHint

record KeyDescriptors =
  kd_keys :: "KeyField list"

text \<open>The body of the \<open>for _ in 0..key_count\<close> loop, without the \<open>push\<close>.\<close>

definition parse_key_field :: "bytes_crate \<Rightarrow> bytes \<Rightarrow> (ProtocolError, KeyField \<times> bytes) result" where
  "parse_key_field B buf =
     (if remaining B buf < 9 then Err (Truncated 9 (remaining B buf)) else
      and_then (call (get_u32_le B buf)) (\<lambda>(off, buf).
      and_then (call (get_u32_le B buf)) (\<lambda>(sz, buf).
      and_then (call (get_u8 B buf)) (\<lambda>(h, buf).
      and_then (key_type_hint_from_u8 h) (\<lambda>hint.
      Ok (\<lparr>kf_offset = off, kf_size = sz, kf_type_hint = hint\<rparr>, buf))))))"

definition parse_key_descriptors ::
  "bytes_crate \<Rightarrow> bytes \<Rightarrow> (ProtocolError, KeyDescriptors \<times> bytes) result" where
  "parse_key_descriptors B buf =
     (if remaining B buf < 1 then Err (Truncated 1 0) else
      and_then (call (get_u8 B buf)) (\<lambda>(c, buf).
      let key_count = unat c in
      and_then (repeat_push key_count (parse_key_field B) [] buf) (\<lambda>(keys, buf). Ok (\<lparr>kd_keys = keys\<rparr>, buf))))"

definition serialize_key_field :: "bytes_crate \<Rightarrow> KeyField \<Rightarrow> bytes \<Rightarrow> bytes" where
  "serialize_key_field B key buf =
     (let buf = put_u32_le B (kf_offset key) buf;
          buf = put_u32_le B (kf_size key) buf
      in put_u8 B (key_type_hint_u8 (kf_type_hint key)) buf)"

definition serialize_key_descriptors :: "bytes_crate \<Rightarrow> KeyDescriptors \<Rightarrow> bytes \<Rightarrow> bytes" where
  "serialize_key_descriptors B kd buf =
     (let buf = put_u8 B (of_nat (length (kd_keys kd))) buf
      in fold (serialize_key_field B) (kd_keys kd) buf)"

section \<open>The wire format and its round trips\<close>

text \<open>
  The encodings as byte sequences (the tables of \<open>docs/protocol.md\<close>), against which both
  the serializers and the parsers are proved.
\<close>

definition enc_string :: "string \<Rightarrow> bytes" where
  "enc_string s = le_bytes 4 (of_nat (length s) :: u32) @ as_bytes s"

definition string_ok :: "string \<Rightarrow> bool" where
  "string_ok s \<longleftrightarrow> str_ok s \<and> length s \<le> MAX_STRING_LENGTH"

text \<open>Short ASCII strings can be sent.\<close>

lemma string_ok_ascii:
  assumes "list_all (\<lambda>c. (of_char c :: nat) < 128) s" and "length s \<le> 262144"
  shows "string_ok s"
proof -
  have "b < 0x80" if "b \<in> set (as_bytes s)" for b
  proof -
    from that obtain c where c: "c \<in> set s" "b = of_nat (of_char c)" by (auto simp: as_bytes_def)
    with assms(1) have "(of_char c :: nat) < 128" by (simp add: list_all_iff)
    then show ?thesis by (simp add: c(2) word_less_nat_alt unat_of_nat take_bit_nat_eq_self)
  qed
  then show ?thesis
    using assms(2) by (simp add: string_ok_def str_ok_def run_utf8_validation_ascii MAX_STRING_LENGTH_def)
qed

definition enc_key_field :: "KeyField \<Rightarrow> bytes" where
  "enc_key_field k = le_bytes 4 (kf_offset k) @ le_bytes 4 (kf_size k) @ [key_type_hint_u8 (kf_type_hint k)]"

definition enc_key_descriptors :: "KeyDescriptors \<Rightarrow> bytes" where
  "enc_key_descriptors kd = of_nat (length (kd_keys kd)) # concat (map enc_key_field (kd_keys kd))"

definition key_descriptors_ok :: "KeyDescriptors \<Rightarrow> bool" where
  "key_descriptors_ok kd \<longleftrightarrow> length (kd_keys kd) < 256"

lemma unat_of_nat_le_MAX [simp]:
  "n \<le> MAX_STRING_LENGTH \<Longrightarrow> unat (of_nat n :: u32) = n"
  by (simp add: MAX_STRING_LENGTH_def unat_of_nat take_bit_nat_eq_self)

lemma unat_of_nat_u8 [simp]: "n < 256 \<Longrightarrow> unat (of_nat n :: u8) = n"
  by (simp add: unat_of_nat take_bit_nat_eq_self)

lemma unat_u8_less [simp]: "unat (b :: u8) < 256"
  using unsigned_less [of b, where ?'a = nat] by simp

lemma msg_type_from_to [simp]: "msg_type_from_u8 (msg_type_u8 t) = Ok t"
  by (cases t) (simp_all add: msg_type_from_u8_def)

lemma msg_type_from_u8_eq_Ok: "msg_type_from_u8 v = Ok t \<longleftrightarrow> v = msg_type_u8 t"
proof
  show "msg_type_from_u8 v = Ok t \<Longrightarrow> v = msg_type_u8 t"
    by (auto simp: msg_type_from_u8_def split: if_splits)
qed simp

lemma msg_type_from_u8_no_panic [simp]: "msg_type_from_u8 v \<noteq> Panic"
  by (simp add: msg_type_from_u8_def)

lemma key_type_hint_from_to [simp]: "key_type_hint_from_u8 (key_type_hint_u8 t) = Ok t"
  by (cases t) (simp_all add: key_type_hint_from_u8_def)

lemma key_type_hint_from_u8_eq_Ok: "key_type_hint_from_u8 v = Ok t \<longleftrightarrow> v = key_type_hint_u8 t"
proof
  show "key_type_hint_from_u8 v = Ok t \<Longrightarrow> v = key_type_hint_u8 t"
    by (auto simp: key_type_hint_from_u8_def split: if_splits)
qed simp

lemma key_type_hint_from_u8_no_panic [simp]: "key_type_hint_from_u8 v \<noteq> Panic"
  by (simp add: key_type_hint_from_u8_def)

lemma length_enc_string [simp]: "length (enc_string s) = 4 + length s"
  by (simp add: enc_string_def)

lemma length_enc_key_field [simp]: "length (enc_key_field k) = 9"
  by (simp add: enc_key_field_def)

context bytes_laws
begin

lemma write_string_enc: "write_string B s buf = buf @ enc_string s"
  by (simp add: write_string_def enc_string_def)

lemma read_string_enc: "string_ok s \<Longrightarrow> read_string B (enc_string s @ rest) = Ok (s, rest)"
  by (simp add: read_string_def enc_string_def string_ok_def Let_def)

lemma read_string_no_panic: "read_string B bs \<noteq> Panic"
  by (auto simp: read_string_def and_then_eq_Panic get_eq_Some Let_def slice_to_def split: sum.splits)

lemma read_string_sound:
  assumes "read_string B bs = Ok (s, rest)"
  shows "string_ok s \<and> bs = enc_string s @ rest"
proof -
  from assms obtain n buf where n: "bs = le_bytes 4 (n :: u32) @ buf"
    and len: "unat n \<le> MAX_STRING_LENGTH" "unat n \<le> length buf"
    and s: "from_utf8 (take (unat n) buf) = Inr s" and rest: "rest = drop (unat n) buf"
    by (auto simp: read_string_def get_eq_Some Let_def slice_to_def split: if_splits sum.splits)
  from s have raw: "take (unat n) buf = as_bytes s" and "str_ok s"
    by (simp_all add: from_utf8_eq_Inr)
  from raw len have "length s = unat n" by (metis length_as_bytes length_take min.absorb2)
  moreover from raw rest have "buf = as_bytes s @ rest" by (metis append_take_drop_id)
  ultimately show ?thesis using n len \<open>str_ok s\<close> by (simp add: enc_string_def string_ok_def)
qed

lemma serialize_key_field_enc: "serialize_key_field B k buf = buf @ enc_key_field k"
  by (simp add: serialize_key_field_def enc_key_field_def)

lemma parse_key_field_enc: "parse_key_field B (enc_key_field k @ rest) = Ok (k, rest)"
  by (simp add: parse_key_field_def enc_key_field_def)

lemma parse_key_field_no_panic: "parse_key_field B bs \<noteq> Panic"
  by (auto simp: parse_key_field_def and_then_eq_Panic get_eq_Some)

lemma parse_key_field_sound:
  "parse_key_field B bs = Ok (k, rest) \<Longrightarrow> bs = enc_key_field k @ rest"
  by (auto simp: parse_key_field_def enc_key_field_def get_eq_Some key_type_hint_from_u8_eq_Ok split: if_splits)

lemma read_bool_enc: "read_bool B ((if b then 1 else 0) # rest) = Ok (b, rest)"
  by (simp add: read_bool_def)

lemma read_bool_no_panic: "read_bool B bs \<noteq> Panic"
  by (auto simp: read_bool_def and_then_eq_Panic get_eq_Some)

end

sublocale bytes_laws \<subseteq> string_codec: canonical_codec enc_string "write_string B" "read_string B" string_ok
  by unfold_locales
    (simp_all add: write_string_enc read_string_enc read_string_no_panic read_string_sound)

sublocale bytes_laws \<subseteq> key_field_codec: canonical_codec enc_key_field "serialize_key_field B" "parse_key_field B" "\<lambda>_. True"
  by unfold_locales
    (simp_all add: serialize_key_field_enc parse_key_field_enc parse_key_field_no_panic parse_key_field_sound)

sublocale bytes_laws \<subseteq> bool_codec: codec "\<lambda>b. [if b then 1 else 0]" "\<lambda>b. put_u8 B (if b then 1 else 0)" "read_bool B" "\<lambda>_. True"
  by unfold_locales (simp_all add: read_bool_enc read_bool_no_panic)

context bytes_laws
begin

lemma serialize_key_descriptors_enc:
  "serialize_key_descriptors B kd buf = buf @ enc_key_descriptors kd"
  by (simp add: serialize_key_descriptors_def enc_key_descriptors_def key_field_codec.fold_ser)

lemma parse_key_descriptors_enc:
  "key_descriptors_ok kd \<Longrightarrow> parse_key_descriptors B (enc_key_descriptors kd @ rest) = Ok (kd, rest)"
  by (simp add: parse_key_descriptors_def enc_key_descriptors_def key_descriptors_ok_def
      key_field_codec.repeat_push_enc)

lemma parse_key_descriptors_no_panic: "parse_key_descriptors B bs \<noteq> Panic"
  by (auto simp: parse_key_descriptors_def and_then_eq_Panic get_eq_Some Let_def
      key_field_codec.repeat_push_no_panic)

lemma parse_key_descriptors_sound:
  "parse_key_descriptors B bs = Ok (kd, rest) \<Longrightarrow>
   key_descriptors_ok kd \<and> bs = enc_key_descriptors kd @ rest"
  by (auto simp: parse_key_descriptors_def enc_key_descriptors_def key_descriptors_ok_def get_eq_Some
      key_field_codec.repeat_push_eq_Ok split: if_splits)

end

sublocale bytes_laws \<subseteq> key_descriptors_codec: canonical_codec enc_key_descriptors
  "serialize_key_descriptors B" "parse_key_descriptors B" key_descriptors_ok
  by unfold_locales
    (simp_all add: serialize_key_descriptors_enc parse_key_descriptors_enc
      parse_key_descriptors_no_panic parse_key_descriptors_sound)

lemma length_serialize_header [simp]: "length (serialize_header h) = HEADER_SIZE"
  by (simp add: serialize_header_def HEADER_SIZE_def)

lemma parse_header_no_panic: "parse_header bs \<noteq> Panic"
  by (auto simp: parse_header_def and_then_eq_Panic HEADER_SIZE_def idx_def)

lemma parse_serialize_header: "parse_header (serialize_header h @ rest) = Ok h"
  by (simp add: parse_header_def serialize_header_def HEADER_SIZE_def MAGIC_def numeral_2_eq_2 numeral_3_eq_3)

lemma take_12_unfold:
  "12 \<le> length bs \<Longrightarrow>
   take 12 bs = [bs ! 0, bs ! 1, bs ! 2, bs ! 3] @ take 4 (drop 4 bs) @ take 4 (drop 8 bs)"
  by (rule nth_equalityI) (auto simp: nth_append nth_Cons' less_Suc_eq numeral_eq_Suc)

lemma serialize_parse_header:
  assumes "parse_header bs = Ok h"
  shows "serialize_header h = take HEADER_SIZE bs"
proof -
  from assms have len: "12 \<le> length bs" and "bs ! 0 = 0x44" "bs ! 1 = 0x42" "version h = bs ! 2"
    "msg_type_u8 (msg_type h) = bs ! 3"
    "request_id h = from_le (take 4 (drop 4 bs))" "payload_length h = from_le (take 4 (drop 8 bs))"
    by (auto simp: parse_header_def HEADER_SIZE_def MAGIC_def msg_type_from_u8_eq_Ok idx_def split: if_splits)
  then show ?thesis
    by (simp add: serialize_header_def MAGIC_def HEADER_SIZE_def take_12_unfold)
qed

end
