(* ===== verification/Qos.thy ===== *)
theory Qos
  imports Wire
begin

text \<open>
  \<open>src/qos.rs\<close>: the QoS policies, their defaults and normalization, the binary parser
  \<open>parse_qos\<close> with its duplicate check, and \<open>serialize_qos\<close>.
\<close>

section \<open>Policies\<close>

definition validate_range :: "string \<Rightarrow> u8 \<Rightarrow> u8 \<Rightarrow> (ProtocolError, unit) result" where
  "validate_range name value mx =
     (if value > mx then
        Err (InvalidQosValue (name @ '': '' @ fmt_dec (unat value) @ '' not in 0..='' @ fmt_dec (unat mx)))
      else Ok ())"

definition validate_bool :: "string \<Rightarrow> u8 \<Rightarrow> (ProtocolError, unit) result" where
  "validate_bool name value =
     (if value > 1 then
        Err (InvalidQosValue (name @ '': expected 0 or 1, got '' @ fmt_dec (unat value)))
      else Ok ())"

datatype QosPolicy =
    Reliability u8 u32            \<comment> \<open>kind, max_blocking_time_ms\<close>
  | Durability u8                 \<comment> \<open>kind\<close>
  | History u8 u32                \<comment> \<open>kind, depth\<close>
  | Deadline u32                  \<comment> \<open>period_ms\<close>
  | LatencyBudget u32             \<comment> \<open>duration_ms\<close>
  | OwnershipStrength u32         \<comment> \<open>value\<close>
  | Liveliness u8 u32             \<comment> \<open>kind, lease_duration_ms\<close>
  | DestinationOrder u8           \<comment> \<open>kind\<close>
  | Presentation u8 u8 u8         \<comment> \<open>access_scope, coherent_access, ordered_access\<close>
  | Partition "string list"       \<comment> \<open>partitions\<close>
  | Ownership u8                  \<comment> \<open>kind\<close>
  | WriterDataLifecycle u8        \<comment> \<open>autodispose_unregistered_instances\<close>
  | TimeBasedFilter u32           \<comment> \<open>minimum_separation_ms\<close>

primrec policy_id :: "QosPolicy \<Rightarrow> u8" where
  "policy_id (Reliability _ _) = 0x01"
| "policy_id (Durability _) = 0x02"
| "policy_id (History _ _) = 0x03"
| "policy_id (Deadline _) = 0x04"
| "policy_id (LatencyBudget _) = 0x05"
| "policy_id (OwnershipStrength _) = 0x06"
| "policy_id (Liveliness _ _) = 0x07"
| "policy_id (DestinationOrder _) = 0x08"
| "policy_id (Presentation _ _ _) = 0x09"
| "policy_id (Partition _) = 0x0A"
| "policy_id (Ownership _) = 0x0B"
| "policy_id (WriterDataLifecycle _) = 0x0C"
| "policy_id (TimeBasedFilter _) = 0x0D"

primrec is_default :: "QosPolicy \<Rightarrow> bool" where
  "is_default (Reliability kind max_blocking_time_ms) \<longleftrightarrow> kind = 1 \<and> max_blocking_time_ms = 100"
| "is_default (Durability kind) \<longleftrightarrow> kind = 0"
| "is_default (History kind depth) \<longleftrightarrow> kind = 0 \<and> depth = 1"
| "is_default (Deadline period_ms) \<longleftrightarrow> period_ms = 0"
| "is_default (LatencyBudget duration_ms) \<longleftrightarrow> duration_ms = 0"
| "is_default (OwnershipStrength value) \<longleftrightarrow> value = 0"
| "is_default (Liveliness kind lease_duration_ms) \<longleftrightarrow> kind = 0 \<and> lease_duration_ms = 0"
| "is_default (DestinationOrder kind) \<longleftrightarrow> kind = 0"
| "is_default (Presentation access_scope coherent_access ordered_access) \<longleftrightarrow>
     access_scope = 0 \<and> coherent_access = 0 \<and> ordered_access = 0"
| "is_default (Partition partitions) \<longleftrightarrow> partitions = []"
| "is_default (Ownership kind) \<longleftrightarrow> kind = 0"
| "is_default (WriterDataLifecycle autodispose_unregistered_instances) \<longleftrightarrow>
     autodispose_unregistered_instances = 1"
| "is_default (TimeBasedFilter minimum_separation_ms) \<longleftrightarrow> minimum_separation_ms = 0"

record QosSet =
  policies :: "QosPolicy list"

definition normalize :: "QosSet \<Rightarrow> QosSet" where
  "normalize q = \<lparr>policies = filter (\<lambda>p. \<not> is_default p) (policies q)\<rparr>"

definition normalized_eq :: "QosSet \<Rightarrow> QosSet \<Rightarrow> bool" where
  "normalized_eq self other =
     (let a = normalize self; b = normalize other in
      if length (policies a) \<noteq> length (policies b) then False
      else list_all (\<lambda>pa. list_ex (\<lambda>pb. pa = pb) (policies b)) (policies a))"

section \<open>Parsing\<close>

text \<open>The \<open>match policy_id\<close> of \<open>parse_qos\<close>: the value of one policy.\<close>

definition parse_policy_value ::
  "bytes_crate \<Rightarrow> u8 \<Rightarrow> bytes \<Rightarrow> (ProtocolError, QosPolicy \<times> bytes) result" where
  "parse_policy_value B pid buf =
     (if pid = 0x01 then
        if remaining B buf < 5 then Err (Truncated 5 (remaining B buf)) else
        and_then (call (get_u8 B buf)) (\<lambda>(kind, buf).
        and_then (validate_range ''reliability kind'' kind 1) (\<lambda>_.
        and_then (call (get_u32_le B buf)) (\<lambda>(max_blocking_time_ms, buf).
        Ok (Reliability kind max_blocking_time_ms, buf))))
      else if pid = 0x02 then
        if remaining B buf < 1 then Err (Truncated 1 0) else
        and_then (call (get_u8 B buf)) (\<lambda>(kind, buf).
        and_then (validate_range ''durability kind'' kind 3) (\<lambda>_.
        Ok (Durability kind, buf)))
      else if pid = 0x03 then
        if remaining B buf < 5 then Err (Truncated 5 (remaining B buf)) else
        and_then (call (get_u8 B buf)) (\<lambda>(kind, buf).
        and_then (validate_range ''history kind'' kind 1) (\<lambda>_.
        and_then (call (get_u32_le B buf)) (\<lambda>(depth, buf).
        Ok (History kind depth, buf))))
      else if pid = 0x04 then
        if remaining B buf < 4 then Err (Truncated 4 (remaining B buf)) else
        and_then (call (get_u32_le B buf)) (\<lambda>(period_ms, buf). Ok (Deadline period_ms, buf))
      else if pid = 0x05 then
        if remaining B buf < 4 then Err (Truncated 4 (remaining B buf)) else
        and_then (call (get_u32_le B buf)) (\<lambda>(duration_ms, buf). Ok (LatencyBudget duration_ms, buf))
      else if pid = 0x06 then
        if remaining B buf < 4 then Err (Truncated 4 (remaining B buf)) else
        and_then (call (get_u32_le B buf)) (\<lambda>(value, buf). Ok (OwnershipStrength value, buf))
      else if pid = 0x07 then
        if remaining B buf < 5 then Err (Truncated 5 (remaining B buf)) else
        and_then (call (get_u8 B buf)) (\<lambda>(kind, buf).
        and_then (validate_range ''liveliness kind'' kind 2) (\<lambda>_.
        and_then (call (get_u32_le B buf)) (\<lambda>(lease_duration_ms, buf).
        Ok (Liveliness kind lease_duration_ms, buf))))
      else if pid = 0x08 then
        if remaining B buf < 1 then Err (Truncated 1 0) else
        and_then (call (get_u8 B buf)) (\<lambda>(kind, buf).
        and_then (validate_range ''destination_order kind'' kind 1) (\<lambda>_.
        Ok (DestinationOrder kind, buf)))
      else if pid = 0x09 then
        if remaining B buf < 3 then Err (Truncated 3 (remaining B buf)) else
        and_then (call (get_u8 B buf)) (\<lambda>(access_scope, buf).
        and_then (call (get_u8 B buf)) (\<lambda>(coherent_access, buf).
        and_then (call (get_u8 B buf)) (\<lambda>(ordered_access, buf).
        and_then (validate_range ''presentation access_scope'' access_scope 2) (\<lambda>_.
        and_then (validate_bool ''presentation coherent_access'' coherent_access) (\<lambda>_.
        and_then (validate_bool ''presentation ordered_access'' ordered_access) (\<lambda>_.
        Ok (Presentation access_scope coherent_access ordered_access, buf)))))))
      else if pid = 0x0A then
        if remaining B buf < 1 then Err (Truncated 1 0) else
        and_then (call (get_u8 B buf)) (\<lambda>(c, buf).
        let partition_count = unat c in
        and_then (repeat_push partition_count (read_string B) [] buf) (\<lambda>(partitions, buf).
        Ok (Partition partitions, buf)))
      else if pid = 0x0B then
        if remaining B buf < 1 then Err (Truncated 1 0) else
        and_then (call (get_u8 B buf)) (\<lambda>(kind, buf).
        and_then (validate_range ''ownership kind'' kind 1) (\<lambda>_.
        Ok (Ownership kind, buf)))
      else if pid = 0x0C then
        if remaining B buf < 1 then Err (Truncated 1 0) else
        and_then (call (get_u8 B buf)) (\<lambda>(v, buf).
        and_then (validate_bool ''autodispose_unregistered_instances'' v) (\<lambda>_.
        Ok (WriterDataLifecycle v, buf)))
      else if pid = 0x0D then
        if remaining B buf < 4 then Err (Truncated 4 (remaining B buf)) else
        and_then (call (get_u32_le B buf)) (\<lambda>(minimum_separation_ms, buf).
        Ok (TimeBasedFilter minimum_separation_ms, buf))
      else Err (InvalidQosPolicyId pid))"

text \<open>
  The loop \<open>for _ in 0..policy_count\<close>, with its two accumulators: the policies read so far
  and the bitmask of the policy ids already seen.
\<close>

fun parse_qos_loop ::
  "bytes_crate \<Rightarrow> nat \<Rightarrow> QosPolicy list \<Rightarrow> u16 \<Rightarrow> bytes \<Rightarrow> (ProtocolError, QosPolicy list \<times> bytes) result" where
  "parse_qos_loop B 0 ps seen_ids buf = Ok (ps, buf)"
| "parse_qos_loop B (Suc n) ps seen_ids buf =
     (if remaining B buf < 1 then Err (Truncated 1 0) else
      and_then (call (get_u8 B buf)) (\<lambda>(pid, buf).
      let known = pid \<ge> 0x01 \<and> pid \<le> 0x0D;
          bit = push_bit (unat pid) (1 :: u16)
      in if known \<and> seen_ids AND bit \<noteq> 0 then Err (DuplicateQosPolicy pid) else
      let seen_ids = (if known then seen_ids OR bit else seen_ids) in
      and_then (parse_policy_value B pid buf) (\<lambda>(policy, buf).
      parse_qos_loop B n (ps @ [policy]) seen_ids buf)))"

definition parse_qos :: "bytes_crate \<Rightarrow> bytes \<Rightarrow> (ProtocolError, QosSet \<times> bytes) result" where
  "parse_qos B buf =
     (if remaining B buf < 1 then Err (Truncated 1 0) else
      and_then (call (get_u8 B buf)) (\<lambda>(c, buf).
      let policy_count = unat c in
      and_then (parse_qos_loop B policy_count [] 0 buf) (\<lambda>(ps, buf). Ok (\<lparr>policies = ps\<rparr>, buf))))"

section \<open>Serializing\<close>

primrec serialize_policy_value :: "bytes_crate \<Rightarrow> QosPolicy \<Rightarrow> bytes \<Rightarrow> bytes" where
  "serialize_policy_value B (Reliability kind max_blocking_time_ms) buf =
     put_u32_le B max_blocking_time_ms (put_u8 B kind buf)"
| "serialize_policy_value B (Durability kind) buf = put_u8 B kind buf"
| "serialize_policy_value B (History kind depth) buf = put_u32_le B depth (put_u8 B kind buf)"
| "serialize_policy_value B (Deadline period_ms) buf = put_u32_le B period_ms buf"
| "serialize_policy_value B (LatencyBudget duration_ms) buf = put_u32_le B duration_ms buf"
| "serialize_policy_value B (OwnershipStrength value) buf = put_u32_le B value buf"
| "serialize_policy_value B (Liveliness kind lease_duration_ms) buf =
     put_u32_le B lease_duration_ms (put_u8 B kind buf)"
| "serialize_policy_value B (DestinationOrder kind) buf = put_u8 B kind buf"
| "serialize_policy_value B (Presentation access_scope coherent_access ordered_access) buf =
     put_u8 B ordered_access (put_u8 B coherent_access (put_u8 B access_scope buf))"
| "serialize_policy_value B (Partition partitions) buf =
     fold (write_string B) partitions (put_u8 B (of_nat (length partitions)) buf)"
| "serialize_policy_value B (Ownership kind) buf = put_u8 B kind buf"
| "serialize_policy_value B (WriterDataLifecycle autodispose) buf = put_u8 B autodispose buf"
| "serialize_policy_value B (TimeBasedFilter minimum_separation_ms) buf =
     put_u32_le B minimum_separation_ms buf"

definition serialize_policy :: "bytes_crate \<Rightarrow> QosPolicy \<Rightarrow> bytes \<Rightarrow> bytes" where
  "serialize_policy B policy buf = serialize_policy_value B policy (put_u8 B (policy_id policy) buf)"

definition serialize_qos :: "bytes_crate \<Rightarrow> QosSet \<Rightarrow> bytes \<Rightarrow> bytes" where
  "serialize_qos B qos buf =
     (let buf = put_u8 B (of_nat (length (policies qos))) buf
      in fold (serialize_policy B) (policies qos) buf)"

section \<open>Well-formedness and round trip\<close>

primrec policy_ok :: "QosPolicy \<Rightarrow> bool" where
  "policy_ok (Reliability kind _) \<longleftrightarrow> kind \<le> 1"
| "policy_ok (Durability kind) \<longleftrightarrow> kind \<le> 3"
| "policy_ok (History kind _) \<longleftrightarrow> kind \<le> 1"
| "policy_ok (Deadline _) \<longleftrightarrow> True"
| "policy_ok (LatencyBudget _) \<longleftrightarrow> True"
| "policy_ok (OwnershipStrength _) \<longleftrightarrow> True"
| "policy_ok (Liveliness kind _) \<longleftrightarrow> kind \<le> 2"
| "policy_ok (DestinationOrder kind) \<longleftrightarrow> kind \<le> 1"
| "policy_ok (Presentation scope coherent ordered) \<longleftrightarrow> scope \<le> 2 \<and> coherent \<le> 1 \<and> ordered \<le> 1"
| "policy_ok (Partition ps) \<longleftrightarrow> length ps < 256 \<and> list_all string_ok ps"
| "policy_ok (Ownership kind) \<longleftrightarrow> kind \<le> 1"
| "policy_ok (WriterDataLifecycle v) \<longleftrightarrow> v \<le> 1"
| "policy_ok (TimeBasedFilter _) \<longleftrightarrow> True"

text \<open>A QoS set as the parser delivers it: legal values and no policy twice.\<close>

definition qos_ok :: "QosSet \<Rightarrow> bool" where
  "qos_ok q \<longleftrightarrow> list_all policy_ok (policies q) \<and> distinct (map policy_id (policies q))"

primrec enc_policy_value :: "QosPolicy \<Rightarrow> bytes" where
  "enc_policy_value (Reliability kind ms) = kind # le_bytes 4 ms"
| "enc_policy_value (Durability kind) = [kind]"
| "enc_policy_value (History kind depth) = kind # le_bytes 4 depth"
| "enc_policy_value (Deadline ms) = le_bytes 4 ms"
| "enc_policy_value (LatencyBudget ms) = le_bytes 4 ms"
| "enc_policy_value (OwnershipStrength v) = le_bytes 4 v"
| "enc_policy_value (Liveliness kind ms) = kind # le_bytes 4 ms"
| "enc_policy_value (DestinationOrder kind) = [kind]"
| "enc_policy_value (Presentation scope coherent ordered) = [scope, coherent, ordered]"
| "enc_policy_value (Partition ps) = of_nat (length ps) # concat (map enc_string ps)"
| "enc_policy_value (Ownership kind) = [kind]"
| "enc_policy_value (WriterDataLifecycle v) = [v]"
| "enc_policy_value (TimeBasedFilter ms) = le_bytes 4 ms"

definition enc_policy :: "QosPolicy \<Rightarrow> bytes" where
  "enc_policy p = policy_id p # enc_policy_value p"

definition enc_qos :: "QosSet \<Rightarrow> bytes" where
  "enc_qos q = of_nat (length (policies q)) # concat (map enc_policy (policies q))"

lemma validate_ok [simp]:
  "v \<le> m \<Longrightarrow> validate_range name v m = Ok ()"
  "v \<le> 1 \<Longrightarrow> validate_bool name v = Ok ()"
  by (simp_all add: validate_range_def validate_bool_def)

lemma validate_eq_Ok [simp]:
  "validate_range name v m = Ok u \<longleftrightarrow> v \<le> m"
  "validate_bool name v = Ok u \<longleftrightarrow> v \<le> 1"
  by (auto simp: validate_range_def validate_bool_def)

lemma validate_no_panic [simp]:
  "validate_range name v m \<noteq> Panic" "validate_bool name v \<noteq> Panic"
  by (simp_all add: validate_range_def validate_bool_def)

lemma policy_id_known [simp]: "0x01 \<le> policy_id p \<and> policy_id p \<le> 0x0D"
  by (cases p) simp_all

lemma unat_policy_id_less [simp]: "unat (policy_id p) < 16"
  by (cases p) simp_all

text \<open>The bitmask \<open>seen\<close> records exactly the ids of the policies read so far.\<close>

definition seen_rep :: "u16 \<Rightarrow> QosPolicy list \<Rightarrow> bool" where
  "seen_rep seen ps \<longleftrightarrow> (\<forall>k < 16. bit seen k \<longleftrightarrow> (\<exists>p \<in> set ps. unat (policy_id p) = k))"

lemma seen_rep_Nil [simp]: "seen_rep 0 []"
  by (simp add: seen_rep_def)

lemma seen_rep_snoc:
  "seen_rep seen ps \<Longrightarrow> seen_rep (seen OR push_bit (unat (policy_id p)) 1) (ps @ [p])"
  by (auto simp: seen_rep_def bit_or_iff bit_exp_iff)

lemma unat_policy_id_eq [simp]: "unat (policy_id p) = unat (policy_id q) \<longleftrightarrow> policy_id p = policy_id q"
  by (simp add: word_unat_eq_iff)

lemma seen_rep_new:
  "seen_rep seen ps \<Longrightarrow>
   seen AND push_bit (unat (policy_id p)) 1 \<noteq> 0 \<longleftrightarrow> policy_id p \<in> policy_id ` set ps"
proof -
  assume "seen_rep seen ps"
  then have "bit seen (unat (policy_id p)) \<longleftrightarrow> (\<exists>x \<in> set ps. unat (policy_id x) = unat (policy_id p))"
    by (simp add: seen_rep_def)
  then show ?thesis
    by (simp add: and_exp_eq_0_iff_not_bit image_iff) metis
qed

context bytes_laws
begin

lemma serialize_policy_value_enc: "serialize_policy_value B p buf = buf @ enc_policy_value p"
  by (cases p) (simp_all add: string_codec.fold_ser)

lemma serialize_policy_enc: "serialize_policy B p buf = buf @ enc_policy p"
  by (simp add: serialize_policy_def enc_policy_def serialize_policy_value_enc)

lemma fold_serialize_policy: "fold (serialize_policy B) ps buf = buf @ concat (map enc_policy ps)"
  by (induction ps arbitrary: buf) (simp_all add: serialize_policy_enc)

lemma serialize_qos_enc: "serialize_qos B q buf = buf @ enc_qos q"
  by (simp add: serialize_qos_def enc_qos_def fold_serialize_policy)

lemma parse_policy_value_enc:
  "policy_ok p \<Longrightarrow> parse_policy_value B (policy_id p) (enc_policy_value p @ rest) = Ok (p, rest)"
  by (cases p) (simp_all add: parse_policy_value_def list_all_iff string_codec.repeat_push_enc)

lemma parse_policy_value_no_panic: "parse_policy_value B pid bs \<noteq> Panic"
  by (auto simp: parse_policy_value_def and_then_eq_Panic get_eq_Some Let_def
      string_codec.repeat_push_no_panic)

lemma parse_policy_value_sound:
  "parse_policy_value B pid bs = Ok (p, rest) \<Longrightarrow>
   policy_ok p \<and> pid = policy_id p \<and> bs = enc_policy_value p @ rest"
  unfolding parse_policy_value_def
  by (simp only: split: if_split_asm)
    (auto simp: get_eq_Some Let_def list_all_iff string_codec.repeat_push_eq_Ok)

lemma parse_qos_loop_enc:
  "list_all policy_ok ps \<Longrightarrow> distinct (map policy_id (qs @ ps)) \<Longrightarrow> seen_rep seen qs \<Longrightarrow>
   parse_qos_loop B (length ps) qs seen (concat (map enc_policy ps) @ rest) = Ok (qs @ ps, rest)"
proof (induction ps arbitrary: qs seen)
  case Nil
  then show ?case by simp
next
  case (Cons p ps)
  then have "\<not> seen AND push_bit (unat (policy_id p)) 1 \<noteq> 0"
    by (subst seen_rep_new) auto
  moreover have "parse_qos_loop B (length ps) (qs @ [p]) (seen OR push_bit (unat (policy_id p)) 1)
      (concat (map enc_policy ps) @ rest) = Ok ((qs @ [p]) @ ps, rest)"
    using Cons.prems by (intro Cons.IH seen_rep_snoc) auto
  ultimately show ?case
    using Cons.prems(1) by (simp add: enc_policy_def [of p] parse_policy_value_enc Let_def)
qed

lemma parse_qos_loop_no_panic: "parse_qos_loop B n qs seen bs \<noteq> Panic"
  by (induction n arbitrary: qs seen bs)
    (auto simp: and_then_eq_Panic get_eq_Some Let_def parse_policy_value_no_panic)

lemma parse_qos_loop_sound:
  assumes "parse_qos_loop B n qs seen bs = Ok (ys, rest)" and "seen_rep seen qs"
    and "distinct (map policy_id qs)"
  shows "\<exists>ps. ys = qs @ ps \<and> length ps = n \<and> list_all policy_ok ps \<and>
    distinct (map policy_id (qs @ ps)) \<and> bs = concat (map enc_policy ps) @ rest"
  using assms
proof (induction n arbitrary: qs seen bs)
  case 0
  then show ?case by simp
next
  case (Suc n)
  then obtain p buf where p: "policy_ok p" "bs = enc_policy p @ buf"
    and new: "\<not> seen AND push_bit (unat (policy_id p)) 1 \<noteq> 0"
    and tl: "parse_qos_loop B n (qs @ [p]) (seen OR push_bit (unat (policy_id p)) 1) buf = Ok (ys, rest)"
    by (auto simp: get_eq_Some Let_def enc_policy_def split: if_splits dest!: parse_policy_value_sound)
  from new Suc.prems have "distinct (map policy_id (qs @ [p]))"
    by (subst (asm) seen_rep_new) auto
  with Suc.IH [OF tl seen_rep_snoc] Suc.prems(2) obtain ps where
    "ys = (qs @ [p]) @ ps" "length ps = n" "list_all policy_ok ps"
    "distinct (map policy_id ((qs @ [p]) @ ps))" "buf = concat (map enc_policy ps) @ rest"
    by blast
  with p show ?case by (intro exI [of _ "p # ps"]) simp
qed

lemma qos_ok_length: "qos_ok q \<Longrightarrow> length (policies q) < 256"
proof -
  assume "qos_ok q"
  then have "length (policies q) = card ((unat \<circ> policy_id) ` set (policies q))"
    using distinct_card [of "map (unat \<circ> policy_id) (policies q)"]
    by (simp add: qos_ok_def distinct_map comp_inj_on inj_on_def)
  also have "\<dots> \<le> card {..<16 :: nat}"
    by (intro card_mono) auto
  finally show ?thesis by simp
qed

lemma parse_qos_enc: "qos_ok q \<Longrightarrow> parse_qos B (enc_qos q @ rest) = Ok (q, rest)"
  using parse_qos_loop_enc [of "policies q" "[]" 0 rest]
  by (simp add: parse_qos_def enc_qos_def qos_ok_length) (simp add: qos_ok_def)

lemma parse_qos_no_panic: "parse_qos B bs \<noteq> Panic"
  by (auto simp: parse_qos_def and_then_eq_Panic get_eq_Some Let_def parse_qos_loop_no_panic)

lemma parse_qos_sound: "parse_qos B bs = Ok (q, rest) \<Longrightarrow> qos_ok q \<and> bs = enc_qos q @ rest"
  by (auto simp: parse_qos_def enc_qos_def qos_ok_def get_eq_Some split: if_splits
      dest!: parse_qos_loop_sound)

end

sublocale bytes_laws \<subseteq> qos_codec: canonical_codec enc_qos "serialize_qos B" "parse_qos B" qos_ok
  by unfold_locales (simp_all add: serialize_qos_enc parse_qos_enc parse_qos_no_panic parse_qos_sound)

section \<open>Normalization\<close>

lemma normalize_normalize [simp]: "normalize (normalize q) = normalize q"
  by (simp add: normalize_def)

lemma qos_ok_normalize [simp]: "qos_ok q \<Longrightarrow> qos_ok (normalize q)"
  by (auto simp: qos_ok_def normalize_def list_all_iff distinct_map inj_on_def)

lemma normalize_distinct: "qos_ok q \<Longrightarrow> distinct (policies (normalize q))"
  by (simp add: qos_ok_def normalize_def distinct_map)

text \<open>
  On sets without duplicates the one-directional comparison of \<open>normalized_eq\<close> is equality
  of the sets of non-default policies: the lengths agree, so inclusion is equality.
\<close>

lemma normalized_eq_set:
  assumes "qos_ok a" and "qos_ok b"
  shows "normalized_eq a b \<longleftrightarrow> set (policies (normalize a)) = set (policies (normalize b))"
proof -
  let ?A = "policies (normalize a)" and ?B = "policies (normalize b)"
  have card: "card (set ?A) = length ?A" "card (set ?B) = length ?B"
    using assms normalize_distinct by (simp_all add: distinct_card)
  have "normalized_eq a b \<longleftrightarrow> length ?A = length ?B \<and> set ?A \<subseteq> set ?B"
    by (auto simp: normalized_eq_def Let_def list_all_iff list_ex_iff)
  also have "\<dots> \<longleftrightarrow> set ?A = set ?B"
    using card by (metis List.finite_set card_subset_eq order_refl)
  finally show ?thesis .
qed

lemma normalized_eq_normalize_left [simp]: "normalized_eq (normalize a) b = normalized_eq a b"
  by (simp add: normalized_eq_def)

lemma normalized_eq_normalize_right [simp]: "normalized_eq a (normalize b) = normalized_eq a b"
  by (simp add: normalized_eq_def)

lemma normalized_eq_refl [simp]: "normalized_eq a a"
  by (simp add: normalized_eq_def Let_def list_all_iff list_ex_iff)

end
