(* ===== verification/Messages.thy ===== *)
theory Messages
  imports Qos
begin

text \<open>
  The upper half of \<open>src/protocol.rs\<close>: the payload of every message, its parser and its
  serializer, the framing \<open>build_message\<close> and the header check \<open>validate_client_header\<close>.
\<close>

section \<open>Payloads\<close>

record SubscribePayload =
  sub_topic_name :: string
  sub_type_name :: string
  sub_qos :: QosSet
  sub_is_keyed :: bool
  sub_key_descriptors :: KeyDescriptors

record UnsubscribePayload =
  unsub_topic_name :: string
  unsub_type_name :: string

record CreateWriterPayload =
  cw_topic_name :: string
  cw_type_name :: string
  cw_qos :: QosSet
  cw_is_keyed :: bool
  cw_key_descriptors :: KeyDescriptors

record DeleteWriterPayload =
  dw_writer_id :: u32

text \<open>
  \<open>TopicName topic_name type_name qos key_descriptors data\<close> and
  \<open>WriterId writer_id key_bytes data\<close>.
\<close>

datatype WriteMode =
    TopicName string string QosSet KeyDescriptors bytes
  | WriterId u32 bytes bytes

datatype WritePayload = WritePayload WriteMode
datatype DisposePayload = DisposePayload WriteMode
datatype WriteDisposePayload = WriteDisposePayload WriteMode

record DataPayload =
  dp_topic_name :: string
  dp_source_timestamp :: u64
  dp_data :: bytes

record DataDisposedPayload =
  dd_topic_name :: string
  dd_source_timestamp :: u64
  dd_key_data :: bytes

record DataNoWritersPayload =
  nw_topic_name :: string
  nw_key_data :: bytes

datatype ErrorCode =
    InvalidMessage | TopicNotFound | DdsError | WriterNotFound | ReaderNotFound
  | InvalidQos | AlreadyExists | InternalError | BufferOverflow

primrec error_code_u16 :: "ErrorCode \<Rightarrow> u16" where
  "error_code_u16 InvalidMessage = 0x0001"
| "error_code_u16 TopicNotFound = 0x0002"
| "error_code_u16 DdsError = 0x0003"
| "error_code_u16 WriterNotFound = 0x0004"
| "error_code_u16 ReaderNotFound = 0x0005"
| "error_code_u16 InvalidQos = 0x0006"
| "error_code_u16 AlreadyExists = 0x0007"
| "error_code_u16 InternalError = 0x0008"
| "error_code_u16 BufferOverflow = 0x0009"

definition error_code_from_u16 :: "u16 \<Rightarrow> (ProtocolError, ErrorCode) result" where
  "error_code_from_u16 val =
     (if val = 0x0001 then Ok InvalidMessage
      else if val = 0x0002 then Ok TopicNotFound
      else if val = 0x0003 then Ok DdsError
      else if val = 0x0004 then Ok WriterNotFound
      else if val = 0x0005 then Ok ReaderNotFound
      else if val = 0x0006 then Ok InvalidQos
      else if val = 0x0007 then Ok AlreadyExists
      else if val = 0x0008 then Ok InternalError
      else if val = 0x0009 then Ok BufferOverflow
      else Err (InvalidErrorCode val))"

record ErrorPayload =
  err_code :: ErrorCode
  err_message :: string

section \<open>Parse functions\<close>

definition parse_subscribe :: "bytes_crate \<Rightarrow> bytes \<Rightarrow> (ProtocolError, SubscribePayload) result" where
  "parse_subscribe B payload =
     and_then (read_string B payload) (\<lambda>(topic_name, buf).
     and_then (read_string B buf) (\<lambda>(type_name, buf).
     and_then (parse_qos B buf) (\<lambda>(qos, buf).
     and_then (read_bool B buf) (\<lambda>(is_keyed, buf).
     and_then (parse_key_descriptors B buf) (\<lambda>(key_descriptors, buf).
     and_then (check_no_trailing buf) (\<lambda>_.
     Ok \<lparr>sub_topic_name = topic_name, sub_type_name = type_name, sub_qos = qos,
         sub_is_keyed = is_keyed, sub_key_descriptors = key_descriptors\<rparr>))))))"

definition parse_unsubscribe :: "bytes_crate \<Rightarrow> bytes \<Rightarrow> (ProtocolError, UnsubscribePayload) result" where
  "parse_unsubscribe B payload =
     and_then (read_string B payload) (\<lambda>(topic_name, buf).
     and_then (read_string B buf) (\<lambda>(type_name, buf).
     and_then (check_no_trailing buf) (\<lambda>_.
     Ok \<lparr>unsub_topic_name = topic_name, unsub_type_name = type_name\<rparr>)))"

definition parse_write_mode :: "bytes_crate \<Rightarrow> bytes \<Rightarrow> (ProtocolError, WriteMode) result" where
  "parse_write_mode B payload =
     (if payload = [] then Err (Truncated 1 0) else
      and_then (idx payload 0) (\<lambda>mode.
      and_then (slice_from payload 1) (\<lambda>buf.
      if mode = 0x00 then
        and_then (read_string B buf) (\<lambda>(topic_name, buf).
        and_then (read_string B buf) (\<lambda>(type_name, buf).
        and_then (parse_qos B buf) (\<lambda>(qos, buf).
        and_then (parse_key_descriptors B buf) (\<lambda>(key_descriptors, buf).
        Ok (TopicName topic_name type_name qos key_descriptors buf)))))
      else if mode = 0x01 then
        if remaining B buf < 8 then Err (Truncated 8 (remaining B buf)) else
        and_then (call (get_u32_le B buf)) (\<lambda>(writer_id, buf).
        and_then (call (get_u32_le B buf)) (\<lambda>(n, buf).
        let key_len = unat n in
        if remaining B buf < key_len then Err (Truncated key_len (remaining B buf)) else
        and_then (slice_to buf key_len) (\<lambda>key_bytes.
        and_then (call (advance B key_len buf)) (\<lambda>buf.
        Ok (WriterId writer_id key_bytes buf)))))
      else Err (InvalidWriteMode mode))))"

definition parse_write :: "bytes_crate \<Rightarrow> bytes \<Rightarrow> (ProtocolError, WritePayload) result" where
  "parse_write B payload = map_ok WritePayload (parse_write_mode B payload)"

definition parse_dispose :: "bytes_crate \<Rightarrow> bytes \<Rightarrow> (ProtocolError, DisposePayload) result" where
  "parse_dispose B payload = map_ok DisposePayload (parse_write_mode B payload)"

definition parse_write_dispose :: "bytes_crate \<Rightarrow> bytes \<Rightarrow> (ProtocolError, WriteDisposePayload) result" where
  "parse_write_dispose B payload = map_ok WriteDisposePayload (parse_write_mode B payload)"

definition parse_create_writer :: "bytes_crate \<Rightarrow> bytes \<Rightarrow> (ProtocolError, CreateWriterPayload) result" where
  "parse_create_writer B payload =
     and_then (read_string B payload) (\<lambda>(topic_name, buf).
     and_then (read_string B buf) (\<lambda>(type_name, buf).
     and_then (parse_qos B buf) (\<lambda>(qos, buf).
     and_then (read_bool B buf) (\<lambda>(is_keyed, buf).
     and_then (parse_key_descriptors B buf) (\<lambda>(key_descriptors, buf).
     and_then (check_no_trailing buf) (\<lambda>_.
     Ok \<lparr>cw_topic_name = topic_name, cw_type_name = type_name, cw_qos = qos,
         cw_is_keyed = is_keyed, cw_key_descriptors = key_descriptors\<rparr>))))))"

definition parse_delete_writer :: "bytes \<Rightarrow> (ProtocolError, DeleteWriterPayload) result" where
  "parse_delete_writer payload =
     (if length payload < 4 then Err (Truncated 4 (length payload)) else
      and_then (slice payload 0 4) (\<lambda>w.
      and_then (slice_from payload 4) (\<lambda>r.
      and_then (check_no_trailing r) (\<lambda>_.
      Ok \<lparr>dw_writer_id = from_le w\<rparr>))))"

definition parse_error :: "bytes_crate \<Rightarrow> bytes \<Rightarrow> (ProtocolError, ErrorPayload) result" where
  "parse_error B buf =
     (if remaining B buf < 2 then Err (Truncated 2 (remaining B buf)) else
      and_then (call (get_u16_le B buf)) (\<lambda>(c, buf).
      and_then (error_code_from_u16 c) (\<lambda>error_code.
      and_then (read_string B buf) (\<lambda>(error_message, buf).
      and_then (check_no_trailing buf) (\<lambda>_.
      Ok \<lparr>err_code = error_code, err_message = error_message\<rparr>)))))"

definition parse_data :: "bytes_crate \<Rightarrow> bytes \<Rightarrow> (ProtocolError, DataPayload) result" where
  "parse_data B payload =
     and_then (read_string B payload) (\<lambda>(topic_name, buf).
     if remaining B buf < 8 then Err (Truncated 8 (remaining B buf)) else
     and_then (call (get_u64_le B buf)) (\<lambda>(source_timestamp, buf).
     Ok \<lparr>dp_topic_name = topic_name, dp_source_timestamp = source_timestamp, dp_data = buf\<rparr>))"

definition parse_data_disposed :: "bytes_crate \<Rightarrow> bytes \<Rightarrow> (ProtocolError, DataDisposedPayload) result" where
  "parse_data_disposed B payload =
     and_then (read_string B payload) (\<lambda>(topic_name, buf).
     if remaining B buf < 8 then Err (Truncated 8 (remaining B buf)) else
     and_then (call (get_u64_le B buf)) (\<lambda>(source_timestamp, buf).
     Ok \<lparr>dd_topic_name = topic_name, dd_source_timestamp = source_timestamp, dd_key_data = buf\<rparr>))"

definition parse_data_no_writers :: "bytes_crate \<Rightarrow> bytes \<Rightarrow> (ProtocolError, DataNoWritersPayload) result" where
  "parse_data_no_writers B payload =
     and_then (read_string B payload) (\<lambda>(topic_name, buf).
     Ok \<lparr>nw_topic_name = topic_name, nw_key_data = buf\<rparr>)"

section \<open>Serialize functions\<close>

definition serialize_subscribe :: "bytes_crate \<Rightarrow> SubscribePayload \<Rightarrow> bytes" where
  "serialize_subscribe B p =
     (let buf = bytes_mut_new B;
          buf = write_string B (sub_topic_name p) buf;
          buf = write_string B (sub_type_name p) buf;
          buf = serialize_qos B (sub_qos p) buf;
          buf = put_u8 B (if sub_is_keyed p then 1 else 0) buf
      in serialize_key_descriptors B (sub_key_descriptors p) buf)"

definition serialize_unsubscribe :: "bytes_crate \<Rightarrow> UnsubscribePayload \<Rightarrow> bytes" where
  "serialize_unsubscribe B p =
     (let buf = bytes_mut_new B;
          buf = write_string B (unsub_topic_name p) buf
      in write_string B (unsub_type_name p) buf)"

primrec serialize_write_mode :: "bytes_crate \<Rightarrow> WriteMode \<Rightarrow> bytes" where
  "serialize_write_mode B (TopicName topic_name type_name qos key_descriptors data) =
     (let buf = bytes_mut_new B;
          buf = put_u8 B 0x00 buf;
          buf = write_string B topic_name buf;
          buf = write_string B type_name buf;
          buf = serialize_qos B qos buf;
          buf = serialize_key_descriptors B key_descriptors buf
      in put_slice B data buf)"
| "serialize_write_mode B (WriterId writer_id key_bytes data) =
     (let buf = bytes_mut_new B;
          buf = put_u8 B 0x01 buf;
          buf = put_u32_le B writer_id buf;
          buf = put_u32_le B (of_nat (length key_bytes)) buf;
          buf = put_slice B key_bytes buf
      in put_slice B data buf)"

primrec serialize_write :: "bytes_crate \<Rightarrow> WritePayload \<Rightarrow> bytes" where
  "serialize_write B (WritePayload m) = serialize_write_mode B m"

primrec serialize_dispose :: "bytes_crate \<Rightarrow> DisposePayload \<Rightarrow> bytes" where
  "serialize_dispose B (DisposePayload m) = serialize_write_mode B m"

primrec serialize_write_dispose :: "bytes_crate \<Rightarrow> WriteDisposePayload \<Rightarrow> bytes" where
  "serialize_write_dispose B (WriteDisposePayload m) = serialize_write_mode B m"

definition serialize_create_writer :: "bytes_crate \<Rightarrow> CreateWriterPayload \<Rightarrow> bytes" where
  "serialize_create_writer B p =
     (let buf = bytes_mut_new B;
          buf = write_string B (cw_topic_name p) buf;
          buf = write_string B (cw_type_name p) buf;
          buf = serialize_qos B (cw_qos p) buf;
          buf = put_u8 B (if cw_is_keyed p then 1 else 0) buf
      in serialize_key_descriptors B (cw_key_descriptors p) buf)"

definition serialize_delete_writer :: "bytes_crate \<Rightarrow> DeleteWriterPayload \<Rightarrow> bytes" where
  "serialize_delete_writer B p = put_u32_le B (dw_writer_id p) (bytes_mut_new B)"

definition serialize_error :: "bytes_crate \<Rightarrow> ErrorPayload \<Rightarrow> bytes" where
  "serialize_error B p =
     (let buf = put_u16_le B (error_code_u16 (err_code p)) (bytes_mut_new B)
      in write_string B (err_message p) buf)"

definition serialize_data :: "bytes_crate \<Rightarrow> DataPayload \<Rightarrow> bytes" where
  "serialize_data B p =
     (let buf = write_string B (dp_topic_name p) (bytes_mut_new B);
          buf = put_u64_le B (dp_source_timestamp p) buf
      in put_slice B (dp_data p) buf)"

definition serialize_data_disposed :: "bytes_crate \<Rightarrow> DataDisposedPayload \<Rightarrow> bytes" where
  "serialize_data_disposed B p =
     (let buf = write_string B (dd_topic_name p) (bytes_mut_new B);
          buf = put_u64_le B (dd_source_timestamp p) buf
      in put_slice B (dd_key_data p) buf)"

definition serialize_data_no_writers :: "bytes_crate \<Rightarrow> DataNoWritersPayload \<Rightarrow> bytes" where
  "serialize_data_no_writers B p =
     (let buf = write_string B (nw_topic_name p) (bytes_mut_new B)
      in put_slice B (nw_key_data p) buf)"

section \<open>Framing and validation\<close>

definition build_message :: "MsgType \<Rightarrow> u32 \<Rightarrow> bytes \<Rightarrow> bytes" where
  "build_message mt rid payload =
     (let header = \<lparr>version = VERSION, msg_type = mt, request_id = rid,
                     payload_length = of_nat (length payload)\<rparr>
      in serialize_header header @ payload)"

definition validate_client_header :: "Header \<Rightarrow> u8 \<Rightarrow> nat \<Rightarrow> (ProtocolError, unit) result" where
  "validate_client_header header max_version max_payload_size =
     (if version header > max_version then
        Err (UnsupportedVersion (version header) max_version)
      else if unat (payload_length header) > max_payload_size then
        Err (PayloadTooLarge (unat (payload_length header)) max_payload_size)
      else if request_id header = 0 then Err ReservedRequestId
      else Ok ())"

lemma parse_build_message:
  "parse_header (build_message mt rid payload) =
   Ok \<lparr>version = VERSION, msg_type = mt, request_id = rid, payload_length = of_nat (length payload)\<rparr>"
  unfolding build_message_def Let_def by (rule parse_serialize_header)

lemma drop_build_message: "drop HEADER_SIZE (build_message mt rid payload) = payload"
  unfolding build_message_def Let_def by simp

lemma length_build_message: "length (build_message mt rid payload) = HEADER_SIZE + length payload"
  unfolding build_message_def Let_def by simp

section \<open>Wire format of the payloads and round trips\<close>

definition enc_bool :: "bool \<Rightarrow> bytes" where
  "enc_bool b = [if b then 1 else 0]"

definition subscribe_ok :: "SubscribePayload \<Rightarrow> bool" where
  "subscribe_ok p \<longleftrightarrow> string_ok (sub_topic_name p) \<and> string_ok (sub_type_name p) \<and>
     qos_ok (sub_qos p) \<and> key_descriptors_ok (sub_key_descriptors p)"

definition enc_subscribe :: "SubscribePayload \<Rightarrow> bytes" where
  "enc_subscribe p = enc_string (sub_topic_name p) @ enc_string (sub_type_name p) @ enc_qos (sub_qos p) @
     enc_bool (sub_is_keyed p) @ enc_key_descriptors (sub_key_descriptors p)"

definition unsubscribe_ok :: "UnsubscribePayload \<Rightarrow> bool" where
  "unsubscribe_ok p \<longleftrightarrow> string_ok (unsub_topic_name p) \<and> string_ok (unsub_type_name p)"

definition enc_unsubscribe :: "UnsubscribePayload \<Rightarrow> bytes" where
  "enc_unsubscribe p = enc_string (unsub_topic_name p) @ enc_string (unsub_type_name p)"

definition create_writer_ok :: "CreateWriterPayload \<Rightarrow> bool" where
  "create_writer_ok p \<longleftrightarrow> string_ok (cw_topic_name p) \<and> string_ok (cw_type_name p) \<and>
     qos_ok (cw_qos p) \<and> key_descriptors_ok (cw_key_descriptors p)"

definition enc_create_writer :: "CreateWriterPayload \<Rightarrow> bytes" where
  "enc_create_writer p = enc_string (cw_topic_name p) @ enc_string (cw_type_name p) @ enc_qos (cw_qos p) @
     enc_bool (cw_is_keyed p) @ enc_key_descriptors (cw_key_descriptors p)"

primrec write_mode_ok :: "WriteMode \<Rightarrow> bool" where
  "write_mode_ok (TopicName t ty q kd data) \<longleftrightarrow>
     string_ok t \<and> string_ok ty \<and> qos_ok q \<and> key_descriptors_ok kd"
| "write_mode_ok (WriterId w key data) \<longleftrightarrow> length key < 2 ^ 32"

primrec enc_write_mode :: "WriteMode \<Rightarrow> bytes" where
  "enc_write_mode (TopicName t ty q kd data) =
     0 # enc_string t @ enc_string ty @ enc_qos q @ enc_key_descriptors kd @ data"
| "enc_write_mode (WriterId w key data) =
     1 # le_bytes 4 w @ le_bytes 4 (of_nat (length key) :: u32) @ key @ data"

definition enc_error :: "ErrorPayload \<Rightarrow> bytes" where
  "enc_error p = le_bytes 2 (error_code_u16 (err_code p)) @ enc_string (err_message p)"

definition enc_data :: "DataPayload \<Rightarrow> bytes" where
  "enc_data p = enc_string (dp_topic_name p) @ le_bytes 8 (dp_source_timestamp p) @ dp_data p"

definition enc_data_disposed :: "DataDisposedPayload \<Rightarrow> bytes" where
  "enc_data_disposed p = enc_string (dd_topic_name p) @ le_bytes 8 (dd_source_timestamp p) @ dd_key_data p"

definition enc_data_no_writers :: "DataNoWritersPayload \<Rightarrow> bytes" where
  "enc_data_no_writers p = enc_string (nw_topic_name p) @ nw_key_data p"

lemma error_code_from_to [simp]: "error_code_from_u16 (error_code_u16 c) = Ok c"
  by (cases c) (simp_all add: error_code_from_u16_def)

lemma error_code_from_u16_eq_Ok: "error_code_from_u16 v = Ok c \<longleftrightarrow> v = error_code_u16 c"
proof
  show "error_code_from_u16 v = Ok c \<Longrightarrow> v = error_code_u16 c"
    by (auto simp: error_code_from_u16_def split: if_splits)
qed simp

lemma error_code_from_u16_no_panic [simp]: "error_code_from_u16 v \<noteq> Panic"
  by (simp add: error_code_from_u16_def)

lemma check_no_trailing_eq_Ok [simp]: "check_no_trailing bs = Ok u \<longleftrightarrow> bs = []"
  by (simp add: check_no_trailing_def)

lemma check_no_trailing_Nil [simp]: "check_no_trailing [] = Ok ()"
  by (simp add: check_no_trailing_def)

lemma check_no_trailing_no_panic [simp]: "check_no_trailing bs \<noteq> Panic"
  by (simp add: check_no_trailing_def)

lemma unat_of_nat_u32 [simp]: "n < 2 ^ 32 \<Longrightarrow> unat (of_nat n :: u32) = n"
  by (simp add: unat_of_nat take_bit_nat_eq_self)

lemma unat_u32_less [simp]: "unat (w :: u32) < 4294967296"
  using unsigned_less [of w, where ?'a = nat] by simp

context bytes_laws
begin

lemmas par_encs [simp] =
  read_string_enc parse_qos_enc parse_key_descriptors_enc
  read_string_enc [where rest = "[]", simplified]
  parse_key_descriptors_enc [where rest = "[]", simplified]

lemmas par_eq_Oks = string_codec.par_eq_Ok qos_codec.par_eq_Ok key_descriptors_codec.par_eq_Ok get_eq_Some

lemmas par_no_panics [simp] =
  read_string_no_panic read_bool_no_panic parse_qos_no_panic parse_key_descriptors_no_panic

lemmas ser_encs = write_string_enc serialize_qos_enc serialize_key_descriptors_enc

lemma read_bool_enc_bool [simp]: "read_bool B (enc_bool b @ rest) = Ok (b, rest)"
  by (simp add: enc_bool_def read_bool_enc)

lemma parse_write_mode_enc: "write_mode_ok m \<Longrightarrow> parse_write_mode B (enc_write_mode m) = Ok m"
  by (cases m) (simp_all add: parse_write_mode_def Let_def)

lemma parse_write_mode_no_panic: "parse_write_mode B bs \<noteq> Panic"
  by (cases bs) (auto simp: parse_write_mode_def and_then_eq_Panic par_eq_Oks Let_def slice_to_def)

lemma parse_write_mode_sound:
  assumes "parse_write_mode B bs = Ok m"
  shows "write_mode_ok m \<and> bs = enc_write_mode m"
proof (cases bs)
  case Nil
  with assms show ?thesis by (simp add: parse_write_mode_def)
next
  case (Cons mode buf)
  consider "mode = 0" | "mode = 1" | "mode \<noteq> 0" "mode \<noteq> 1" by blast
  then show ?thesis
  proof cases
    case 1
    with assms Cons show ?thesis
      by (auto simp: parse_write_mode_def par_eq_Oks)
  next
    case 2
    with assms Cons obtain w n r where "m = WriterId w (take (unat n) r) (drop (unat n) r)"
      "unat (n :: u32) \<le> length r" "buf = le_bytes 4 w @ le_bytes 4 n @ r"
      by (auto simp: parse_write_mode_def par_eq_Oks Let_def slice_to_def split: if_splits)
    then show ?thesis using Cons 2 by simp
  next
    case 3
    with assms Cons show ?thesis by (simp add: parse_write_mode_def)
  qed
qed

lemma serialize_write_mode_enc: "serialize_write_mode B m = enc_write_mode m"
  by (cases m) (simp_all add: ser_encs Let_def)

end

sublocale bytes_laws \<subseteq> subscribe_msg: message_codec enc_subscribe "serialize_subscribe B" "parse_subscribe B" subscribe_ok
proof unfold_locales
  show "serialize_subscribe B x = enc_subscribe x" for x
    by (simp add: serialize_subscribe_def enc_subscribe_def ser_encs Let_def enc_bool_def)
  show "subscribe_ok x \<Longrightarrow> parse_subscribe B (enc_subscribe x) = Ok x" for x
    by (simp add: parse_subscribe_def enc_subscribe_def subscribe_ok_def)
  show "parse_subscribe B bs \<noteq> Panic" for bs
    by (auto simp: parse_subscribe_def and_then_eq_Panic)
qed

sublocale bytes_laws \<subseteq> unsubscribe_msg: message_codec enc_unsubscribe "serialize_unsubscribe B" "parse_unsubscribe B" unsubscribe_ok
proof unfold_locales
  show "serialize_unsubscribe B x = enc_unsubscribe x" for x
    by (simp add: serialize_unsubscribe_def enc_unsubscribe_def ser_encs Let_def)
  show "unsubscribe_ok x \<Longrightarrow> parse_unsubscribe B (enc_unsubscribe x) = Ok x" for x
    by (simp add: parse_unsubscribe_def enc_unsubscribe_def unsubscribe_ok_def)
  show "parse_unsubscribe B bs \<noteq> Panic" for bs
    by (auto simp: parse_unsubscribe_def and_then_eq_Panic)
qed

sublocale bytes_laws \<subseteq> create_writer_msg: message_codec enc_create_writer "serialize_create_writer B" "parse_create_writer B" create_writer_ok
proof unfold_locales
  show "serialize_create_writer B x = enc_create_writer x" for x
    by (simp add: serialize_create_writer_def enc_create_writer_def ser_encs Let_def enc_bool_def)
  show "create_writer_ok x \<Longrightarrow> parse_create_writer B (enc_create_writer x) = Ok x" for x
    by (simp add: parse_create_writer_def enc_create_writer_def create_writer_ok_def)
  show "parse_create_writer B bs \<noteq> Panic" for bs
    by (auto simp: parse_create_writer_def and_then_eq_Panic)
qed

sublocale bytes_laws \<subseteq> write_mode_msg: message_codec enc_write_mode "serialize_write_mode B" "parse_write_mode B" write_mode_ok
  by unfold_locales (simp_all add: serialize_write_mode_enc parse_write_mode_enc parse_write_mode_no_panic)

sublocale bytes_laws \<subseteq> delete_writer_msg: message_codec "\<lambda>p. le_bytes 4 (dw_writer_id p)" "serialize_delete_writer B" parse_delete_writer "\<lambda>_. True"
proof unfold_locales
  show "serialize_delete_writer B x = le_bytes 4 (dw_writer_id x)" for x
    by (simp add: serialize_delete_writer_def)
  show "parse_delete_writer (le_bytes 4 (dw_writer_id x)) = Ok x" for x
    by (simp add: parse_delete_writer_def)
  show "parse_delete_writer bs \<noteq> Panic" for bs
    by (auto simp: parse_delete_writer_def and_then_eq_Panic)
qed

sublocale bytes_laws \<subseteq> error_msg: message_codec enc_error "serialize_error B" "parse_error B" "\<lambda>p. string_ok (err_message p)"
proof unfold_locales
  show "serialize_error B x = enc_error x" for x
    by (simp add: serialize_error_def enc_error_def ser_encs Let_def)
  show "string_ok (err_message x) \<Longrightarrow> parse_error B (enc_error x) = Ok x" for x
    by (simp add: parse_error_def enc_error_def)
  show "parse_error B bs \<noteq> Panic" for bs
    by (auto simp: parse_error_def and_then_eq_Panic)
qed

sublocale bytes_laws \<subseteq> data_msg: message_codec enc_data "serialize_data B" "parse_data B" "\<lambda>p. string_ok (dp_topic_name p)"
proof unfold_locales
  show "serialize_data B x = enc_data x" for x
    by (simp add: serialize_data_def enc_data_def ser_encs Let_def)
  show "string_ok (dp_topic_name x) \<Longrightarrow> parse_data B (enc_data x) = Ok x" for x
    by (simp add: parse_data_def enc_data_def)
  show "parse_data B bs \<noteq> Panic" for bs
    by (auto simp: parse_data_def and_then_eq_Panic)
qed

sublocale bytes_laws \<subseteq> data_disposed_msg: message_codec enc_data_disposed "serialize_data_disposed B" "parse_data_disposed B" "\<lambda>p. string_ok (dd_topic_name p)"
proof unfold_locales
  show "serialize_data_disposed B x = enc_data_disposed x" for x
    by (simp add: serialize_data_disposed_def enc_data_disposed_def ser_encs Let_def)
  show "string_ok (dd_topic_name x) \<Longrightarrow> parse_data_disposed B (enc_data_disposed x) = Ok x" for x
    by (simp add: parse_data_disposed_def enc_data_disposed_def)
  show "parse_data_disposed B bs \<noteq> Panic" for bs
    by (auto simp: parse_data_disposed_def and_then_eq_Panic)
qed

sublocale bytes_laws \<subseteq> data_no_writers_msg: message_codec enc_data_no_writers "serialize_data_no_writers B" "parse_data_no_writers B" "\<lambda>p. string_ok (nw_topic_name p)"
proof unfold_locales
  show "serialize_data_no_writers B x = enc_data_no_writers x" for x
    by (simp add: serialize_data_no_writers_def enc_data_no_writers_def ser_encs Let_def)
  show "string_ok (nw_topic_name x) \<Longrightarrow> parse_data_no_writers B (enc_data_no_writers x) = Ok x" for x
    by (simp add: parse_data_no_writers_def enc_data_no_writers_def)
  show "parse_data_no_writers B bs \<noteq> Panic" for bs
    by (auto simp: parse_data_no_writers_def and_then_eq_Panic)
qed

end
