(* ===== verification/Sertype.thy ===== *)
theory Sertype
  imports Messages
begin

text \<open>
  \<open>src/dds/sertype.rs\<close>: the opaque sertype and serdata that carry uninterpreted bytes
  through Cyclone DDS. Here: the sample wrapper, the sertype, and the key extraction,
  comparison and hashing helpers. A raw pointer with its length (and capacity) is one
  \<open>bytes option\<close>, \<open>None\<close> for the null pointer; the pointer of an empty \<open>Vec\<close> is not null.
\<close>

section \<open>Sample wrapper and sertype\<close>

definition DDS_DOMAIN_DEFAULT :: u32 where "DDS_DOMAIN_DEFAULT = 0xFFFFFFFF"

record SampleWrapper =
  sw_data :: "bytes option"
  sw_len :: nat
  sw_key_data :: "bytes option"
  sw_key_len :: nat

definition from_bytes :: "bytes \<Rightarrow> bytes \<Rightarrow> SampleWrapper" where
  "from_bytes data key_bytes =
     \<lparr>sw_data = Some data,
      sw_len = length data,
      sw_key_data = (if key_bytes = [] then None else Some key_bytes),
      sw_key_len = (if key_bytes = [] then 0 else length key_bytes)\<rparr>"

record OpaqueSertype =
  st_type_name :: string
  st_typekind_no_key :: bool
  st_allowed_data_representation :: u32
  st_key_fields :: "KeyField list"

text \<open>
  \<open>CString::new(type_name).expect(..)\<close> panics on a NUL byte. What \<open>ddsi_sertype_init\<close>
  writes into the base is its type name and the no-key flag.
\<close>

definition create_opaque_sertype ::
  "string \<Rightarrow> bool \<Rightarrow> KeyDescriptors \<Rightarrow> ('e, OpaqueSertype) result" where
  "create_opaque_sertype type_name is_keyed key_descriptors =
     and_then (call (cstring_new type_name)) (\<lambda>c_name.
     Ok \<lparr>st_type_name = c_name,
         st_typekind_no_key = (\<not> is_keyed),
         st_allowed_data_representation = push_bit 0 1 OR push_bit 2 1,
         st_key_fields = kd_keys key_descriptors\<rparr>)"

lemma create_opaque_sertype_Panic:
  "create_opaque_sertype ty k kd = Panic \<longleftrightarrow> 0 \<in> set (as_bytes ty)"
  by (simp add: create_opaque_sertype_def and_then_eq_Panic cstring_new_def)

section \<open>Key extraction and comparison\<close>

text \<open>These helpers can panic (an index out of range) but have no error value.\<close>

definition be_bytes_u32 :: "bytes \<Rightarrow> u32" where
  "be_bytes_u32 bs = from_le (rev bs)"

definition read_u32_cdr :: "bytes \<Rightarrow> nat \<Rightarrow> (unit, u32 option) result" where
  "read_u32_cdr data off =
     (if off + 4 > length data then Ok None else
      and_then (slice data off (off + 4)) (\<lambda>bs.
      let le = length data \<ge> 2 \<and> (data ! 1) AND 0x01 \<noteq> 0
      in if le then Ok (Some (from_le bs)) else Ok (Some (be_bytes_u32 bs))))"

definition extract_key_bytes :: "bytes \<Rightarrow> KeyField \<Rightarrow> (unit, bytes) result" where
  "extract_key_bytes data field =
     (let off = unat (kf_offset field) in
      if off \<ge> length data then Ok [] else
      case kf_type_hint field of
        StringKey \<Rightarrow>
          and_then (read_u32_cdr data off) (\<lambda>len.
          case len of
            None \<Rightarrow> Ok []
          | Some n \<Rightarrow> let str_len = unat n in slice data off (min (off + 4 + str_len) (length data)))
      | _ \<Rightarrow> let sz = unat (kf_size field) in slice data off (min (off + sz) (length data)))"

fun keys_equal :: "bytes \<Rightarrow> bytes \<Rightarrow> KeyField list \<Rightarrow> (unit, bool) result" where
  "keys_equal a_data b_data [] = Ok True"
| "keys_equal a_data b_data (field # key_fields) =
     and_then (extract_key_bytes a_data field) (\<lambda>ka.
     and_then (extract_key_bytes b_data field) (\<lambda>kb.
     if ka \<noteq> kb then Ok False else keys_equal a_data b_data key_fields))"

definition fnv1a_bytes :: "u32 \<Rightarrow> bytes \<Rightarrow> u32" where
  "fnv1a_bytes hash kb = foldl (\<lambda>hash b. (hash XOR ucast b) * 16777619) hash kb"

fun hash_key_fields :: "bytes \<Rightarrow> KeyField list \<Rightarrow> u32 \<Rightarrow> (unit, u32) result" where
  "hash_key_fields data [] hash = Ok hash"
| "hash_key_fields data (field # key_fields) hash =
     and_then (extract_key_bytes data field) (\<lambda>kb.
     hash_key_fields data key_fields (fnv1a_bytes hash kb))"

definition hash_key_bytes :: "bytes \<Rightarrow> KeyField list \<Rightarrow> (unit, u32) result" where
  "hash_key_bytes data key_fields = hash_key_fields data key_fields 2166136261"

text \<open>The bytes of one key, as a total function: extraction never panics and returns them.\<close>

definition key_part :: "bytes \<Rightarrow> KeyField \<Rightarrow> bytes" where
  "key_part data field = (case extract_key_bytes data field of Ok kb \<Rightarrow> kb | _ \<Rightarrow> [])"

lemma extract_key_bytes_Ok:
  "extract_key_bytes data field = Ok (key_part data field)"
proof -
  have "\<exists>kb. extract_key_bytes data field = Ok kb"
    by (auto simp: extract_key_bytes_def read_u32_cdr_def slice_def Let_def split: KeyTypeHint.splits)
  then obtain kb where "extract_key_bytes data field = Ok kb" ..
  moreover then have "key_part data field = kb"
    by (simp add: key_part_def)
  ultimately show ?thesis by simp
qed

lemma keys_equal_iff: "keys_equal a b fs = Ok (map (key_part a) fs = map (key_part b) fs)"
  by (induction fs) (simp_all add: extract_key_bytes_Ok)

lemma hash_key_fields_eq:
  "hash_key_fields data fs h = Ok (foldl fnv1a_bytes h (map (key_part data) fs))"
  by (induction fs arbitrary: h) (simp_all add: extract_key_bytes_Ok)

end
