(* ===== verification/Config.thy ===== *)
theory Config
  imports Wire
begin

text \<open>
  \<open>src/config.rs\<close> and the argument handling of \<open>src/main.rs\<close>: the configuration, its
  defaults, and the overrides from environment variables and command-line flags. Reading a
  file, parsing TOML (crate \<open>toml\<close>), reading the environment and the health probe's TCP
  exchange are outside the repository; the record \<open>host\<close> holds them.
\<close>

record WebSocketConfig =
  ws_addr :: string
  ws_port :: u16
  ws_max_connections :: nat
  ws_idle_timeout_secs :: u64

record DdsConfig =
  dds_domain_id :: u32
  dds_cyclonedds_uri :: "string option"

record BridgeConfig =
  bc_max_payload_size :: nat
  bc_session_buffer_size :: nat

record LoggingConfig =
  log_level :: string

record Config =
  cfg_websocket :: WebSocketConfig
  cfg_dds :: DdsConfig
  cfg_bridge :: BridgeConfig
  cfg_logging :: LoggingConfig

definition websocket_config_default :: WebSocketConfig where
  "websocket_config_default = \<lparr>ws_addr = ''127.0.0.1'', ws_port = 9876,
     ws_max_connections = 64, ws_idle_timeout_secs = 30\<rparr>"

definition dds_config_default :: DdsConfig where
  "dds_config_default = \<lparr>dds_domain_id = 0, dds_cyclonedds_uri = None\<rparr>"

definition bridge_config_default :: BridgeConfig where
  "bridge_config_default = \<lparr>bc_max_payload_size = DEFAULT_MAX_PAYLOAD_SIZE, bc_session_buffer_size = 256\<rparr>"

definition logging_config_default :: LoggingConfig where
  "logging_config_default = \<lparr>log_level = ''info''\<rparr>"

definition config_default :: Config where
  "config_default = \<lparr>cfg_websocket = websocket_config_default, cfg_dds = dds_config_default,
     cfg_bridge = bridge_config_default, cfg_logging = logging_config_default\<rparr>"

section \<open>Parsing unsigned decimals\<close>

text \<open>
  \<open>str::parse\<close> for the unsigned integer types, given the largest value: one optional plus
  sign, at least one digit, nothing else, and no intermediate overflow.
\<close>

definition digit :: "char \<Rightarrow> nat option" where
  "digit c = (let v = (of_char c :: nat) in if 48 \<le> v \<and> v \<le> 57 then Some (v - 48) else None)"

fun parse_digits :: "nat \<Rightarrow> nat \<Rightarrow> string \<Rightarrow> nat option" where
  "parse_digits mx acc [] = Some acc"
| "parse_digits mx acc (c # cs) =
     (case digit c of
        None \<Rightarrow> None
      | Some d \<Rightarrow> if acc * 10 + d > mx then None else parse_digits mx (acc * 10 + d) cs)"

definition parse_uint :: "nat \<Rightarrow> string \<Rightarrow> nat option" where
  "parse_uint mx s =
     (case s of
        [] \<Rightarrow> None
      | c # cs \<Rightarrow>
          if c = CHR ''+'' then (if cs = [] then None else parse_digits mx 0 cs)
          else parse_digits mx 0 s)"

definition parse_u16 :: "string \<Rightarrow> u16 option" where
  "parse_u16 s = map_option of_nat (parse_uint 65535 s)"

definition parse_u32 :: "string \<Rightarrow> u32 option" where
  "parse_u32 s = map_option of_nat (parse_uint 4294967295 s)"

section \<open>Loading\<close>

text \<open>
  \<open>FileRead\<close> carries the path and the rendered I/O error, \<open>Parse\<close> the message of the TOML
  parser.
\<close>

datatype ConfigError =
    FileRead string string | Parse string | InvalidEnvVar string string

record host =
  env_var :: "string \<Rightarrow> string option"   \<comment> \<open>\<open>None\<close>: unset or not Unicode\<close>
  read_to_string :: "string \<Rightarrow> string + string"
  toml_from_str :: "string \<Rightarrow> string + Config"

definition apply_env_overrides :: "host \<Rightarrow> Config \<Rightarrow> (ConfigError, Config) result" where
  "apply_env_overrides H c =
     (let c = (case env_var H ''DDS_BRIDGE_WS_ADDR'' of
                 None \<Rightarrow> c
               | Some val \<Rightarrow> c\<lparr>cfg_websocket := (cfg_websocket c)\<lparr>ws_addr := val\<rparr>\<rparr>) in
      and_then (case env_var H ''DDS_BRIDGE_WS_PORT'' of
                  None \<Rightarrow> Ok c
                | Some val \<Rightarrow>
                    (case parse_u16 val of
                       None \<Rightarrow> Err (InvalidEnvVar ''DDS_BRIDGE_WS_PORT'' val)
                     | Some p \<Rightarrow> Ok (c\<lparr>cfg_websocket := (cfg_websocket c)\<lparr>ws_port := p\<rparr>\<rparr>))) (\<lambda>c.
      and_then (case env_var H ''DDS_BRIDGE_DDS_DOMAIN'' of
                  None \<Rightarrow> Ok c
                | Some val \<Rightarrow>
                    (case parse_u32 val of
                       None \<Rightarrow> Err (InvalidEnvVar ''DDS_BRIDGE_DDS_DOMAIN'' val)
                     | Some d \<Rightarrow> Ok (c\<lparr>cfg_dds := (cfg_dds c)\<lparr>dds_domain_id := d\<rparr>\<rparr>))) (\<lambda>c.
      Ok (case env_var H ''CYCLONEDDS_URI'' of
            None \<Rightarrow> c
          | Some val \<Rightarrow> c\<lparr>cfg_dds := (cfg_dds c)\<lparr>dds_cyclonedds_uri := Some val\<rparr>\<rparr>))))"

definition config_load :: "host \<Rightarrow> string \<Rightarrow> (ConfigError, Config) result" where
  "config_load H path =
     (case read_to_string H path of
        Inl e \<Rightarrow> Err (FileRead path e)
      | Inr contents \<Rightarrow>
          (case toml_from_str H contents of
             Inl e \<Rightarrow> Err (Parse e)
           | Inr config \<Rightarrow> apply_env_overrides H config))"

definition from_defaults :: "host \<Rightarrow> (ConfigError, Config) result" where
  "from_defaults H = apply_env_overrides H config_default"

section \<open>Command line\<close>

fun verbosity_of :: "string list \<Rightarrow> string option" where
  "verbosity_of [] = None"
| "verbosity_of (arg # args) =
     (if arg = ''-vv'' then Some ''trace''
      else if arg = ''-v'' then Some ''debug''
      else verbosity_of args)"

definition parse_verbosity :: "string list \<Rightarrow> string option" where
  "parse_verbosity args = verbosity_of (drop 1 args)"

text \<open>\<open>args.windows(2).find(|w| w[0] == "--config")\<close>.\<close>

fun config_path :: "string list \<Rightarrow> string option" where
  "config_path (a # b # args) = (if a = ''--config'' then Some b else config_path (b # args))"
| "config_path _ = None"

definition load_config_from_args :: "host \<Rightarrow> string list \<Rightarrow> (ConfigError, Config) result" where
  "load_config_from_args H args =
     and_then (case config_path args of
                 Some path \<Rightarrow> config_load H path
               | None \<Rightarrow> from_defaults H) (\<lambda>config.
     Ok (case parse_verbosity args of
           None \<Rightarrow> config
         | Some level \<Rightarrow> config\<lparr>cfg_logging := (cfg_logging config)\<lparr>log_level := level\<rparr>\<rparr>))"

section \<open>Health check client\<close>

text \<open>
  The TCP exchange of \<open>run_healthcheck\<close> as the outcome of its three fallible calls:
  \<open>tcp_connect\<close> says whether the address parses and the connection is made, \<open>tcp_write\<close>
  whether the request was sent, and \<open>tcp_read\<close> gives the response.
\<close>

record tcp =
  sock_addr_ok :: "string \<Rightarrow> bool"
  tcp_connect :: "string \<Rightarrow> bool"
  tcp_write :: "string \<Rightarrow> bool"
  tcp_read :: "string option"

definition starts_with :: "string \<Rightarrow> string \<Rightarrow> bool" where
  "starts_with p s \<longleftrightarrow> take (length p) s = p"

definition CRLF :: string where "CRLF = [CHR 0x0D, CHR 0x0A]"

definition run_healthcheck :: "host \<Rightarrow> tcp \<Rightarrow> string list \<Rightarrow> int" where
  "run_healthcheck H T args =
     (let config = (case load_config_from_args H args of Ok c \<Rightarrow> c | _ \<Rightarrow> config_default);
          host = (if ws_addr (cfg_websocket config) = ''0.0.0.0'' then ''127.0.0.1''
                  else ws_addr (cfg_websocket config));
          addr = host @ '':'' @ fmt_dec (unat (ws_port (cfg_websocket config)))
      in if \<not> sock_addr_ok T addr then 1
         else if \<not> tcp_connect T addr then 1
         else if \<not> tcp_write T (''GET /health HTTP/1.1'' @ CRLF @ ''Host: '' @ host @ CRLF
                  @ ''Connection: close'' @ CRLF @ CRLF) then 1
         else (case tcp_read T of
                 None \<Rightarrow> 1
               | Some response \<Rightarrow> if starts_with ''HTTP/1.1 200'' response then 0 else 1))"

section \<open>Facts\<close>

lemma parse_digits_le: "parse_digits mx acc s = Some n \<Longrightarrow> acc \<le> mx \<Longrightarrow> n \<le> mx"
  by (induction mx acc s rule: parse_digits.induct) (auto split: option.splits if_splits)

lemma apply_env_overrides_no_panic: "apply_env_overrides H c \<noteq> Panic"
  by (auto simp: apply_env_overrides_def Let_def and_then_eq_Panic split: option.splits)

text \<open>Only the address, the port, the domain and the URI can change.\<close>

lemma apply_env_overrides_frame:
  assumes "apply_env_overrides H c = Ok c'"
  shows "cfg_bridge c' = cfg_bridge c" and "cfg_logging c' = cfg_logging c"
    and "ws_max_connections (cfg_websocket c') = ws_max_connections (cfg_websocket c)"
    and "ws_idle_timeout_secs (cfg_websocket c') = ws_idle_timeout_secs (cfg_websocket c)"
  using assms by (auto simp: apply_env_overrides_def Let_def split: option.splits)

lemma apply_env_overrides_unset: "(\<And>v. env_var H v = None) \<Longrightarrow> apply_env_overrides H c = Ok c"
  by (simp add: apply_env_overrides_def)

end
