(* ===== verification/Dds_Api.thy ===== *)
theory Dds_Api
  imports Sertype
begin

text \<open>
  The boundary to code outside the repository, and the two files that translate to it:
  \<open>src/dds/error.rs\<close> (the error type) and \<open>src/dds/qos_handle.rs\<close> (a QoS set as a sequence
  of Cyclone DDS setter calls).

  \<open>environment\<close> is the record of every foreign operation the bridge calls: the Cyclone DDS C
  functions, the bounded \<open>try_send\<close> of a tokio channel, and the iteration order of the
  standard hash containers. Each operation acts on an unspecified state \<open>'w\<close> of the outside
  world and every definition that calls one takes the record as an argument \<open>E\<close>; a negative
  handle or return code is a failure, as in the C API.
\<close>

section \<open>Errors\<close>

datatype DdsError =
    CreateParticipant i32 | CreateTopic i32 | CreateWriter i32 | CreateReader i32
  | Write i32 | Dispose i32 | WriteDispose i32 | Read i32
  | InvalidName string | WriterNotFound u32 | WriterOwnership u32

primrec dds_error_to_string :: "DdsError \<Rightarrow> string" where
  "dds_error_to_string (CreateParticipant c) = ''failed to create DomainParticipant: DDS error code '' @ fmt_i32 c"
| "dds_error_to_string (CreateTopic c) = ''failed to create topic: DDS error code '' @ fmt_i32 c"
| "dds_error_to_string (CreateWriter c) = ''failed to create writer: DDS error code '' @ fmt_i32 c"
| "dds_error_to_string (CreateReader c) = ''failed to create reader: DDS error code '' @ fmt_i32 c"
| "dds_error_to_string (Write c) = ''DDS write failed: error code '' @ fmt_i32 c"
| "dds_error_to_string (Dispose c) = ''DDS dispose failed: error code '' @ fmt_i32 c"
| "dds_error_to_string (WriteDispose c) = ''DDS writedispose failed: error code '' @ fmt_i32 c"
| "dds_error_to_string (Read c) = ''DDS read/take failed: error code '' @ fmt_i32 c"
| "dds_error_to_string (InvalidName s) = ''invalid name: '' @ s"
| "dds_error_to_string (WriterNotFound w) = ''writer not found: '' @ fmt_dec (unat w)"
| "dds_error_to_string (WriterOwnership w) =
     ''writer ownership violation: writer '' @ fmt_dec (unat w) @ '' belongs to another session''"

section \<open>QoS objects\<close>

text \<open>The enumerators of the generated bindings, by name.\<close>

datatype dds_reliability_kind = DDS_RELIABILITY_BEST_EFFORT | DDS_RELIABILITY_RELIABLE
datatype dds_durability_kind =
  DDS_DURABILITY_VOLATILE | DDS_DURABILITY_TRANSIENT_LOCAL | DDS_DURABILITY_TRANSIENT | DDS_DURABILITY_PERSISTENT
datatype dds_history_kind = DDS_HISTORY_KEEP_LAST | DDS_HISTORY_KEEP_ALL
datatype dds_liveliness_kind =
  DDS_LIVELINESS_AUTOMATIC | DDS_LIVELINESS_MANUAL_BY_PARTICIPANT | DDS_LIVELINESS_MANUAL_BY_TOPIC
datatype dds_destination_order_kind =
  DDS_DESTINATIONORDER_BY_RECEPTION_TIMESTAMP | DDS_DESTINATIONORDER_BY_SOURCE_TIMESTAMP
datatype dds_presentation_access_scope_kind =
  DDS_PRESENTATION_INSTANCE | DDS_PRESENTATION_TOPIC | DDS_PRESENTATION_GROUP
datatype dds_ownership_kind = DDS_OWNERSHIP_SHARED | DDS_OWNERSHIP_EXCLUSIVE

text \<open>One setter call on a \<open>dds_qos_t\<close>; the object is the sequence of calls made on it.\<close>

datatype dds_qset =
    Qset_reliability dds_reliability_kind i64
  | Qset_durability dds_durability_kind
  | Qset_history dds_history_kind i32
  | Qset_deadline i64
  | Qset_latency_budget i64
  | Qset_ownership_strength i32
  | Qset_liveliness dds_liveliness_kind i64
  | Qset_destination_order dds_destination_order_kind
  | Qset_presentation dds_presentation_access_scope_kind bool bool
  | Qset_partition u32 "string list"
  | Qset_ownership dds_ownership_kind
  | Qset_writer_data_lifecycle bool
  | Qset_time_based_filter i64

type_synonym dds_qos = "dds_qset list"

section \<open>Foreign operations\<close>

record SampleInfo =
  si_instance_state :: u32
  si_valid_data :: bool
  si_source_timestamp :: i64

text \<open>A channel's sending half, known by its identity.\<close>

type_synonym Sender = nat
type_synonym dds_entity_t = i32

record 'w environment =
  dds_create_participant :: "u32 \<Rightarrow> 'w \<Rightarrow> dds_entity_t \<times> 'w"
  dds_create_topic_sertype :: "dds_entity_t \<Rightarrow> string \<Rightarrow> OpaqueSertype \<Rightarrow> 'w \<Rightarrow> dds_entity_t \<times> 'w"
  dds_create_qos :: "'w \<Rightarrow> bool \<times> 'w"   \<comment> \<open>\<open>False\<close>: null\<close>
  dds_delete_qos :: "dds_qos \<Rightarrow> 'w \<Rightarrow> 'w"
  dds_create_writer :: "dds_entity_t \<Rightarrow> dds_entity_t \<Rightarrow> dds_qos option \<Rightarrow> 'w \<Rightarrow> dds_entity_t \<times> 'w"
  dds_create_reader :: "dds_entity_t \<Rightarrow> dds_entity_t \<Rightarrow> dds_qos option \<Rightarrow> 'w \<Rightarrow> dds_entity_t \<times> 'w"
  dds_write :: "dds_entity_t \<Rightarrow> SampleWrapper \<Rightarrow> 'w \<Rightarrow> i32 \<times> 'w"
  dds_dispose :: "dds_entity_t \<Rightarrow> SampleWrapper \<Rightarrow> 'w \<Rightarrow> i32 \<times> 'w"
  dds_writedispose :: "dds_entity_t \<Rightarrow> SampleWrapper \<Rightarrow> 'w \<Rightarrow> i32 \<times> 'w"
  dds_take :: "dds_entity_t \<Rightarrow> 'w \<Rightarrow> (i32 \<times> SampleWrapper \<times> SampleInfo) \<times> 'w"
  dds_delete :: "dds_entity_t \<Rightarrow> 'w \<Rightarrow> 'w"
  try_send :: "Sender \<Rightarrow> bytes \<Rightarrow> 'w \<Rightarrow> bool \<times> 'w"   \<comment> \<open>\<open>False\<close>: full or closed\<close>
  iter_u64 :: "'w \<Rightarrow> u64 set \<Rightarrow> u64 list"
  iter_sub :: "'w \<Rightarrow> (u64 \<times> string \<times> string) set \<Rightarrow> (u64 \<times> string \<times> string) list"

text \<open>The documented behaviour of hash-container iteration: every element once, in some order.\<close>

locale hash_iteration =
  fixes E :: "'w environment"
  assumes iter_u64_set [simp]: "finite S \<Longrightarrow> set (iter_u64 E w S) = S"
    and iter_u64_distinct [simp]: "finite S \<Longrightarrow> distinct (iter_u64 E w S)"
    and iter_sub_set [simp]: "finite T \<Longrightarrow> set (iter_sub E w T) = T"
    and iter_sub_distinct [simp]: "finite T \<Longrightarrow> distinct (iter_sub E w T)"

section \<open>QoS handles\<close>

text \<open>Milliseconds to nanoseconds, \<open>(ms as i64) * 1_000_000\<close>.\<close>

definition ms_to_ns :: "u32 \<Rightarrow> i64" where
  "ms_to_ns ms = ucast ms * 1000000"

definition I64_MAX :: i64 where "I64_MAX = 0x7FFFFFFFFFFFFFFF"

primrec apply_policy :: "QosPolicy \<Rightarrow> dds_qset" where
  "apply_policy (Reliability kind max_blocking_time_ms) =
     Qset_reliability (if kind = 0 then DDS_RELIABILITY_BEST_EFFORT else DDS_RELIABILITY_RELIABLE)
       (ms_to_ns max_blocking_time_ms)"
| "apply_policy (Durability kind) =
     Qset_durability (if kind = 0 then DDS_DURABILITY_VOLATILE
       else if kind = 1 then DDS_DURABILITY_TRANSIENT_LOCAL
       else if kind = 2 then DDS_DURABILITY_TRANSIENT else DDS_DURABILITY_PERSISTENT)"
| "apply_policy (History kind depth) =
     Qset_history (if kind = 0 then DDS_HISTORY_KEEP_LAST else DDS_HISTORY_KEEP_ALL) (ucast depth)"
| "apply_policy (Deadline period_ms) =
     Qset_deadline (if period_ms = 0 then I64_MAX else ms_to_ns period_ms)"
| "apply_policy (LatencyBudget duration_ms) = Qset_latency_budget (ms_to_ns duration_ms)"
| "apply_policy (OwnershipStrength value) = Qset_ownership_strength (ucast value)"
| "apply_policy (Liveliness kind lease_duration_ms) =
     Qset_liveliness (if kind = 0 then DDS_LIVELINESS_AUTOMATIC
       else if kind = 1 then DDS_LIVELINESS_MANUAL_BY_PARTICIPANT else DDS_LIVELINESS_MANUAL_BY_TOPIC)
       (if lease_duration_ms = 0 then I64_MAX else ms_to_ns lease_duration_ms)"
| "apply_policy (DestinationOrder kind) =
     Qset_destination_order (if kind = 0 then DDS_DESTINATIONORDER_BY_RECEPTION_TIMESTAMP
       else DDS_DESTINATIONORDER_BY_SOURCE_TIMESTAMP)"
| "apply_policy (Presentation access_scope coherent_access ordered_access) =
     Qset_presentation (if access_scope = 0 then DDS_PRESENTATION_INSTANCE
       else if access_scope = 1 then DDS_PRESENTATION_TOPIC else DDS_PRESENTATION_GROUP)
       (coherent_access \<noteq> 0) (ordered_access \<noteq> 0)"
| "apply_policy (Partition partitions) =
     (let c_strings = map (\<lambda>s. case cstring_new s of Some c \<Rightarrow> c | None \<Rightarrow> '''') partitions
      in Qset_partition (of_nat (length c_strings)) c_strings)"
| "apply_policy (Ownership kind) =
     Qset_ownership (if kind = 0 then DDS_OWNERSHIP_SHARED else DDS_OWNERSHIP_EXCLUSIVE)"
| "apply_policy (WriterDataLifecycle autodispose) = Qset_writer_data_lifecycle (autodispose \<noteq> 0)"
| "apply_policy (TimeBasedFilter minimum_separation_ms) = Qset_time_based_filter (ms_to_ns minimum_separation_ms)"

text \<open>\<open>QosHandle::from_qos_set\<close>; \<open>None\<close> when the set is empty or the object cannot be created.\<close>

definition from_qos_set :: "'w environment \<Rightarrow> QosSet \<Rightarrow> 'w \<Rightarrow> dds_qos option \<times> 'w" where
  "from_qos_set E qos w =
     (if policies qos = [] then (None, w) else
      case dds_create_qos E w of
        (False, w) \<Rightarrow> (None, w)
      | (True, w) \<Rightarrow> (Some (map apply_policy (policies qos)), w))"

text \<open>
  \<open>make_qos\<close> returns the handle and the pointer into it; both are the same \<open>dds_qos option\<close>.
  \<open>drop_qos_handle\<close> is the destructor that runs at the end of the caller's scope.
\<close>

definition make_qos :: "'w environment \<Rightarrow> QosSet \<Rightarrow> 'w \<Rightarrow> dds_qos option \<times> 'w" where
  "make_qos E qos w = from_qos_set E qos w"

definition drop_qos_handle :: "'w environment \<Rightarrow> dds_qos option \<Rightarrow> 'w \<Rightarrow> 'w" where
  "drop_qos_handle E h w = (case h of None \<Rightarrow> w | Some q \<Rightarrow> dds_delete_qos E q w)"

section \<open>Bounds\<close>

text \<open>The conversion to nanoseconds never overflows a signed 64-bit integer.\<close>

lemma unat_ms_to_ns: "unat (ms_to_ns ms) = unat ms * 1000000"
proof -
  have "unat ms * 1000000 < 18446744073709551616" using unat_u32_less [of ms] by linarith
  then show ?thesis
    by (simp add: ms_to_ns_def unat_word_ariths unsigned_ucast_eq take_bit_nat_eq_self)
qed

lemma sint_ms_to_ns: "sint (ms_to_ns ms) = int (unat ms) * 1000000"
proof -
  have "unat (ms_to_ns ms) < 9223372036854775808"
    unfolding unat_ms_to_ns using unat_u32_less [of ms] by linarith
  then have "int (unat (ms_to_ns ms)) < 9223372036854775808" by linarith
  then have "uint (ms_to_ns ms) < 2 ^ 63" by simp
  moreover have "- (2 ^ 63) \<le> uint (ms_to_ns ms)"
    by (rule order_trans [OF _ uint_ge_0]) simp
  ultimately have "sint (ms_to_ns ms) = uint (ms_to_ns ms)"
    by (simp add: sint_uint signed_take_bit_int_eq_self)
  also have "\<dots> = int (unat (ms_to_ns ms))" by (rule uint_nat)
  finally show ?thesis unfolding unat_ms_to_ns by simp
qed

end
