(* ===== verification/Protocol_Props.thy ===== *)
theory Protocol_Props
  imports Sertype Config Dds_Api
begin

text \<open>
  Properties of the wire protocol. \<open>B\<close> is the \<open>bytes\<close> crate; \<open>bytes_laws B\<close> is its documented
  behaviour, and \<open>documented_bytes\<close> an instance of it.
\<close>

context bytes_laws
begin

lemma qos_exact: "parse_qos B bs = Ok (q, rest) \<longleftrightarrow> qos_ok q \<and> bs = serialize_qos B q [] @ rest"
  by (simp add: qos_codec.par_eq_Ok serialize_qos_enc)

lemma write_mode_exact: "parse_write_mode B bs = Ok m \<longleftrightarrow> write_mode_ok m \<and> bs = serialize_write_mode B m"
  using parse_write_mode_sound parse_write_mode_enc by (auto simp: serialize_write_mode_enc)

lemmas client_roundtrips =
  subscribe_msg.mpar_mser unsubscribe_msg.mpar_mser create_writer_msg.mpar_mser
  delete_writer_msg.mpar_mser

lemmas server_roundtrips =
  error_msg.mpar_mser data_msg.mpar_mser data_disposed_msg.mpar_mser data_no_writers_msg.mpar_mser

lemmas message_no_panic =
  subscribe_msg.mpar_no_panic unsubscribe_msg.mpar_no_panic create_writer_msg.mpar_no_panic
  delete_writer_msg.mpar_no_panic parse_write_mode_no_panic error_msg.mpar_no_panic
  data_msg.mpar_no_panic data_disposed_msg.mpar_no_panic data_no_writers_msg.mpar_no_panic

lemma long_error_refused:
  assumes "MAX_STRING_LENGTH < length (err_message e)" and "length (err_message e) < 2 ^ 32"
  shows "parse_error B (serialize_error B e) = Err (StringTooLong (length (err_message e)) MAX_STRING_LENGTH)"
  using assms by (simp add: parse_error_def error_msg.mser_enc enc_error_def enc_string_def read_string_def Let_def)

lemma string_reads_valid:
  "read_string B bs = Ok (s, rest) \<longleftrightarrow> str_ok s \<and> length s \<le> MAX_STRING_LENGTH \<and> bs = write_string B s [] @ rest"
  by (simp add: string_codec.par_eq_Ok string_ok_def write_string_enc)

end

section \<open>Framing\<close>

text \<open>
  C32: a byte sequence parses as a header exactly if it begins with the serialization of that
  header; so the 12-byte header has one encoding, and parsing it never needs more than 12
  bytes.
\<close>

theorem header_exact: "parse_header bs = Ok h \<longleftrightarrow> (\<exists>rest. bs = serialize_header h @ rest)"
proof
  assume "parse_header bs = Ok h"
  then have "bs = serialize_header h @ drop HEADER_SIZE bs" by (simp add: serialize_parse_header)
  then show "\<exists>rest. bs = serialize_header h @ rest" ..
next
  assume "\<exists>rest. bs = serialize_header h @ rest"
  then show "parse_header bs = Ok h" using parse_serialize_header by auto
qed

section \<open>Payloads\<close>

text \<open>
  C33: the QoS parser accepts exactly the serializations of legal QoS sets (known policies,
  values in range, valid UTF-8 partition names, no policy twice) and returns the set and the
  rest of the input: nothing malformed is accepted and every set has one encoding.
\<close>

theorem parse_qos_exact:
  assumes "bytes_laws B"
  shows "parse_qos B bs = Ok (q, rest) \<longleftrightarrow> qos_ok q \<and> bs = serialize_qos B q [] @ rest"
  using assms by (rule bytes_laws.qos_exact)

theorem parse_qos_exact_witness:
  "parse_qos documented_bytes (serialize_qos documented_bytes \<lparr>policies = [Durability 1, Deadline 500]\<rparr> [] @ [9]) =
   Ok (\<lparr>policies = [Durability 1, Deadline 500]\<rparr>, [9])"
  by (subst parse_qos_exact [OF doc_bytes.bytes_laws_axioms]) (simp add: qos_ok_def)



text \<open>C35: no parser panics, whatever bytes a peer sends.\<close>

theorem parsers_never_panic:
  assumes "bytes_laws B"
  shows "parse_header bs \<noteq> Panic \<and> parse_subscribe B bs \<noteq> Panic \<and> parse_unsubscribe B bs \<noteq> Panic \<and>
    parse_create_writer B bs \<noteq> Panic \<and> parse_delete_writer bs \<noteq> Panic \<and> parse_write_mode B bs \<noteq> Panic \<and>
    parse_error B bs \<noteq> Panic \<and> parse_data B bs \<noteq> Panic \<and> parse_data_disposed B bs \<noteq> Panic \<and>
    parse_data_no_writers B bs \<noteq> Panic"
  using bytes_laws.message_no_panic [OF assms] parse_header_no_panic by blast

theorem parsers_never_panic_witness: "parse_subscribe documented_bytes [255, 255, 255, 255] \<noteq> Panic"
  using parsers_never_panic [OF doc_bytes.bytes_laws_axioms, of "[255, 255, 255, 255]"] by blast

text \<open>
  C36: a string is read exactly if it is valid UTF-8, at most 1 MiB long and preceded by its
  length; so every name that reaches the bridge is a valid string of bounded length.
\<close>

theorem read_string_exact:
  assumes "bytes_laws B"
  shows "read_string B bs = Ok (s, rest) \<longleftrightarrow>
    str_ok s \<and> length s \<le> MAX_STRING_LENGTH \<and> bs = write_string B s [] @ rest"
  using assms by (rule bytes_laws.string_reads_valid)

theorem read_string_exact_witness:
  "read_string documented_bytes (write_string documented_bytes ''ab'' [] @ [7]) = Ok (''ab'', [7])"
  using string_ok_ascii [of "''ab''"]
  by (subst read_string_exact [OF doc_bytes.bytes_laws_axioms]) (simp add: string_ok_def)

end
