(* ===== verification/Effects.thy ===== *)
theory Effects
  imports Prelude
begin

text \<open>
  Operations on a shared state that may fail: a function from the state to a result and the
  new state. \<open>bind_st\<close> is sequencing with the \<open>?\<close> operator, which leaves the function with the
  state as it is at that point. \<open>triple P m Q\<close> says that \<open>m\<close>, started in a state where \<open>P\<close>
  holds, ends with a result and a state that satisfy \<open>Q\<close>; there is one rule per combinator.
\<close>

type_synonym ('s, 'e, 'a) action = "'s \<Rightarrow> ('e, 'a) result \<times> 's"

definition return_st :: "'a \<Rightarrow> ('s, 'e, 'a) action" where
  "return_st a s = (Ok a, s)"

definition lift_st :: "('e, 'a) result \<Rightarrow> ('s, 'e, 'a) action" where
  "lift_st r s = (r, s)"

definition bind_st :: "('s, 'e, 'a) action \<Rightarrow> ('a \<Rightarrow> ('s, 'e, 'b) action) \<Rightarrow> ('s, 'e, 'b) action" where
  "bind_st m f s =
     (case m s of (Ok a, s) \<Rightarrow> f a s | (Err e, s) \<Rightarrow> (Err e, s) | (Panic, s) \<Rightarrow> (Panic, s))"

definition map_err_st :: "('e \<Rightarrow> 'f) \<Rightarrow> ('s, 'e, 'a) action \<Rightarrow> ('s, 'f, 'a) action" where
  "map_err_st g m s = (case m s of (r, s) \<Rightarrow> (map_err g r, s))"

lemma bind_st_return [simp]: "bind_st (return_st a) f = f a"
  by (simp add: fun_eq_iff bind_st_def return_st_def)

lemma bind_st_assoc: "bind_st (bind_st m f) g = bind_st m (\<lambda>a. bind_st (f a) g)"
  by (simp add: fun_eq_iff bind_st_def split: prod.split result.split)

lemma bind_st_lift: "bind_st (lift_st r) f s = (case r of Ok a \<Rightarrow> f a s | Err e \<Rightarrow> (Err e, s) | Panic \<Rightarrow> (Panic, s))"
  by (cases r) (simp_all add: bind_st_def lift_st_def)

text \<open>The three outcomes of a sequence.\<close>

lemma bind_st_cases:
  assumes "bind_st m f s = (r, s')"
  obtains (ok) a t where "m s = (Ok a, t)" "f a t = (r, s')"
  | (err) e where "m s = (Err e, s')" "r = Err e"
  | (panic) "m s = (Panic, s')" "r = Panic"
  using assms by (auto simp: bind_st_def split: prod.splits result.splits)

section \<open>Triples\<close>

definition triple :: "('s \<Rightarrow> bool) \<Rightarrow> ('s, 'e, 'a) action \<Rightarrow> (('e, 'a) result \<Rightarrow> 's \<Rightarrow> bool) \<Rightarrow> bool" where
  "triple P m Q \<longleftrightarrow> (\<forall>s. P s \<longrightarrow> Q (fst (m s)) (snd (m s)))"

lemma tripleI: "(\<And>s r s'. P s \<Longrightarrow> m s = (r, s') \<Longrightarrow> Q r s') \<Longrightarrow> triple P m Q"
  unfolding triple_def by (metis prod.collapse)

lemma tripleD: "triple P m Q \<Longrightarrow> m s = (r, s') \<Longrightarrow> P s \<Longrightarrow> Q r s'"
  unfolding triple_def by (metis fst_conv snd_conv)

lemma triple_return: "(\<And>s. P s \<Longrightarrow> Q (Ok a) s) \<Longrightarrow> triple P (return_st a) Q"
  by (simp add: triple_def return_st_def)

lemma triple_lift: "(\<And>s. P s \<Longrightarrow> Q r s) \<Longrightarrow> triple P (lift_st r) Q"
  by (simp add: triple_def lift_st_def)

lemma triple_map_err: "triple P m (\<lambda>r. Q (map_err g r)) \<Longrightarrow> triple P (map_err_st g m) Q"
  by (simp add: triple_def map_err_st_def split_beta)

lemma triple_weaken:
  "triple P m Q \<Longrightarrow> (\<And>s. P' s \<Longrightarrow> P s) \<Longrightarrow> (\<And>r s. Q r s \<Longrightarrow> Q' r s) \<Longrightarrow> triple P' m Q'"
  by (simp add: triple_def)

lemma triple_conj: "triple P m Q \<Longrightarrow> triple P m Q' \<Longrightarrow> triple P m (\<lambda>r s. Q r s \<and> Q' r s)"
  by (simp add: triple_def)

text \<open>An early return has to establish the postcondition at once.\<close>

lemma triple_bind:
  assumes m: "triple P m R" and f: "\<And>a. triple (R (Ok a)) (f a) Q"
    and err: "\<And>e s. R (Err e) s \<Longrightarrow> Q (Err e) s" and panic: "\<And>s. R Panic s \<Longrightarrow> Q Panic s"
  shows "triple P (bind_st m f) Q"
proof (rule tripleI)
  fix s r s' assume P: "P s" and "bind_st m f s = (r, s')"
  from this(2) show "Q r s'"
  proof (cases rule: bind_st_cases)
    case (ok a t)
    with P m have "R (Ok a) t" by (blast dest: tripleD)
    with ok f show ?thesis by (blast dest: tripleD)
  qed (use P m err panic in \<open>blast dest: tripleD\<close>)+
qed

text \<open>An operation that looks at the state before it decides what to do.\<close>

lemma triple_state: "(\<And>x. P x \<Longrightarrow> triple (\<lambda>s. s = x) (f x) Q) \<Longrightarrow> triple P (\<lambda>s. f s s) Q"
  by (simp add: triple_def)

end
