(* ===== verification/Participant.thy ===== *)
theory Participant
  imports Dds_Api
begin

text \<open>
  \<open>src/dds/participant.rs\<close>: the DomainParticipant and its cache of topics, one per
  (topic name, type name).
\<close>

record Topic =
  tp_handle :: dds_entity_t
  tp_topic_name :: string
  tp_type_name :: string
  tp_is_keyed :: bool
  tp_key_descriptors :: KeyDescriptors

record DdsParticipant =
  pt_handle :: dds_entity_t
  pt_topics :: "string \<times> string \<rightharpoonup> Topic"

definition participant_new ::
  "'w environment \<Rightarrow> u32 option \<Rightarrow> 'w \<Rightarrow> (DdsError, DdsParticipant) result \<times> 'w" where
  "participant_new E domain_id w =
     (let did = (case domain_id of None \<Rightarrow> DDS_DOMAIN_DEFAULT | Some d \<Rightarrow> d) in
      case dds_create_participant E did w of (dp, w) \<Rightarrow>
      if sint dp < 0 then (Err (CreateParticipant dp), w)
      else (Ok \<lparr>pt_handle = dp, pt_topics = Map.empty\<rparr>, w))"

definition get_or_create_topic ::
  "'w environment \<Rightarrow> string \<Rightarrow> string \<Rightarrow> bool \<Rightarrow> KeyDescriptors \<Rightarrow> DdsParticipant \<Rightarrow> 'w \<Rightarrow>
   (DdsError, Topic) result \<times> DdsParticipant \<times> 'w" where
  "get_or_create_topic E topic_name type_name is_keyed key_descriptors p w =
     (let key = (topic_name, type_name) in
      case pt_topics p key of
        Some topic \<Rightarrow> (Ok topic, p, w)
      | None \<Rightarrow>
        (case cstring_new topic_name of
           None \<Rightarrow> (Err (InvalidName topic_name), p, w)
         | Some c_topic_name \<Rightarrow>
           (case create_opaque_sertype type_name is_keyed key_descriptors of
              Panic \<Rightarrow> (Panic, p, w)
            | Err e \<Rightarrow> (Err e, p, w)
            | Ok sertype \<Rightarrow>
              (case dds_create_topic_sertype E (pt_handle p) c_topic_name sertype w of (handle, w) \<Rightarrow>
               if sint handle < 0 then (Err (CreateTopic handle), p, w) else
               let topic = \<lparr>tp_handle = handle, tp_topic_name = topic_name, tp_type_name = type_name,
                            tp_is_keyed = is_keyed, tp_key_descriptors = key_descriptors\<rparr>
               in (Ok topic, p\<lparr>pt_topics := (pt_topics p)(key \<mapsto> topic)\<rparr>, w)))))"

text \<open>\<open>impl Drop for DdsParticipant\<close>: Cyclone deletes the topics, writers and readers below it.\<close>

definition drop_participant :: "'w environment \<Rightarrow> DdsParticipant \<Rightarrow> 'w \<Rightarrow> 'w" where
  "drop_participant E p w = dds_delete E (pt_handle p) w"

section \<open>Cache invariant\<close>

definition participant_ok :: "DdsParticipant \<Rightarrow> bool" where
  "participant_ok p \<longleftrightarrow> (\<forall>n ty t. pt_topics p (n, ty) = Some t \<longrightarrow>
     tp_topic_name t = n \<and> tp_type_name t = ty \<and> 0 \<le> sint (tp_handle t))"

lemma participant_new_ok: "participant_new E d w = (Ok p, w') \<Longrightarrow> participant_ok p"
  by (auto simp: participant_new_def participant_ok_def Let_def split: prod.splits if_splits)

lemma get_or_create_topic_ok:
  assumes "participant_ok p" and "get_or_create_topic E n ty k kd p w = (r, p', w')"
  shows "participant_ok p'" and "pt_handle p' = pt_handle p"
    and "pt_topics p \<subseteq>\<^sub>m pt_topics p'"
    and "r = Ok t \<Longrightarrow> tp_topic_name t = n \<and> tp_type_name t = ty \<and> pt_topics p' (n, ty) = Some t"
  using assms
  by (auto simp: get_or_create_topic_def participant_ok_def map_le_def Let_def
      split: option.splits result.splits prod.splits if_splits)

lemma get_or_create_topic_cached:
  "pt_topics p (n, ty) = Some t \<Longrightarrow> get_or_create_topic E n ty k kd p w = (Ok t, p, w)"
  by (simp add: get_or_create_topic_def)

lemma get_or_create_topic_Panic:
  "get_or_create_topic E n ty k kd p w = (Panic, p', w') \<longleftrightarrow>
   p' = p \<and> w' = w \<and> pt_topics p (n, ty) = None \<and> 0 \<notin> set (as_bytes n) \<and> 0 \<in> set (as_bytes ty)"
  by (auto simp: get_or_create_topic_def create_opaque_sertype_def cstring_new_def Let_def
      split: option.splits result.splits prod.splits if_splits)

end
