(* ===== verification/Session_Registry.thy ===== *)
theory Session_Registry
  imports Prelude
begin

text \<open>
  The contract of a registry of per-session resources, shared by the writer and the reader
  registry: removing a session keeps the registry's invariant, leaves that session with
  nothing and takes nothing from any other session.
\<close>

locale session_registry =
  fixes inv :: "'r \<Rightarrow> bool"
    and owns :: "'r \<Rightarrow> u64 \<Rightarrow> 'k set"
    and remove :: "u64 \<Rightarrow> 'r \<Rightarrow> 'w \<Rightarrow> 'r \<times> 'w"
  assumes remove_inv: "inv r \<Longrightarrow> inv (fst (remove s r w))"
    and remove_owns: "inv r \<Longrightarrow> owns (fst (remove s r w)) t = (if t = s then {} else owns r t)"
begin

text \<open>Disconnecting a sequence of sessions, as the server does one after the other.\<close>

primrec remove_all :: "u64 list \<Rightarrow> 'r \<Rightarrow> 'w \<Rightarrow> 'r \<times> 'w" where
  "remove_all [] r w = (r, w)"
| "remove_all (s # ss) r w = (case remove s r w of (r, w) \<Rightarrow> remove_all ss r w)"

lemma remove_all_inv: "inv r \<Longrightarrow> inv (fst (remove_all ss r w))"
proof (induction ss arbitrary: r w)
  case (Cons s ss)
  obtain r' w' where "remove s r w = (r', w')" by fastforce
  with Cons remove_inv [of r s w] show ?case by simp
qed simp

lemma remove_all_owns:
  "inv r \<Longrightarrow> owns (fst (remove_all ss r w)) t = (if t \<in> set ss then {} else owns r t)"
proof (induction ss arbitrary: r w)
  case (Cons s ss)
  obtain r' w' where rw: "remove s r w = (r', w')" by fastforce
  with Cons.prems have "inv r'" "owns r' t = (if t = s then {} else owns r t)"
    using remove_inv [of r s w] remove_owns [of r s w t] by simp_all
  with Cons.IH [of r' w'] rw show ?case by auto
qed simp

lemma remove_twice: "inv r \<Longrightarrow> owns (fst (remove s (fst (remove s r w)) w')) t = owns (fst (remove s r w)) t"
  by (simp add: remove_owns remove_inv)

end

end
