(* ===== verification/Writers.thy ===== *)
theory Writers
  imports Participant Session_Registry
begin

text \<open>
  \<open>src/dds/writer.rs\<close>: DDS writers and the registry that records which session owns each.
  \<open>HashMap\<close> is a partial map. A removed or overwritten entry is dropped, and the drop of a
  \<open>DdsWriter\<close> deletes its DDS entity, so the operations that remove entries thread the
  world. The global counter \<open>NEXT_WRITER_ID\<close> is passed and returned explicitly; it wraps.
\<close>

record DdsWriter =
  w_handle :: dds_entity_t
  w_writer_id :: u32
  w_topic :: Topic
  w_qos_normalized :: QosSet

definition dds_writer_new ::
  "'w environment \<Rightarrow> dds_entity_t \<Rightarrow> Topic \<Rightarrow> dds_qos option \<Rightarrow> QosSet \<Rightarrow> u32 \<Rightarrow> 'w \<Rightarrow>
   (DdsError, DdsWriter) result \<times> u32 \<times> 'w" where
  "dds_writer_new E participant_handle topic qos qos_normalized next_id w =
     (case dds_create_writer E participant_handle (tp_handle topic) qos w of (handle, w) \<Rightarrow>
      if sint handle < 0 then (Err (CreateWriter handle), next_id, w)
      else (Ok \<lparr>w_handle = handle, w_writer_id = next_id, w_topic = topic,
                w_qos_normalized = qos_normalized\<rparr>, next_id + 1, w))"

definition writer_write ::
  "'w environment \<Rightarrow> DdsWriter \<Rightarrow> bytes \<Rightarrow> bytes \<Rightarrow> 'w \<Rightarrow> (DdsError, unit) result \<times> 'w" where
  "writer_write E wr data key_bytes w =
     (case dds_write E (w_handle wr) (from_bytes data key_bytes) w of (rc, w) \<Rightarrow>
      if sint rc < 0 then (Err (Write rc), w) else (Ok (), w))"

definition writer_dispose ::
  "'w environment \<Rightarrow> DdsWriter \<Rightarrow> bytes \<Rightarrow> bytes \<Rightarrow> 'w \<Rightarrow> (DdsError, unit) result \<times> 'w" where
  "writer_dispose E wr key_data key_bytes w =
     (case dds_dispose E (w_handle wr) (from_bytes key_data key_bytes) w of (rc, w) \<Rightarrow>
      if sint rc < 0 then (Err (Dispose rc), w) else (Ok (), w))"

definition writer_write_dispose ::
  "'w environment \<Rightarrow> DdsWriter \<Rightarrow> bytes \<Rightarrow> bytes \<Rightarrow> 'w \<Rightarrow> (DdsError, unit) result \<times> 'w" where
  "writer_write_dispose E wr data key_bytes w =
     (case dds_writedispose E (w_handle wr) (from_bytes data key_bytes) w of (rc, w) \<Rightarrow>
      if sint rc < 0 then (Err (WriteDispose rc), w) else (Ok (), w))"

definition drop_writer :: "'w environment \<Rightarrow> DdsWriter \<Rightarrow> 'w \<Rightarrow> 'w" where
  "drop_writer E wr w = dds_delete E (w_handle wr) w"

section \<open>Registry\<close>

record WriterRegistry =
  wr_writers :: "u32 \<rightharpoonup> DdsWriter \<times> u64"
  wr_session_writers :: "u64 \<rightharpoonup> u32 list"

definition wr_new :: WriterRegistry where
  "wr_new = \<lparr>wr_writers = Map.empty, wr_session_writers = Map.empty\<rparr>"

text \<open>Dropping what \<open>HashMap::insert\<close> or \<open>HashMap::remove\<close> returns.\<close>

definition drop_entry :: "'w environment \<Rightarrow> (DdsWriter \<times> u64) option \<Rightarrow> 'w \<Rightarrow> 'w" where
  "drop_entry E e w = (case e of None \<Rightarrow> w | Some (wr, _) \<Rightarrow> drop_writer E wr w)"

definition wr_register ::
  "'w environment \<Rightarrow> DdsWriter \<Rightarrow> u64 \<Rightarrow> WriterRegistry \<Rightarrow> 'w \<Rightarrow> u32 \<times> WriterRegistry \<times> 'w" where
  "wr_register E writer session_id reg w =
     (let wid = w_writer_id writer;
          ids = (case wr_session_writers reg session_id of None \<Rightarrow> [] | Some ids \<Rightarrow> ids);
          old = wr_writers reg wid;
          reg = reg\<lparr>wr_session_writers := (wr_session_writers reg)(session_id \<mapsto> ids @ [wid]),
                    wr_writers := (wr_writers reg)(wid \<mapsto> (writer, session_id))\<rparr>
      in (wid, reg, drop_entry E old w))"

definition wr_find_by_id :: "u32 \<Rightarrow> WriterRegistry \<Rightarrow> DdsWriter option" where
  "wr_find_by_id writer_id reg = map_option fst (wr_writers reg writer_id)"

definition wr_get :: "u32 \<Rightarrow> u64 \<Rightarrow> WriterRegistry \<Rightarrow> (DdsError, DdsWriter) result" where
  "wr_get writer_id session_id reg =
     (case wr_writers reg writer_id of
        None \<Rightarrow> Err (WriterNotFound writer_id)
      | Some (writer, owner) \<Rightarrow>
          if owner \<noteq> session_id then Err (WriterOwnership writer_id) else Ok writer)"

definition wr_delete ::
  "'w environment \<Rightarrow> u32 \<Rightarrow> u64 \<Rightarrow> WriterRegistry \<Rightarrow> 'w \<Rightarrow>
   (DdsError, unit) result \<times> WriterRegistry \<times> 'w" where
  "wr_delete E writer_id session_id reg w =
     (case wr_writers reg writer_id of
        None \<Rightarrow> (Err (WriterNotFound writer_id), reg, w)
      | Some (writer, owner) \<Rightarrow>
          if owner \<noteq> session_id then (Err (WriterOwnership writer_id), reg, w) else
          let w = drop_entry E (Some (writer, owner)) w;
              reg = reg\<lparr>wr_writers := (wr_writers reg)(writer_id := None)\<rparr>;
              reg = (case wr_session_writers reg session_id of
                       None \<Rightarrow> reg
                     | Some ids \<Rightarrow> reg\<lparr>wr_session_writers :=
                         (wr_session_writers reg)(session_id \<mapsto> filter (\<lambda>id. id \<noteq> writer_id) ids)\<rparr>)
          in (Ok (), reg, w))"

text \<open>The loop of \<open>remove_session\<close>: remove and drop the writers with these ids.\<close>

fun wr_remove_ids ::
  "'w environment \<Rightarrow> u32 list \<Rightarrow> (u32 \<rightharpoonup> DdsWriter \<times> u64) \<Rightarrow> 'w \<Rightarrow> (u32 \<rightharpoonup> DdsWriter \<times> u64) \<times> 'w" where
  "wr_remove_ids E [] m w = (m, w)"
| "wr_remove_ids E (wid # ids) m w = wr_remove_ids E ids (m(wid := None)) (drop_entry E (m wid) w)"

definition wr_remove_session ::
  "'w environment \<Rightarrow> u64 \<Rightarrow> WriterRegistry \<Rightarrow> 'w \<Rightarrow> WriterRegistry \<times> 'w" where
  "wr_remove_session E session_id reg w =
     (case wr_session_writers reg session_id of
        None \<Rightarrow> (reg, w)
      | Some ids \<Rightarrow>
          (case wr_remove_ids E ids (wr_writers reg) w of (m, w) \<Rightarrow>
           (reg\<lparr>wr_session_writers := (wr_session_writers reg)(session_id := None), wr_writers := m\<rparr>, w)))"

definition wr_count :: "WriterRegistry \<Rightarrow> nat" where
  "wr_count reg = card (dom (wr_writers reg))"

fun wr_search :: "(u32 \<rightharpoonup> DdsWriter \<times> u64) \<Rightarrow> string \<Rightarrow> string \<Rightarrow> QosSet \<Rightarrow> u32 list \<Rightarrow> DdsWriter option" where
  "wr_search m topic_name type_name qos [] = None"
| "wr_search m topic_name type_name qos (wid # ids) =
     (case m wid of
        None \<Rightarrow> wr_search m topic_name type_name qos ids
      | Some (writer, _) \<Rightarrow>
          if tp_topic_name (w_topic writer) = topic_name \<and> tp_type_name (w_topic writer) = type_name
             \<and> normalized_eq (w_qos_normalized writer) qos
          then Some writer
          else wr_search m topic_name type_name qos ids)"

definition wr_find_by_topic ::
  "u64 \<Rightarrow> string \<Rightarrow> string \<Rightarrow> QosSet \<Rightarrow> WriterRegistry \<Rightarrow> DdsWriter option" where
  "wr_find_by_topic session_id topic_name type_name qos reg =
     (case wr_session_writers reg session_id of
        None \<Rightarrow> None
      | Some ids \<Rightarrow> wr_search (wr_writers reg) topic_name type_name qos ids)"

section \<open>Invariant\<close>

definition wr_ids :: "WriterRegistry \<Rightarrow> u64 \<Rightarrow> u32 list" where
  "wr_ids reg sid = (case wr_session_writers reg sid of None \<Rightarrow> [] | Some ids \<Rightarrow> ids)"

definition wr_owned :: "WriterRegistry \<Rightarrow> u64 \<Rightarrow> u32 set" where
  "wr_owned reg sid = {wid. \<exists>wr. wr_writers reg wid = Some (wr, sid)}"

text \<open>
  The two maps agree: a session's list holds exactly the ids of the writers it owns, once
  each, and every writer is filed under its own id.
\<close>

definition wr_ok :: "WriterRegistry \<Rightarrow> bool" where
  "wr_ok reg \<longleftrightarrow> finite (dom (wr_writers reg)) \<and>
     (\<forall>wid wr sid. wr_writers reg wid = Some (wr, sid) \<longrightarrow> w_writer_id wr = wid) \<and>
     (\<forall>sid. distinct (wr_ids reg sid) \<and> set (wr_ids reg sid) = wr_owned reg sid)"

lemma wr_okD:
  assumes "wr_ok reg"
  shows "finite (dom (wr_writers reg))"
    and "wr_writers reg wid = Some (wr, sid) \<Longrightarrow> w_writer_id wr = wid"
    and "distinct (wr_ids reg sid)" and "set (wr_ids reg sid) = wr_owned reg sid"
  using assms by (auto simp: wr_ok_def)

lemma wr_owned_disjoint: "sid \<noteq> sid' \<Longrightarrow> wr_owned reg sid \<inter> wr_owned reg sid' = {}"
  by (auto simp: wr_owned_def)

lemma wr_new_ok: "wr_ok wr_new"
  by (simp add: wr_ok_def wr_new_def wr_ids_def wr_owned_def)

lemma wr_register_simps:
  assumes "wr_register E wr sid reg w = (wid, reg', w')"
  shows "wid = w_writer_id wr"
    and "wr_writers reg' = (wr_writers reg)(w_writer_id wr \<mapsto> (wr, sid))"
    and "wr_ids reg' t = (if t = sid then wr_ids reg sid @ [w_writer_id wr] else wr_ids reg t)"
  using assms by (auto simp: wr_register_def wr_ids_def Let_def)

lemma wr_register_owned:
  assumes "wr_register E wr sid reg w = (wid, reg', w')" and "wr_writers reg (w_writer_id wr) = None"
  shows "wr_owned reg' t = (if t = sid then insert wid (wr_owned reg sid) else wr_owned reg t)"
  using assms(2) wr_register_simps [OF assms(1)] by (auto simp: wr_owned_def)

lemma wr_register_ok:
  assumes "wr_ok reg" and "wr_register E wr sid reg w = (wid, reg', w')"
    and fresh: "wr_writers reg (w_writer_id wr) = None"
  shows "wr_ok reg'"
proof -
  note s = wr_register_simps [OF assms(2)] and o = wr_register_owned [OF assms(2) fresh]
  have "w_writer_id wr \<notin> wr_owned reg sid" using fresh by (simp add: wr_owned_def)
  then have "distinct (wr_ids reg' t) \<and> set (wr_ids reg' t) = wr_owned reg' t" for t
    using wr_okD [OF assms(1)] by (simp add: s o)
  moreover have "finite (dom (wr_writers reg'))" using wr_okD(1) [OF assms(1)] by (simp add: s)
  moreover have "wr_writers reg' x = Some (v, t) \<Longrightarrow> w_writer_id v = x" for x v t
    using wr_okD(2) [OF assms(1)] by (auto simp: s split: if_splits)
  ultimately show ?thesis by (auto simp: wr_ok_def)
qed

lemma wr_register_fresh_world:
  "wr_writers reg (w_writer_id wr) = None \<Longrightarrow> snd (snd (wr_register E wr sid reg w)) = w"
  by (simp add: wr_register_def drop_entry_def Let_def)

lemma wr_get_eq_Ok: "wr_get wid sid reg = Ok wr \<longleftrightarrow> wr_writers reg wid = Some (wr, sid)"
  by (auto simp: wr_get_def split: option.splits)

lemma wr_get_not_Panic [simp]: "wr_get wid sid reg \<noteq> Panic"
  by (auto simp: wr_get_def split: option.splits)

text \<open>What \<open>delete\<close> does, on its three branches.\<close>

lemma wr_delete_cases:
  "wr_delete E wid sid reg w =
     (case wr_writers reg wid of
        None \<Rightarrow> (Err (WriterNotFound wid), reg, w)
      | Some (wr, owner) \<Rightarrow>
          if owner \<noteq> sid then (Err (WriterOwnership wid), reg, w)
          else (Ok (), reg\<lparr>wr_writers := (wr_writers reg)(wid := None),
                  wr_session_writers := (wr_session_writers reg)
                    (sid := map_option (filter (\<lambda>id. id \<noteq> wid)) (wr_session_writers reg sid))\<rparr>,
                drop_writer E wr w))"
  by (auto simp: wr_delete_def drop_entry_def Let_def fun_upd_idem split: option.splits)

lemma wr_delete_Ok_iff:
  "fst (wr_delete E wid sid reg w) = Ok () \<longleftrightarrow> wid \<in> wr_owned reg sid"
  by (auto simp: wr_delete_cases wr_owned_def split: option.splits)

lemma wr_delete_owned:
  "wr_delete E wid sid reg w = (r, reg', w') \<Longrightarrow>
   wr_owned reg' t = (if t = sid then wr_owned reg sid - {wid} else wr_owned reg t)"
  by (auto simp: wr_delete_cases wr_owned_def split: option.splits if_splits)

lemma wr_delete_ok:
  assumes "wr_ok reg" and "wr_delete E wid sid reg w = (r, reg', w')"
  shows "wr_ok reg'"
proof (cases "wid \<in> wr_owned reg sid")
  case False
  then have "reg' = reg"
    using assms(2) by (auto simp: wr_delete_cases wr_owned_def split: option.splits if_splits)
  with assms(1) show ?thesis by simp
next
  case True
  with assms(2) have m: "wr_writers reg' = (wr_writers reg)(wid := None)"
    and i: "wr_ids reg' t = (if t = sid then filter (\<lambda>id. id \<noteq> wid) (wr_ids reg sid) else wr_ids reg t)" for t
    by (auto simp: wr_delete_cases wr_owned_def wr_ids_def split: option.splits if_splits)
  have "distinct (wr_ids reg' t) \<and> set (wr_ids reg' t) = wr_owned reg' t" for t
    using wr_okD [OF assms(1)] by (auto simp: i wr_delete_owned [OF assms(2)])
  moreover have "wr_writers reg' x = Some (v, t) \<Longrightarrow> w_writer_id v = x" for x v t
    using wr_okD(2) [OF assms(1)] by (auto simp: m split: if_splits)
  ultimately show ?thesis using wr_okD(1) [OF assms(1)] by (auto simp: wr_ok_def m)
qed

lemma wr_remove_ids_map: "fst (wr_remove_ids E ids m w) = m |` (- set ids)"
  by (induction ids arbitrary: m w) (auto simp: restrict_map_def fun_eq_iff)

lemma wr_remove_ids_world:
  "distinct ids \<Longrightarrow> snd (wr_remove_ids E ids m w) = fold (\<lambda>wid. drop_entry E (m wid)) ids w"
proof (induction ids arbitrary: m w)
  case (Cons wid ids)
  then have "fold (\<lambda>x. drop_entry E ((m(wid := None)) x)) ids v = fold (\<lambda>x. drop_entry E (m x)) ids v" for v
    by (intro fold_cong) auto
  with Cons show ?case by simp
qed simp

lemma wr_remove_session_simps:
  assumes "wr_ok reg"
  shows "wr_writers (fst (wr_remove_session E sid reg w)) = wr_writers reg |` (- wr_owned reg sid)"
    and "wr_ids (fst (wr_remove_session E sid reg w)) t = (if t = sid then [] else wr_ids reg t)"
    and "snd (wr_remove_session E sid reg w) =
      fold (\<lambda>wid. drop_entry E (wr_writers reg wid)) (wr_ids reg sid) w"
proof -
  have set: "set (wr_ids reg sid) = wr_owned reg sid" and dist: "distinct (wr_ids reg sid)"
    using wr_okD [OF assms] by simp_all
  show "wr_writers (fst (wr_remove_session E sid reg w)) = wr_writers reg |` (- wr_owned reg sid)"
    using set wr_remove_ids_map [of E "wr_ids reg sid" "wr_writers reg" w]
    by (auto simp: wr_remove_session_def wr_ids_def restrict_map_def fun_eq_iff split: option.splits prod.splits)
  show "wr_ids (fst (wr_remove_session E sid reg w)) t = (if t = sid then [] else wr_ids reg t)"
    by (auto simp: wr_remove_session_def wr_ids_def split: option.splits prod.splits)
  show "snd (wr_remove_session E sid reg w) =
      fold (\<lambda>wid. drop_entry E (wr_writers reg wid)) (wr_ids reg sid) w"
    using dist wr_remove_ids_world [of "wr_ids reg sid" E "wr_writers reg" w]
    by (auto simp: wr_remove_session_def wr_ids_def split: option.splits prod.splits)
qed

lemma wr_remove_session_owned:
  "wr_ok reg \<Longrightarrow> wr_owned (fst (wr_remove_session E sid reg w)) t = (if t = sid then {} else wr_owned reg t)"
  by (auto simp: wr_owned_def wr_remove_session_simps restrict_map_def)

lemma wr_remove_session_ok:
  assumes "wr_ok reg"
  shows "wr_ok (fst (wr_remove_session E sid reg w))"
  using wr_okD [OF assms]
  by (auto simp: wr_ok_def wr_remove_session_simps [OF assms] wr_remove_session_owned [OF assms]
      restrict_map_def intro: finite_subset split: if_splits)

interpretation writers: session_registry wr_ok wr_owned "wr_remove_session E" for E :: "'w environment"
  by unfold_locales (simp_all add: wr_remove_session_ok wr_remove_session_owned)

section \<open>Lookup by topic\<close>

definition writer_matches :: "string \<Rightarrow> string \<Rightarrow> QosSet \<Rightarrow> DdsWriter \<Rightarrow> bool" where
  "writer_matches n ty q wr \<longleftrightarrow> tp_topic_name (w_topic wr) = n \<and> tp_type_name (w_topic wr) = ty
     \<and> normalized_eq (w_qos_normalized wr) q"

lemma wr_search_Some:
  "wr_search m n ty q ids = Some wr \<Longrightarrow> \<exists>wid \<in> set ids. \<exists>o'. m wid = Some (wr, o') \<and> writer_matches n ty q wr"
  by (induction ids) (auto simp: writer_matches_def split: option.splits if_splits)

lemma wr_search_None:
  "wr_search m n ty q ids = None \<longleftrightarrow> (\<forall>wid \<in> set ids. \<forall>wr o'. m wid = Some (wr, o') \<longrightarrow> \<not> writer_matches n ty q wr)"
  by (induction ids) (auto simp: writer_matches_def split: option.splits)

lemma wr_find_by_topic_ids: "wr_find_by_topic sid n ty q reg = wr_search (wr_writers reg) n ty q (wr_ids reg sid)"
  by (simp add: wr_find_by_topic_def wr_ids_def split: option.splits)

lemma wr_find_by_topic_Some:
  assumes "wr_ok reg" and "wr_find_by_topic sid n ty q reg = Some wr"
  shows "wr_writers reg (w_writer_id wr) = Some (wr, sid) \<and> writer_matches n ty q wr"
proof -
  from assms obtain wid o' where wid: "wid \<in> wr_owned reg sid" "wr_writers reg wid = Some (wr, o')"
    and "writer_matches n ty q wr"
    using wr_search_Some wr_okD(4) [OF assms(1)] by (fastforce simp: wr_find_by_topic_ids)
  moreover from wid have "o' = sid" by (simp add: wr_owned_def)
  moreover from wid have "w_writer_id wr = wid" using wr_okD(2) [OF assms(1)] by blast
  ultimately show ?thesis by simp
qed

lemma wr_find_by_topic_None:
  assumes "wr_ok reg"
  shows "wr_find_by_topic sid n ty q reg = None \<longleftrightarrow>
    (\<forall>wid wr. wr_writers reg wid = Some (wr, sid) \<longrightarrow> \<not> writer_matches n ty q wr)"
  using wr_okD(4) [OF assms] by (auto simp: wr_find_by_topic_ids wr_search_None wr_owned_def)

lemma wr_find_after_register:
  assumes "wr_ok reg" and "wr_register E wr sid reg w = (wid, reg', w')"
    and "wr_writers reg (w_writer_id wr) = None" and "writer_matches n ty q wr"
  shows "\<exists>wr'. wr_find_by_topic sid n ty q reg' = Some wr'"
proof (rule ccontr)
  assume "\<not> ?thesis"
  then have "wr_find_by_topic sid n ty q reg' = None" by simp
  moreover have "wr_writers reg' (w_writer_id wr) = Some (wr, sid)"
    by (simp add: wr_register_simps(2) [OF assms(2)])
  ultimately show False
    using assms(4) wr_find_by_topic_None [OF wr_register_ok [OF assms(1-3)]] by blast
qed

end
