(* ===== verification/Readers.thy ===== *)
theory Readers
  imports Participant Session_Registry
begin

text \<open>
  \<open>src/dds/reader.rs\<close>: DDS readers, taking samples from them, and the registry that shares
  one reader between all sessions that subscribe with the same key (topic name, type name,
  serialized normalized QoS). Hash maps and sets are partial maps and sets; where the code
  iterates over one, the order comes from the environment. Dropping a \<open>DdsReader\<close> deletes
  its DDS entity.
\<close>

section \<open>Samples\<close>

datatype InstanceState = Alive | Disposed | NoWriters

record ReceivedSample =
  rs_topic_name :: string
  rs_instance_state :: InstanceState
  rs_source_timestamp :: i64
  rs_data :: bytes

definition DDS_IST_ALIVE :: u32 where "DDS_IST_ALIVE = 1"
definition DDS_IST_NOT_ALIVE_DISPOSED :: u32 where "DDS_IST_NOT_ALIVE_DISPOSED = 2"
definition DDS_IST_NOT_ALIVE_NO_WRITERS :: u32 where "DDS_IST_NOT_ALIVE_NO_WRITERS = 4"

definition instance_state_of :: "u32 \<Rightarrow> InstanceState" where
  "instance_state_of s =
     (if s = DDS_IST_ALIVE then Alive
      else if s = DDS_IST_NOT_ALIVE_DISPOSED then Disposed
      else if s = DDS_IST_NOT_ALIVE_NO_WRITERS then NoWriters
      else Alive)"

record DdsReader =
  r_reader_id :: u64
  r_handle :: dds_entity_t
  r_topic :: Topic
  r_qos_normalized :: QosSet
  r_subscribers :: "u64 set"

definition dds_reader_new ::
  "'w environment \<Rightarrow> dds_entity_t \<Rightarrow> Topic \<Rightarrow> dds_qos option \<Rightarrow> QosSet \<Rightarrow> u64 \<Rightarrow> 'w \<Rightarrow>
   (DdsError, DdsReader) result \<times> u64 \<times> 'w" where
  "dds_reader_new E participant_handle topic qos qos_normalized next_id w =
     (case dds_create_reader E participant_handle (tp_handle topic) qos w of (handle, w) \<Rightarrow>
      if sint handle < 0 then (Err (CreateReader handle), next_id, w)
      else (Ok \<lparr>r_reader_id = next_id, r_handle = handle, r_topic = topic,
                r_qos_normalized = qos_normalized, r_subscribers = {}\<rparr>, next_id + 1, w))"

definition ref_count :: "DdsReader \<Rightarrow> nat" where
  "ref_count r = card (r_subscribers r)"

text \<open>
  The bytes of a taken sample: a null pointer or a zero length gives the empty vector. The loop
  frees the sample's buffers after each turn; here a sample is the value of what it points to, and
  the memory side (\<open>free_sample_data\<close> on what \<open>sd_to_sample\<close> filled) is in theory \<open>Serdata\<close>.
\<close>

definition sample_data :: "SampleWrapper \<Rightarrow> bytes" where
  "sample_data sample = (case sw_data sample of
      None \<Rightarrow> [] | Some d \<Rightarrow> if sw_len sample > 0 then take (sw_len sample) d else [])"

fun take_loop ::
  "'w environment \<Rightarrow> DdsReader \<Rightarrow> nat \<Rightarrow> ReceivedSample list \<Rightarrow> 'w \<Rightarrow> ReceivedSample list \<times> 'w" where
  "take_loop E r 0 results w = (results, w)"
| "take_loop E r (Suc k) results w =
     (case dds_take E (r_handle r) w of ((n, sample, info), w) \<Rightarrow>
      if sint n \<le> 0 then (results, w) else
      let instance_state = instance_state_of (si_instance_state info);
          should_forward = si_valid_data info \<or> instance_state \<noteq> Alive;
          results = (if should_forward
            then results @ [\<lparr>rs_topic_name = tp_topic_name (r_topic r), rs_instance_state = instance_state,
                             rs_source_timestamp = si_source_timestamp info, rs_data = sample_data sample\<rparr>]
            else results)
      in take_loop E r k results w)"

definition take_samples ::
  "'w environment \<Rightarrow> nat \<Rightarrow> DdsReader \<Rightarrow> 'w \<Rightarrow> (DdsError, ReceivedSample list) result \<times> 'w" where
  "take_samples E max_samples r w =
     (case take_loop E r max_samples [] w of (results, w) \<Rightarrow> (Ok results, w))"

definition drop_reader :: "'w environment \<Rightarrow> DdsReader \<Rightarrow> 'w \<Rightarrow> 'w" where
  "drop_reader E r w = dds_delete E (r_handle r) w"

section \<open>Registry\<close>

record ReaderKey =
  rk_topic_name :: string
  rk_type_name :: string
  rk_qos_bytes :: bytes

definition reader_key_new :: "bytes_crate \<Rightarrow> string \<Rightarrow> string \<Rightarrow> QosSet \<Rightarrow> ReaderKey" where
  "reader_key_new B topic_name type_name qos =
     (let normalized = normalize qos;
          buf = serialize_qos B normalized (bytes_mut_new B)
      in \<lparr>rk_topic_name = topic_name, rk_type_name = type_name, rk_qos_bytes = buf\<rparr>)"

record ReaderRegistry =
  rr_readers :: "u64 \<rightharpoonup> DdsReader"
  rr_key_to_reader :: "ReaderKey \<rightharpoonup> u64"
  rr_session_subscriptions :: "u64 \<times> string \<times> string \<rightharpoonup> u64"

definition rr_new :: ReaderRegistry where
  "rr_new = \<lparr>rr_readers = Map.empty, rr_key_to_reader = Map.empty, rr_session_subscriptions = Map.empty\<rparr>"

text \<open>The path of \<open>subscribe\<close> that creates a reader; inserting over an old entry drops it.\<close>

definition rr_subscribe_new ::
  "'w environment \<Rightarrow> dds_entity_t \<Rightarrow> Topic \<Rightarrow> dds_qos option \<Rightarrow> QosSet \<Rightarrow> u64 \<Rightarrow> ReaderKey \<Rightarrow>
   u64 \<Rightarrow> ReaderRegistry \<Rightarrow> 'w \<Rightarrow> (DdsError, u64) result \<times> u64 \<times> ReaderRegistry \<times> 'w" where
  "rr_subscribe_new E participant_handle topic qos qos_set session_id key next_id reg w =
     (case dds_reader_new E participant_handle topic qos (normalize qos_set) next_id w of
        (Err e, next_id, w) \<Rightarrow> (Err e, next_id, reg, w)
      | (Panic, next_id, w) \<Rightarrow> (Panic, next_id, reg, w)
      | (Ok reader, next_id, w) \<Rightarrow>
          let reader_id = r_reader_id reader;
              reader = reader\<lparr>r_subscribers := insert session_id (r_subscribers reader)\<rparr>;
              old = rr_readers reg reader_id;
              reg = reg\<lparr>rr_session_subscriptions := (rr_session_subscriptions reg)
                          ((session_id, tp_topic_name topic, tp_type_name topic) \<mapsto> reader_id),
                        rr_key_to_reader := (rr_key_to_reader reg)(key \<mapsto> reader_id),
                        rr_readers := (rr_readers reg)(reader_id \<mapsto> reader)\<rparr>
          in (Ok reader_id, next_id, reg, (case old of None \<Rightarrow> w | Some r \<Rightarrow> drop_reader E r w)))"

definition rr_subscribe ::
  "'w environment \<Rightarrow> bytes_crate \<Rightarrow> dds_entity_t \<Rightarrow> Topic \<Rightarrow> dds_qos option \<Rightarrow> QosSet \<Rightarrow> u64 \<Rightarrow>
   u64 \<Rightarrow> ReaderRegistry \<Rightarrow> 'w \<Rightarrow> (DdsError, u64) result \<times> u64 \<times> ReaderRegistry \<times> 'w" where
  "rr_subscribe E B participant_handle topic qos qos_set session_id next_id reg w =
     (let key = reader_key_new B (tp_topic_name topic) (tp_type_name topic) qos_set in
      case rr_key_to_reader reg key of
        Some reader_id \<Rightarrow>
          (case rr_readers reg reader_id of
             Some reader \<Rightarrow>
               let reader = reader\<lparr>r_subscribers := insert session_id (r_subscribers reader)\<rparr>;
                   reg = reg\<lparr>rr_readers := (rr_readers reg)(reader_id \<mapsto> reader),
                             rr_session_subscriptions := (rr_session_subscriptions reg)
                               ((session_id, tp_topic_name topic, tp_type_name topic) \<mapsto> reader_id)\<rparr>
               in (Ok reader_id, next_id, reg, w)
           | None \<Rightarrow> rr_subscribe_new E participant_handle topic qos qos_set session_id key next_id reg w)
      | None \<Rightarrow> rr_subscribe_new E participant_handle topic qos qos_set session_id key next_id reg w)"

definition rr_unsubscribe ::
  "'w environment \<Rightarrow> string \<Rightarrow> string \<Rightarrow> u64 \<Rightarrow> ReaderRegistry \<Rightarrow> 'w \<Rightarrow> bool \<times> ReaderRegistry \<times> 'w" where
  "rr_unsubscribe E topic_name type_name session_id reg w =
     (let sub_key = (session_id, topic_name, type_name) in
      case rr_session_subscriptions reg sub_key of
        None \<Rightarrow> (False, reg, w)
      | Some reader_id \<Rightarrow>
          let reg = reg\<lparr>rr_session_subscriptions := (rr_session_subscriptions reg)(sub_key := None)\<rparr> in
          (case rr_readers reg reader_id of
             None \<Rightarrow> (False, reg, w)
           | Some reader \<Rightarrow>
               let reader = reader\<lparr>r_subscribers := r_subscribers reader - {session_id}\<rparr>;
                   reg = reg\<lparr>rr_readers := (rr_readers reg)(reader_id \<mapsto> reader)\<rparr>;
                   should_remove = (r_subscribers reader = {})
               in if should_remove then
                    (True, reg\<lparr>rr_readers := (rr_readers reg)(reader_id := None),
                               rr_key_to_reader := map_retain (\<lambda>rid. rid \<noteq> reader_id) (rr_key_to_reader reg)\<rparr>,
                     drop_reader E reader w)
                  else (True, reg, w)))"

text \<open>The three loops of \<open>remove_session\<close>.\<close>

fun rr_take_subs ::
  "(u64 \<times> string \<times> string) list \<Rightarrow> (u64 \<times> string \<times> string \<rightharpoonup> u64) \<Rightarrow> u64 set \<Rightarrow>
   (u64 \<times> string \<times> string \<rightharpoonup> u64) \<times> u64 set" where
  "rr_take_subs [] subs affected = (subs, affected)"
| "rr_take_subs (key # keys) subs affected =
     (case subs key of
        None \<Rightarrow> rr_take_subs keys subs affected
      | Some reader_id \<Rightarrow> rr_take_subs keys (subs(key := None)) (insert reader_id affected))"

fun rr_leave_readers ::
  "u64 \<Rightarrow> u64 list \<Rightarrow> (u64 \<rightharpoonup> DdsReader) \<Rightarrow> u64 list \<Rightarrow> (u64 \<rightharpoonup> DdsReader) \<times> u64 list" where
  "rr_leave_readers session_id [] readers to_remove = (readers, to_remove)"
| "rr_leave_readers session_id (reader_id # ids) readers to_remove =
     (case readers reader_id of
        None \<Rightarrow> rr_leave_readers session_id ids readers to_remove
      | Some reader \<Rightarrow>
          let reader = reader\<lparr>r_subscribers := r_subscribers reader - {session_id}\<rparr>
          in rr_leave_readers session_id ids (readers(reader_id \<mapsto> reader))
               (if r_subscribers reader = {} then to_remove @ [reader_id] else to_remove))"

fun rr_drop_readers ::
  "'w environment \<Rightarrow> u64 list \<Rightarrow> (u64 \<rightharpoonup> DdsReader) \<Rightarrow> 'w \<Rightarrow> (u64 \<rightharpoonup> DdsReader) \<times> 'w" where
  "rr_drop_readers E [] readers w = (readers, w)"
| "rr_drop_readers E (reader_id # ids) readers w =
     rr_drop_readers E ids (readers(reader_id := None))
       (case readers reader_id of None \<Rightarrow> w | Some r \<Rightarrow> drop_reader E r w)"

definition rr_remove_session ::
  "'w environment \<Rightarrow> u64 \<Rightarrow> ReaderRegistry \<Rightarrow> 'w \<Rightarrow> ReaderRegistry \<times> 'w" where
  "rr_remove_session E session_id reg w =
     (let sub_keys = filter (\<lambda>(sid, _, _). sid = session_id) (iter_sub E w (dom (rr_session_subscriptions reg)))
      in case rr_take_subs sub_keys (rr_session_subscriptions reg) {} of (subs, affected_readers) \<Rightarrow>
      case rr_leave_readers session_id (iter_u64 E w affected_readers) (rr_readers reg) [] of (readers, to_remove) \<Rightarrow>
      case rr_drop_readers E to_remove readers w of (readers, w) \<Rightarrow>
      (reg\<lparr>rr_session_subscriptions := subs, rr_readers := readers,
           rr_key_to_reader := map_retain (\<lambda>rid. rid \<notin> set to_remove) (rr_key_to_reader reg)\<rparr>, w))"

definition rr_get :: "u64 \<Rightarrow> ReaderRegistry \<Rightarrow> DdsReader option" where
  "rr_get reader_id reg = rr_readers reg reader_id"

text \<open>The values of the reader map in the order the environment iterates over it.\<close>

definition rr_all_readers :: "'w environment \<Rightarrow> ReaderRegistry \<Rightarrow> 'w \<Rightarrow> DdsReader list" where
  "rr_all_readers E reg w = List.map_filter (rr_readers reg) (iter_u64 E w (dom (rr_readers reg)))"

definition rr_get_subscribers :: "u64 \<Rightarrow> ReaderRegistry \<Rightarrow> u64 set option" where
  "rr_get_subscribers reader_id reg = map_option r_subscribers (rr_readers reg reader_id)"

section \<open>Invariants\<close>

text \<open>The key a reader is filed under.\<close>

definition reader_key :: "bytes_crate \<Rightarrow> DdsReader \<Rightarrow> ReaderKey" where
  "reader_key B r = reader_key_new B (tp_topic_name (r_topic r)) (tp_type_name (r_topic r)) (r_qos_normalized r)"

text \<open>
  \<open>rr_ok\<close>: readers carry their id and have at least one subscriber; the key map and the
  reader map are inverse to each other; every recorded subscription names a reader of that
  topic and type which has the session among its subscribers.
\<close>

definition rr_ok :: "bytes_crate \<Rightarrow> ReaderRegistry \<Rightarrow> bool" where
  "rr_ok B reg \<longleftrightarrow>
     finite (dom (rr_readers reg)) \<and> finite (dom (rr_session_subscriptions reg)) \<and>
     (\<forall>rid r. rr_readers reg rid = Some r \<longrightarrow> r_reader_id r = rid \<and> finite (r_subscribers r) \<and>
        r_subscribers r \<noteq> {} \<and> rr_key_to_reader reg (reader_key B r) = Some rid) \<and>
     (\<forall>k rid. rr_key_to_reader reg k = Some rid \<longrightarrow>
        (\<exists>r. rr_readers reg rid = Some r \<and> reader_key B r = k)) \<and>
     (\<forall>sid n ty rid. rr_session_subscriptions reg (sid, n, ty) = Some rid \<longrightarrow>
        (\<exists>r. rr_readers reg rid = Some r \<and> sid \<in> r_subscribers r \<and>
             tp_topic_name (r_topic r) = n \<and> tp_type_name (r_topic r) = ty))"

text \<open>
  \<open>rr_tracked\<close>: conversely every subscriber of a reader has a recorded subscription that
  names this reader. This is what disconnecting and unsubscribing rely on.
\<close>

definition rr_tracked :: "ReaderRegistry \<Rightarrow> bool" where
  "rr_tracked reg \<longleftrightarrow> (\<forall>rid r sid. rr_readers reg rid = Some r \<and> sid \<in> r_subscribers r \<longrightarrow>
     rr_session_subscriptions reg (sid, tp_topic_name (r_topic r), tp_type_name (r_topic r)) = Some rid)"

definition rr_owned :: "ReaderRegistry \<Rightarrow> u64 \<Rightarrow> u64 set" where
  "rr_owned reg sid = {rid. \<exists>r. rr_readers reg rid = Some r \<and> sid \<in> r_subscribers r}"

lemma rr_okD:
  assumes "rr_ok B reg"
  shows "finite (dom (rr_readers reg))" and "finite (dom (rr_session_subscriptions reg))"
    and "rr_readers reg rid = Some r \<Longrightarrow> r_reader_id r = rid"
    and "rr_readers reg rid = Some r \<Longrightarrow> finite (r_subscribers r)"
    and "rr_readers reg rid = Some r \<Longrightarrow> r_subscribers r \<noteq> {}"
    and "rr_readers reg rid = Some r \<Longrightarrow> rr_key_to_reader reg (reader_key B r) = Some rid"
    and "rr_key_to_reader reg k = Some rid \<Longrightarrow> \<exists>r. rr_readers reg rid = Some r \<and> reader_key B r = k"
    and "rr_session_subscriptions reg (sid, n, ty) = Some rid \<Longrightarrow>
      \<exists>r. rr_readers reg rid = Some r \<and> sid \<in> r_subscribers r \<and>
        tp_topic_name (r_topic r) = n \<and> tp_type_name (r_topic r) = ty"
  using assms unfolding rr_ok_def by blast+

lemma rr_new_ok: "rr_ok B rr_new" and rr_new_tracked: "rr_tracked rr_new"
  by (simp_all add: rr_ok_def rr_tracked_def rr_new_def)

lemma reader_key_subscribers [simp]: "reader_key B (r\<lparr>r_subscribers := S\<rparr>) = reader_key B r"
  by (simp add: reader_key_def)

lemma reader_key_new_normalize [simp]: "reader_key_new B n ty (normalize q) = reader_key_new B n ty q"
  by (simp add: reader_key_new_def)

subsection \<open>Subscribe\<close>

text \<open>Joining an existing reader.\<close>

definition rr_join :: "u64 \<Rightarrow> u64 \<Rightarrow> DdsReader \<Rightarrow> ReaderRegistry \<Rightarrow> ReaderRegistry" where
  "rr_join sid rid r reg = reg\<lparr>rr_readers := (rr_readers reg)(rid \<mapsto> r\<lparr>r_subscribers := insert sid (r_subscribers r)\<rparr>),
     rr_session_subscriptions := (rr_session_subscriptions reg)
       ((sid, tp_topic_name (r_topic r), tp_type_name (r_topic r)) \<mapsto> rid)\<rparr>"

text \<open>Adding a reader with its first subscriber.\<close>

definition rr_add :: "bytes_crate \<Rightarrow> u64 \<Rightarrow> DdsReader \<Rightarrow> ReaderRegistry \<Rightarrow> ReaderRegistry" where
  "rr_add B sid r reg = reg\<lparr>rr_readers := (rr_readers reg)(r_reader_id r \<mapsto> r\<lparr>r_subscribers := {sid}\<rparr>),
     rr_key_to_reader := (rr_key_to_reader reg)(reader_key B r \<mapsto> r_reader_id r),
     rr_session_subscriptions := (rr_session_subscriptions reg)
       ((sid, tp_topic_name (r_topic r), tp_type_name (r_topic r)) \<mapsto> r_reader_id r)\<rparr>"

lemma rr_join_ok:
  assumes "rr_ok B reg" and "rr_readers reg rid = Some r"
  shows "rr_ok B (rr_join sid rid r reg)"
  using rr_okD [OF assms(1)] assms(2) unfolding rr_ok_def
  by (auto simp: rr_join_def split: if_splits) (metis option.inject)+

lemma rr_add_ok:
  assumes "rr_ok B reg" and "rr_readers reg (r_reader_id r) = None"
    and "rr_key_to_reader reg (reader_key B r) = None"
  shows "rr_ok B (rr_add B sid r reg)"
  using rr_okD [OF assms(1)] assms(2,3) unfolding rr_ok_def
  by (auto simp: rr_add_def split: if_splits) (metis option.distinct(1))+

lemma rr_trackedI:
  "(\<And>rid r sid. rr_readers reg rid = Some r \<Longrightarrow> sid \<in> r_subscribers r \<Longrightarrow>
     rr_session_subscriptions reg (sid, tp_topic_name (r_topic r), tp_type_name (r_topic r)) = Some rid)
   \<Longrightarrow> rr_tracked reg"
  by (simp add: rr_tracked_def)

lemma rr_trackedD:
  "rr_tracked reg \<Longrightarrow> rr_readers reg rid = Some r \<Longrightarrow> sid \<in> r_subscribers r \<Longrightarrow>
   rr_session_subscriptions reg (sid, tp_topic_name (r_topic r), tp_type_name (r_topic r)) = Some rid"
  by (simp add: rr_tracked_def)

lemma rr_join_tracked:
  assumes "rr_tracked reg" and "rr_readers reg rid = Some r"
    and old: "\<And>old. rr_session_subscriptions reg (sid, tp_topic_name (r_topic r), tp_type_name (r_topic r)) = Some old \<Longrightarrow> old = rid"
  shows "rr_tracked (rr_join sid rid r reg)"
proof (rule rr_trackedI)
  fix rid' r' sid'
  assume r': "rr_readers (rr_join sid rid r reg) rid' = Some r'" "sid' \<in> r_subscribers r'"
  let ?k = "(sid', tp_topic_name (r_topic r'), tp_type_name (r_topic r'))"
  show "rr_session_subscriptions (rr_join sid rid r reg) ?k = Some rid'"
  proof (cases "rid' = rid")
    case True
    with r' assms(1,2) show ?thesis by (auto simp: rr_join_def dest: rr_trackedD split: if_splits)
  next
    case False
    with r' have "rr_session_subscriptions reg ?k = Some rid'"
      using assms(1) by (auto simp: rr_join_def dest: rr_trackedD)
    moreover from this False old have "?k \<noteq> (sid, tp_topic_name (r_topic r), tp_type_name (r_topic r))" by metis
    ultimately show ?thesis by (auto simp: rr_join_def)
  qed
qed

lemma rr_add_tracked:
  assumes "rr_tracked reg"
    and "rr_session_subscriptions reg (sid, tp_topic_name (r_topic r), tp_type_name (r_topic r)) = None"
  shows "rr_tracked (rr_add B sid r reg)"
proof (rule rr_trackedI)
  fix rid' r' sid'
  assume r': "rr_readers (rr_add B sid r reg) rid' = Some r'" "sid' \<in> r_subscribers r'"
  let ?k = "(sid', tp_topic_name (r_topic r'), tp_type_name (r_topic r'))"
  show "rr_session_subscriptions (rr_add B sid r reg) ?k = Some rid'"
  proof (cases "rid' = r_reader_id r")
    case True
    with r' show ?thesis by (auto simp: rr_add_def)
  next
    case False
    with r' have "rr_session_subscriptions reg ?k = Some rid'"
      using assms(1) by (auto simp: rr_add_def dest: rr_trackedD)
    moreover from this assms(2) have "?k \<noteq> (sid, tp_topic_name (r_topic r), tp_type_name (r_topic r))" by auto
    ultimately show ?thesis by (auto simp: rr_add_def)
  qed
qed

text \<open>\<open>subscribe\<close> joins the reader filed under the key, or creates one, or fails without effect.\<close>

lemma rr_subscribe_cases [consumes 3, case_names joined created failed]:
  assumes "rr_ok B reg" and "rr_readers reg next_id = None"
    and "rr_subscribe E B ph topic qos q sid next_id reg w = (res, next_id', reg', w')"
  obtains
    (joined) rid r where "res = Ok rid" "next_id' = next_id" "w' = w" "rr_readers reg rid = Some r"
      "rr_key_to_reader reg (reader_key B r) = Some rid"
      "reader_key B r = reader_key_new B (tp_topic_name topic) (tp_type_name topic) q"
      "reg' = rr_join sid rid r reg"
  | (created) r h where "res = Ok next_id" "next_id' = next_id + 1" "r_reader_id r = next_id"
      "dds_create_reader E ph (tp_handle topic) qos w = (h, w')" "0 \<le> sint h"
      "r = \<lparr>r_reader_id = next_id, r_handle = h, r_topic = topic, r_qos_normalized = normalize q, r_subscribers = {}\<rparr>"
      "rr_key_to_reader reg (reader_key B r) = None"
      "reader_key B r = reader_key_new B (tp_topic_name topic) (tp_type_name topic) q"
      "reg' = rr_add B sid r reg"
  | (failed) h where "res = Err (CreateReader h)" "next_id' = next_id" "reg' = reg" "sint h < 0"
      "dds_create_reader E ph (tp_handle topic) qos w = (h, w')"
proof (cases "rr_key_to_reader reg (reader_key_new B (tp_topic_name topic) (tp_type_name topic) q)")
  case None
  obtain h v where h: "dds_create_reader E ph (tp_handle topic) qos w = (h, v)" by fastforce
  show ?thesis
  proof (cases "sint h < 0")
    case True
    with None h assms(3) show ?thesis
      by (intro failed) (auto simp: rr_subscribe_def rr_subscribe_new_def dds_reader_new_def Let_def)
  next
    case False
    with None h assms(2,3) show ?thesis
      by (intro created) (auto simp: rr_subscribe_def rr_subscribe_new_def dds_reader_new_def Let_def
          rr_add_def reader_key_def)
  qed
next
  case (Some rid)
  with rr_okD(7) [OF assms(1)] obtain r where r: "rr_readers reg rid = Some r"
    "reader_key B r = reader_key_new B (tp_topic_name topic) (tp_type_name topic) q"
    by blast
  then have "tp_topic_name (r_topic r) = tp_topic_name topic" "tp_type_name (r_topic r) = tp_type_name topic"
    by (simp_all add: reader_key_def reader_key_new_def)
  with Some r assms(3) show ?thesis
    by (intro joined [of rid r]) (auto simp: rr_subscribe_def rr_join_def Let_def)
qed

lemma rr_subscribe_ok:
  assumes "rr_ok B reg" and "rr_readers reg next_id = None"
    and "rr_subscribe E B ph topic qos q sid next_id reg w = (res, next_id', reg', w')"
  shows "rr_ok B reg'"
  using assms by (cases rule: rr_subscribe_cases) 
    (auto intro: rr_join_ok [OF assms(1)] rr_add_ok [OF assms(1)] simp: assms(1,2))

text \<open>
  \<open>rr_tracked\<close> survives a subscription unless the session already holds one for the same
  topic and type under a different reader, i.e. with a different QoS.
\<close>

lemma rr_subscribe_tracked:
  assumes "rr_ok B reg" and "rr_readers reg next_id = None"
    and "rr_subscribe E B ph topic qos q sid next_id reg w = (res, next_id', reg', w')"
    and "rr_tracked reg"
    and same: "\<And>old. rr_session_subscriptions reg (sid, tp_topic_name topic, tp_type_name topic) = Some old \<Longrightarrow>
      rr_key_to_reader reg (reader_key_new B (tp_topic_name topic) (tp_type_name topic) q) = Some old"
  shows "rr_tracked reg'"
  using assms(1-3)
proof (cases rule: rr_subscribe_cases)
  case (joined rid r)
  then have "tp_topic_name (r_topic r) = tp_topic_name topic" "tp_type_name (r_topic r) = tp_type_name topic"
    by (simp_all add: reader_key_def reader_key_new_def)
  with joined same show ?thesis by (auto intro!: rr_join_tracked [OF assms(4)])
next
  case (created r h)
  then have "r_topic r = topic" by simp
  moreover have "rr_session_subscriptions reg (sid, tp_topic_name topic, tp_type_name topic) = None"
    using created(7,8) same by (metis not_Some_eq)
  ultimately show ?thesis unfolding created(9) by (auto intro!: rr_add_tracked [OF assms(4)])
next
  case (failed h)
  with assms(4) show ?thesis by simp
qed

subsection \<open>Unsubscribe\<close>

text \<open>What is left of a reader when a session leaves: nothing if it was the last subscriber.\<close>

definition leave :: "u64 \<Rightarrow> DdsReader \<Rightarrow> DdsReader option" where
  "leave sid r = (if r_subscribers r - {sid} = {} then None
     else Some (r\<lparr>r_subscribers := r_subscribers r - {sid}\<rparr>))"

text \<open>The registry after a session has left a set of readers and given up some subscriptions.\<close>

definition rr_left :: "u64 \<Rightarrow> u64 set \<Rightarrow> (u64 \<times> string \<times> string) set \<Rightarrow> ReaderRegistry \<Rightarrow> ReaderRegistry" where
  "rr_left sid rids keys reg = reg\<lparr>
     rr_session_subscriptions := rr_session_subscriptions reg |` (- keys),
     rr_readers := (\<lambda>rid. if rid \<in> rids then Option.bind (rr_readers reg rid) (leave sid) else rr_readers reg rid),
     rr_key_to_reader := map_retain (\<lambda>rid. \<not> (rid \<in> rids \<and> Option.bind (rr_readers reg rid) (leave sid) = None))
       (rr_key_to_reader reg)\<rparr>"

lemma leave_eq_Some:
  "leave sid r = Some r' \<longleftrightarrow> r_subscribers r - {sid} \<noteq> {} \<and> r' = r\<lparr>r_subscribers := r_subscribers r - {sid}\<rparr>"
  by (auto simp: leave_def)

lemma rr_left_readers_Some:
  "rr_readers (rr_left sid rids keys reg) rid = Some r' \<longleftrightarrow>
   (\<exists>r. rr_readers reg rid = Some r \<and>
      (if rid \<in> rids then leave sid r = Some r' else r' = r))"
  by (auto simp: rr_left_def bind_eq_Some_conv)

lemma rr_left_ok:
  assumes "rr_ok B reg"
    and own: "\<And>s n ty. (s, n, ty) \<in> keys \<Longrightarrow> s = sid"
    and cov: "\<And>n ty rid. rid \<in> rids \<Longrightarrow> rr_session_subscriptions reg (sid, n, ty) = Some rid \<Longrightarrow> (sid, n, ty) \<in> keys"
  shows "rr_ok B (rr_left sid rids keys reg)"
proof -
  let ?reg = "rr_left sid rids keys reg"
  note ok = rr_okD [OF assms(1)]
  have "dom (rr_readers ?reg) \<subseteq> dom (rr_readers reg)"
    by (auto simp: dom_def rr_left_readers_Some split: if_splits)
  then have "finite (dom (rr_readers ?reg))" using ok(1) finite_subset by blast
  moreover have "finite (dom (rr_session_subscriptions ?reg))"
    using ok(2) by (simp add: rr_left_def)
  moreover have "r_reader_id r' = rid \<and> finite (r_subscribers r') \<and> r_subscribers r' \<noteq> {} \<and>
      rr_key_to_reader ?reg (reader_key B r') = Some rid" if "rr_readers ?reg rid = Some r'" for rid r'
  proof -
    from that obtain r where r: "rr_readers reg rid = Some r"
      and r': "if rid \<in> rids then leave sid r = Some r' else r' = r"
      unfolding rr_left_readers_Some by blast
    then have "reader_key B r' = reader_key B r" by (auto simp: leave_eq_Some split: if_splits)
    with r r' have "rr_key_to_reader ?reg (reader_key B r') = Some rid"
      using ok(6) [OF r] by (auto simp: rr_left_def)
    moreover have "r_reader_id r' = rid \<and> finite (r_subscribers r') \<and> r_subscribers r' \<noteq> {}"
      using r' ok(3-5) [OF r] by (cases "rid \<in> rids") (auto simp: leave_eq_Some)
    ultimately show ?thesis by simp
  qed
  moreover have "\<exists>r. rr_readers ?reg rid = Some r \<and> reader_key B r = k"
    if "rr_key_to_reader ?reg k = Some rid" for k rid
  proof -
    from that have "rr_key_to_reader reg k = Some rid" by (simp add: rr_left_def)
    then obtain r where "rr_readers reg rid = Some r" "reader_key B r = k" using ok(7) by blast
    with that show ?thesis by (auto simp: rr_left_def leave_eq_Some)
  qed
  moreover have "\<exists>r'. rr_readers ?reg rid = Some r' \<and> s \<in> r_subscribers r' \<and>
      tp_topic_name (r_topic r') = n \<and> tp_type_name (r_topic r') = ty"
    if "rr_session_subscriptions ?reg (s, n, ty) = Some rid" for s n ty rid
  proof -
    from that have nk: "(s, n, ty) \<notin> keys" and sub: "rr_session_subscriptions reg (s, n, ty) = Some rid"
      by (simp_all add: rr_left_def)
    from ok(8) [OF sub] obtain r where r: "rr_readers reg rid = Some r" "s \<in> r_subscribers r"
      "tp_topic_name (r_topic r) = n" "tp_type_name (r_topic r) = ty" by blast
    show ?thesis
    proof (cases "rid \<in> rids")
      case False
      with r show ?thesis by (auto simp: rr_left_readers_Some)
    next
      case True
      with nk sub cov have "s \<noteq> sid" by blast
      with r have "leave sid r = Some (r\<lparr>r_subscribers := r_subscribers r - {sid}\<rparr>)" by (auto simp: leave_def)
      with True r \<open>s \<noteq> sid\<close> show ?thesis by (auto simp: rr_left_readers_Some leave_eq_Some)
    qed
  qed
  ultimately show ?thesis unfolding rr_ok_def by blast
qed

lemma rr_left_tracked:
  assumes "rr_tracked reg"
    and own: "\<And>s n ty. (s, n, ty) \<in> keys \<Longrightarrow> s = sid"
    and cov: "\<And>n ty rid. (sid, n, ty) \<in> keys \<Longrightarrow> rr_session_subscriptions reg (sid, n, ty) = Some rid \<Longrightarrow> rid \<in> rids"
  shows "rr_tracked (rr_left sid rids keys reg)"
proof (rule rr_trackedI)
  fix rid r' s
  assume r': "rr_readers (rr_left sid rids keys reg) rid = Some r'" "s \<in> r_subscribers r'"
  from r'(1) obtain r where rd: "rr_readers reg rid = Some r"
    and "if rid \<in> rids then leave sid r = Some r' else r' = r"
    unfolding rr_left_readers_Some by blast
  with r'(2) have r: "s \<in> r_subscribers r" "r_topic r' = r_topic r" and s: "rid \<in> rids \<longrightarrow> s \<noteq> sid"
    by (auto simp: leave_eq_Some split: if_splits)
  let ?k = "(s, tp_topic_name (r_topic r), tp_type_name (r_topic r))"
  have sub: "rr_session_subscriptions reg ?k = Some rid" using assms(1) rd r(1) by (rule rr_trackedD)
  moreover have "?k \<notin> keys" using sub s own cov by blast
  ultimately show "rr_session_subscriptions (rr_left sid rids keys reg)
      (s, tp_topic_name (r_topic r'), tp_type_name (r_topic r')) = Some rid"
    using r by (simp add: rr_left_def)
qed

lemma rr_unsubscribe_left:
  assumes "rr_ok B reg" and sub: "rr_session_subscriptions reg (sid, n, ty) = Some rid"
  obtains r where "rr_readers reg rid = Some r" "sid \<in> r_subscribers r"
    "rr_unsubscribe E n ty sid reg w = (True, rr_left sid {rid} {(sid, n, ty)} reg,
       if leave sid r = None then drop_reader E r w else w)"
proof -
  from rr_okD(8) [OF assms] obtain r where r: "rr_readers reg rid = Some r" "sid \<in> r_subscribers r" by blast
  have subs: "(rr_session_subscriptions reg)((sid, n, ty) := None) =
      rr_session_subscriptions reg |` (- {(sid, n, ty)})"
    by (auto simp: restrict_map_def)
  have retain: "rr_key_to_reader reg = map_retain (\<lambda>rid'. rid' \<noteq> rid) (rr_key_to_reader reg)"
    if "\<forall>k. rr_key_to_reader reg k \<noteq> Some rid"
    using that by (auto simp: map_retain_def fun_eq_iff split: option.splits)
  show ?thesis
  proof (rule that [OF r])
    show "rr_unsubscribe E n ty sid reg w = (True, rr_left sid {rid} {(sid, n, ty)} reg,
        if leave sid r = None then drop_reader E r w else w)"
    proof (cases "leave sid r = None")
      case True
      then have "map_retain (\<lambda>rid'. \<not> (rid' \<in> {rid} \<and> Option.bind (rr_readers reg rid') (leave sid) = None))
          (rr_key_to_reader reg) = map_retain (\<lambda>rid'. rid' \<noteq> rid) (rr_key_to_reader reg)"
        using r by (auto simp: map_retain_def fun_eq_iff split: option.splits)
      with True r sub show ?thesis
        by (auto simp: rr_unsubscribe_def rr_left_def Let_def subs leave_def drop_reader_def fun_eq_iff
            split: if_splits)
    next
      case False
      then have "map_retain (\<lambda>rid'. \<not> (rid' \<in> {rid} \<and> Option.bind (rr_readers reg rid') (leave sid) = None))
          (rr_key_to_reader reg) = rr_key_to_reader reg"
        using r by (auto simp: map_retain_def fun_eq_iff split: option.splits)
      with False r sub show ?thesis
        by (auto simp: rr_unsubscribe_def rr_left_def Let_def subs leave_def fun_eq_iff split: if_splits)
    qed
  qed
qed

lemma rr_unsubscribe_None:
  "rr_session_subscriptions reg (sid, n, ty) = None \<Longrightarrow> rr_unsubscribe E n ty sid reg w = (False, reg, w)"
  by (simp add: rr_unsubscribe_def)

lemma rr_unsubscribe_ok:
  assumes "rr_ok B reg" and "rr_unsubscribe E n ty sid reg w = (found, reg', w')"
  shows "rr_ok B reg'"
proof (cases "rr_session_subscriptions reg (sid, n, ty)")
  case None
  with assms show ?thesis by (simp add: rr_unsubscribe_None)
next
  case (Some rid)
  obtain r where "rr_unsubscribe E n ty sid reg w = (True, rr_left sid {rid} {(sid, n, ty)} reg,
       if leave sid r = None then drop_reader E r w else w)"
    by (rule rr_unsubscribe_left [OF assms(1) Some])
  with assms(2) have reg': "reg' = rr_left sid {rid} {(sid, n, ty)} reg" by simp
  have "(sid, n', ty') \<in> {(sid, n, ty)}" if "rr_session_subscriptions reg (sid, n', ty') = Some rid" for n' ty'
    using rr_okD(8) [OF assms(1) that] rr_okD(8) [OF assms(1) Some] by auto
  then show ?thesis unfolding reg' by (intro rr_left_ok [OF assms(1)]) auto
qed

lemma rr_unsubscribe_tracked:
  assumes "rr_ok B reg" and "rr_tracked reg" and "rr_unsubscribe E n ty sid reg w = (found, reg', w')"
  shows "rr_tracked reg'"
proof (cases "rr_session_subscriptions reg (sid, n, ty)")
  case None
  with assms show ?thesis by (simp add: rr_unsubscribe_None)
next
  case (Some rid)
  obtain r where "rr_unsubscribe E n ty sid reg w = (True, rr_left sid {rid} {(sid, n, ty)} reg,
       if leave sid r = None then drop_reader E r w else w)"
    by (rule rr_unsubscribe_left [OF assms(1) Some])
  with assms(3) have "reg' = rr_left sid {rid} {(sid, n, ty)} reg" by simp
  with Some show ?thesis by (auto intro!: rr_left_tracked [OF assms(2)])
qed

subsection \<open>Removing a session\<close>

lemma rr_take_subs_eq:
  "rr_take_subs keys subs aff = (subs |` (- set keys), aff \<union> {rid. \<exists>k \<in> set keys. subs k = Some rid})"
proof (induction keys arbitrary: subs aff)
  case Nil
  then show ?case by (simp add: restrict_map_def)
next
  case (Cons k keys)
  show ?case
  proof (cases "subs k")
    case None
    then have "subs |` (- set keys) = subs |` (- set (k # keys))"
      by (auto simp: restrict_map_def fun_eq_iff)
    with None Cons.IH [of subs aff] show ?thesis by simp
  next
    case (Some rid)
    then have "(subs(k := None)) |` (- set keys) = subs |` (- set (k # keys))"
      by (auto simp: restrict_map_def fun_eq_iff)
    moreover have "rr_take_subs (k # keys) subs aff = rr_take_subs keys (subs(k := None)) (insert rid aff)"
      using Some by simp
    moreover have "insert rid aff \<union> {r. \<exists>x \<in> set keys. (subs(k := None)) x = Some r} =
        aff \<union> {r. \<exists>x \<in> set (k # keys). subs x = Some r}"
      using Some by (auto split: if_splits) (metis option.inject)+
    ultimately show ?thesis using Cons.IH [of "subs(k := None)" "insert rid aff"] by (simp only:)
  qed
qed

lemma rr_leave_readers_eq:
  "distinct ids \<Longrightarrow> rr_leave_readers sid ids readers acc =
     ((\<lambda>rid. if rid \<in> set ids then map_option (\<lambda>r. r\<lparr>r_subscribers := r_subscribers r - {sid}\<rparr>) (readers rid) else readers rid),
      acc @ filter (\<lambda>rid. \<exists>r. readers rid = Some r \<and> r_subscribers r - {sid} = {}) ids)"
proof (induction ids arbitrary: readers acc)
  case Nil
  then show ?case by simp
next
  case (Cons i ids)
  show ?case
  proof (cases "readers i")
    case None
    with Cons show ?thesis by (auto simp: fun_eq_iff)
  next
    case (Some r)
    let ?r = "r\<lparr>r_subscribers := r_subscribers r - {sid}\<rparr>"
    let ?f = "\<lambda>r. r\<lparr>r_subscribers := r_subscribers r - {sid}\<rparr>"
    let ?acc = "if r_subscribers ?r = {} then acc @ [i] else acc"
    have step: "rr_leave_readers sid (i # ids) readers acc = rr_leave_readers sid ids (readers(i \<mapsto> ?r)) ?acc"
      using Some by (simp add: Let_def)
    have map: "(\<lambda>rid. if rid \<in> set ids then map_option ?f ((readers(i \<mapsto> ?r)) rid) else (readers(i \<mapsto> ?r)) rid) =
        (\<lambda>rid. if rid \<in> set (i # ids) then map_option ?f (readers rid) else readers rid)"
      using Some Cons.prems by (auto simp: fun_eq_iff)
    from Cons.prems have "filter (\<lambda>rid. \<exists>x. (readers(i \<mapsto> ?r)) rid = Some x \<and> r_subscribers x - {sid} = {}) ids =
        filter (\<lambda>rid. \<exists>x. readers rid = Some x \<and> r_subscribers x - {sid} = {}) ids"
      by (intro filter_cong) auto
    with Some have "?acc @ filter (\<lambda>rid. \<exists>x. (readers(i \<mapsto> ?r)) rid = Some x \<and> r_subscribers x - {sid} = {}) ids =
        acc @ filter (\<lambda>rid. \<exists>x. readers rid = Some x \<and> r_subscribers x - {sid} = {}) (i # ids)"
      by simp
    with step map Cons.prems Cons.IH [of "readers(i \<mapsto> ?r)" ?acc] show ?thesis
      by (simp only: distinct.simps)
  qed
qed

lemma rr_drop_readers_map: "fst (rr_drop_readers E ids readers w) = readers |` (- set ids)"
  by (induction ids arbitrary: readers w) (auto simp: restrict_map_def fun_eq_iff)

text \<open>The readers a session is recorded to be subscribed to.\<close>

definition rr_recorded :: "ReaderRegistry \<Rightarrow> u64 \<Rightarrow> u64 set" where
  "rr_recorded reg sid = {rid. \<exists>n ty. rr_session_subscriptions reg (sid, n, ty) = Some rid}"

lemma finite_rr_recorded: "rr_ok B reg \<Longrightarrow> finite (rr_recorded reg sid)"
proof -
  assume "rr_ok B reg"
  then have "finite (ran (rr_session_subscriptions reg))" by (simp add: rr_okD(2) finite_ran)
  then show ?thesis by (rule finite_subset [rotated]) (auto simp: rr_recorded_def ran_def)
qed

context hash_iteration
begin

lemma rr_remove_session_left:
  assumes "rr_ok B reg"
  shows "fst (rr_remove_session E sid reg w) = rr_left sid (rr_recorded reg sid) {k. fst k = sid} reg"
proof -
  let ?keys = "filter (\<lambda>(s, _, _). s = sid) (iter_sub E w (dom (rr_session_subscriptions reg)))"
  let ?ids = "iter_u64 E w (rr_recorded reg sid)"
  let ?gone = "filter (\<lambda>rid. \<exists>r. rr_readers reg rid = Some r \<and> r_subscribers r - {sid} = {}) ?ids"
  have keys: "set ?keys = {k \<in> dom (rr_session_subscriptions reg). fst k = sid}"
    using rr_okD(2) [OF assms] by auto
  have aff: "{rid. \<exists>k \<in> set ?keys. rr_session_subscriptions reg k = Some rid} = rr_recorded reg sid"
    unfolding keys by (auto simp: rr_recorded_def dom_def)
  have subs: "rr_session_subscriptions reg |` (- set ?keys) = rr_session_subscriptions reg |` (- {k. fst k = sid})"
    unfolding keys by (auto simp: restrict_map_def fun_eq_iff)
  have ids: "distinct ?ids" "set ?ids = rr_recorded reg sid"
    using finite_rr_recorded [OF assms] by simp_all
  have gone: "rid \<in> set ?gone \<longleftrightarrow> rid \<in> rr_recorded reg sid \<and> Option.bind (rr_readers reg rid) (leave sid) = None
      \<and> rr_readers reg rid \<noteq> None" for rid
    using ids(2) by (auto simp: leave_def bind_eq_None_conv split: if_splits)
  have readers: "(\<lambda>rid. if rid \<in> rr_recorded reg sid
        then map_option (\<lambda>r. r\<lparr>r_subscribers := r_subscribers r - {sid}\<rparr>) (rr_readers reg rid)
        else rr_readers reg rid) |` (- set ?gone) =
      (\<lambda>rid. if rid \<in> rr_recorded reg sid then Option.bind (rr_readers reg rid) (leave sid) else rr_readers reg rid)"
    by (auto simp: restrict_map_def fun_eq_iff gone leave_def split: option.splits bind_splits)
  have "rid \<notin> set ?gone \<longleftrightarrow> \<not> (rid \<in> rr_recorded reg sid \<and> Option.bind (rr_readers reg rid) (leave sid) = None)"
    if "rr_key_to_reader reg k = Some rid" for k rid
    using rr_okD(7) [OF assms that] gone [of rid] by auto
  then have "map_retain (\<lambda>rid. rid \<notin> set ?gone) (rr_key_to_reader reg) =
      map_retain (\<lambda>rid. \<not> (rid \<in> rr_recorded reg sid \<and> Option.bind (rr_readers reg rid) (leave sid) = None))
        (rr_key_to_reader reg)"
    unfolding map_retain_def fun_eq_iff by (auto simp del: set_filter split: option.splits)
  moreover have "fst (rr_remove_session E sid reg w) = reg\<lparr>
      rr_session_subscriptions := rr_session_subscriptions reg |` (- set ?keys),
      rr_readers := (\<lambda>rid. if rid \<in> rr_recorded reg sid
        then map_option (\<lambda>r. r\<lparr>r_subscribers := r_subscribers r - {sid}\<rparr>) (rr_readers reg rid)
        else rr_readers reg rid) |` (- set ?gone),
      rr_key_to_reader := map_retain (\<lambda>rid. rid \<notin> set ?gone) (rr_key_to_reader reg)\<rparr>"
    unfolding rr_remove_session_def rr_take_subs_eq aff Let_def prod.case Un_empty_left
      rr_leave_readers_eq [OF ids(1)] append_Nil ids(2)
    by (simp only: rr_drop_readers_map split_beta fst_conv)
  ultimately show ?thesis using subs readers by (simp only: rr_left_def)
qed

lemma rr_remove_session_ok: "rr_ok B reg \<Longrightarrow> rr_ok B (fst (rr_remove_session E sid reg w))"
  unfolding rr_remove_session_left by (rule rr_left_ok) (auto simp: rr_recorded_def)

lemma rr_remove_session_tracked:
  "rr_ok B reg \<Longrightarrow> rr_tracked reg \<Longrightarrow> rr_tracked (fst (rr_remove_session E sid reg w))"
  unfolding rr_remove_session_left by (rule rr_left_tracked) (auto simp: rr_recorded_def)

lemma rr_remove_session_owned:
  assumes "rr_ok B reg" and "rr_tracked reg"
  shows "rr_owned (fst (rr_remove_session E sid reg w)) s = (if s = sid then {} else rr_owned reg s)"
proof -
  have rec: "rid \<in> rr_recorded reg sid" if "rr_readers reg rid = Some r" "sid \<in> r_subscribers r" for rid r
    using rr_trackedD [OF assms(2) that] by (auto simp: rr_recorded_def)
  have "(\<exists>r'. rr_readers (rr_left sid (rr_recorded reg sid) {k. fst k = sid} reg) rid = Some r' \<and> s \<in> r_subscribers r')
      \<longleftrightarrow> s \<noteq> sid \<and> (\<exists>r. rr_readers reg rid = Some r \<and> s \<in> r_subscribers r)" for rid
  proof (cases "rr_readers reg rid")
    case (Some r)
    then show ?thesis using rec [OF Some]
      by (cases "rid \<in> rr_recorded reg sid") (auto simp: rr_left_def leave_def)
  qed (simp add: rr_left_def)
  then show ?thesis unfolding rr_remove_session_left [OF assms(1)] rr_owned_def by simp
qed

end

sublocale hash_iteration \<subseteq> readers: session_registry "\<lambda>r. rr_ok B r \<and> rr_tracked r" rr_owned "rr_remove_session E"
  for B
  by unfold_locales (metis rr_remove_session_ok rr_remove_session_tracked, metis rr_remove_session_owned)

end
