(* ===== verification/Bridge.thy ===== *)
theory Bridge
  imports Effects Config Messages Writers Readers
begin

text \<open>
  \<open>src/bridge.rs\<close>: the bridge state shared by all sessions and the handler of every client
  message. \<open>process\<close> extends the fields of \<open>BridgeInner\<close> with the global counters
  \<open>NEXT_WRITER_ID\<close>, \<open>NEXT_READER_ID\<close>, \<open>NEXT_SESSION_ID\<close> and the state of the outside
  world. Every handler holds the bridge mutex from its first use of the state to its return,
  so it is one atomic operation on \<open>process\<close>; its result is the messages to send back, the
  error response of an early return, or a panic of the session's task. Logging is omitted.
\<close>

record BridgeInner =
  br_participant :: DdsParticipant
  br_writers :: WriterRegistry
  br_readers :: ReaderRegistry
  br_session_senders :: "u64 \<rightharpoonup> Sender"
  br_config :: Config

record 'w process = BridgeInner +
  next_writer_id :: u32
  next_reader_id :: u64
  next_session_id :: u64
  world :: 'w

type_synonym ('w, 'e, 'a) op = "('w process, 'e, 'a) action"

section \<open>Start and sessions\<close>

definition create_bridge :: "'w environment \<Rightarrow> Config \<Rightarrow> 'w \<Rightarrow> (DdsError, 'w process) result \<times> 'w" where
  "create_bridge E config w =
     (let domain_id = (if dds_domain_id (cfg_dds config) = 0 then None
                       else Some (dds_domain_id (cfg_dds config))) in
      case participant_new E domain_id w of
        (Err e, w) \<Rightarrow> (Err e, w)
      | (Panic, w) \<Rightarrow> (Panic, w)
      | (Ok p, w) \<Rightarrow>
          (Ok \<lparr>br_participant = p, br_writers = wr_new, br_readers = rr_new,
               br_session_senders = Map.empty, br_config = config,
               next_writer_id = 1, next_reader_id = 1, next_session_id = 1, world = w\<rparr>, w))"

definition take_session_id :: "'w process \<Rightarrow> u64 \<times> 'w process" where
  "take_session_id s = (next_session_id s, s\<lparr>next_session_id := next_session_id s + 1\<rparr>)"

definition register_session :: "u64 \<Rightarrow> Sender \<Rightarrow> 'w process \<Rightarrow> 'w process" where
  "register_session session_id sender s =
     s\<lparr>br_session_senders := (br_session_senders s)(session_id \<mapsto> sender)\<rparr>"

definition unregister_session :: "'w environment \<Rightarrow> u64 \<Rightarrow> 'w process \<Rightarrow> 'w process" where
  "unregister_session E session_id s =
     (let s = s\<lparr>br_session_senders := (br_session_senders s)(session_id := None)\<rparr> in
      case wr_remove_session E session_id (br_writers s) (world s) of (ws, w) \<Rightarrow>
      case rr_remove_session E session_id (br_readers s) w of (rs, w) \<Rightarrow>
      s\<lparr>br_writers := ws, br_readers := rs, world := w\<rparr>)"

section \<open>Calls on the shared state\<close>

definition make_error_response :: "bytes_crate \<Rightarrow> u32 \<Rightarrow> ErrorCode \<Rightarrow> string \<Rightarrow> bytes" where
  "make_error_response B req code message =
     build_message ErrorMsg req (serialize_error B \<lparr>err_code = code, err_message = message\<rparr>)"

text \<open>The two \<open>map_err\<close> closures the handlers share.\<close>

abbreviation invalid_message :: "bytes_crate \<Rightarrow> u32 \<Rightarrow> ProtocolError \<Rightarrow> bytes" where
  "invalid_message B req e \<equiv>
     make_error_response B req InvalidMessage (protocol_error_to_string e)"

abbreviation dds_failure :: "bytes_crate \<Rightarrow> u32 \<Rightarrow> DdsError \<Rightarrow> bytes" where
  "dds_failure B req e \<equiv>
     make_error_response B req ErrorCode.DdsError (dds_error_to_string e)"

definition get_topic ::
  "'w environment \<Rightarrow> string \<Rightarrow> string \<Rightarrow> bool \<Rightarrow> KeyDescriptors \<Rightarrow> ('w, DdsError, Topic) op" where
  "get_topic E n ty is_keyed kd s =
     (case get_or_create_topic E n ty is_keyed kd (br_participant s) (world s) of (r, p, w) \<Rightarrow>
      (r, s\<lparr>br_participant := p, world := w\<rparr>))"

text \<open>A scope that owns the QoS handle made by \<open>make_qos\<close>: it is dropped when the scope is left.\<close>

definition with_qos ::
  "'w environment \<Rightarrow> QosSet \<Rightarrow> (dds_qos option \<Rightarrow> ('w, 'e, 'a) op) \<Rightarrow> ('w, 'e, 'a) op" where
  "with_qos E qos body s =
     (case make_qos E qos (world s) of (h, w) \<Rightarrow>
      case body h (s\<lparr>world := w\<rparr>) of (r, s) \<Rightarrow>
      (r, s\<lparr>world := drop_qos_handle E h (world s)\<rparr>))"

definition subscribe_reader ::
  "'w environment \<Rightarrow> bytes_crate \<Rightarrow> Topic \<Rightarrow> dds_qos option \<Rightarrow> QosSet \<Rightarrow> u64 \<Rightarrow> ('w, DdsError, u64) op" where
  "subscribe_reader E B topic qos_ptr qos session_id s =
     (case rr_subscribe E B (pt_handle (br_participant s)) topic qos_ptr qos session_id
             (next_reader_id s) (br_readers s) (world s) of (r, next_id, rs, w) \<Rightarrow>
      (r, s\<lparr>next_reader_id := next_id, br_readers := rs, world := w\<rparr>))"

definition unsubscribe_reader ::
  "'w environment \<Rightarrow> string \<Rightarrow> string \<Rightarrow> u64 \<Rightarrow> ('w, 'e, bool) op" where
  "unsubscribe_reader E n ty session_id s =
     (case rr_unsubscribe E n ty session_id (br_readers s) (world s) of (found, rs, w) \<Rightarrow>
      (Ok found, s\<lparr>br_readers := rs, world := w\<rparr>))"

definition new_writer ::
  "'w environment \<Rightarrow> Topic \<Rightarrow> dds_qos option \<Rightarrow> QosSet \<Rightarrow> ('w, DdsError, DdsWriter) op" where
  "new_writer E topic qos_ptr normalized s =
     (case dds_writer_new E (pt_handle (br_participant s)) topic qos_ptr normalized
             (next_writer_id s) (world s) of (r, next_id, w) \<Rightarrow>
      (r, s\<lparr>next_writer_id := next_id, world := w\<rparr>))"

definition register_writer :: "'w environment \<Rightarrow> DdsWriter \<Rightarrow> u64 \<Rightarrow> ('w, 'e, u32) op" where
  "register_writer E writer session_id s =
     (case wr_register E writer session_id (br_writers s) (world s) of (wid, ws, w) \<Rightarrow>
      (Ok wid, s\<lparr>br_writers := ws, world := w\<rparr>))"

definition delete_writer :: "'w environment \<Rightarrow> u32 \<Rightarrow> u64 \<Rightarrow> ('w, DdsError, unit) op" where
  "delete_writer E writer_id session_id s =
     (case wr_delete E writer_id session_id (br_writers s) (world s) of (r, ws, w) \<Rightarrow>
      (r, s\<lparr>br_writers := ws, world := w\<rparr>))"

section \<open>Handlers\<close>

definition handle_subscribe ::
  "'w environment \<Rightarrow> bytes_crate \<Rightarrow> u64 \<Rightarrow> u32 \<Rightarrow> bytes \<Rightarrow> ('w, bytes, bytes list) op" where
  "handle_subscribe E B session_id req payload =
     bind_st (lift_st (map_err (invalid_message B req) (parse_subscribe B payload))) (\<lambda>sub.
     bind_st (map_err_st (dds_failure B req)
       (get_topic E (sub_topic_name sub) (sub_type_name sub) (sub_is_keyed sub) (sub_key_descriptors sub))) (\<lambda>topic.
     with_qos E (sub_qos sub) (\<lambda>qos_ptr.
     bind_st (map_err_st (dds_failure B req)
       (subscribe_reader E B topic qos_ptr (sub_qos sub) session_id)) (\<lambda>_.
     return_st [build_message OkMsg req []]))))"

definition QUOTE :: string where "QUOTE = [CHR 0x27]"

definition handle_unsubscribe ::
  "'w environment \<Rightarrow> bytes_crate \<Rightarrow> u64 \<Rightarrow> u32 \<Rightarrow> bytes \<Rightarrow> ('w, bytes, bytes list) op" where
  "handle_unsubscribe E B session_id req payload =
     bind_st (lift_st (map_err (invalid_message B req) (parse_unsubscribe B payload))) (\<lambda>unsub.
     bind_st (unsubscribe_reader E (unsub_topic_name unsub) (unsub_type_name unsub) session_id) (\<lambda>found.
     if \<not> found then
       lift_st (Err (make_error_response B req ReaderNotFound
         (''no subscription for topic='' @ QUOTE @ unsub_topic_name unsub @ QUOTE
          @ '' type='' @ QUOTE @ unsub_type_name unsub @ QUOTE)))
     else return_st [build_message OkMsg req []]))"

datatype WriteOp = OpWrite | OpDispose | OpWriteDispose

definition execute_write_op ::
  "'w environment \<Rightarrow> bytes_crate \<Rightarrow> DdsWriter \<Rightarrow> WriteOp \<Rightarrow> bytes \<Rightarrow> bytes \<Rightarrow> u32 \<Rightarrow> ('w, bytes, unit) op" where
  "execute_write_op E B writer op data key_bytes req s =
     (case (case op of
              OpWrite \<Rightarrow> writer_write E writer data key_bytes (world s)
            | OpDispose \<Rightarrow> writer_dispose E writer data key_bytes (world s)
            | OpWriteDispose \<Rightarrow> writer_write_dispose E writer data key_bytes (world s)) of (r, w) \<Rightarrow>
      (map_err (dds_failure B req) r, s\<lparr>world := w\<rparr>))"

text \<open>The block of \<open>do_write_op\<close> that creates a topic and an implicit writer.\<close>

definition create_implicit_writer ::
  "'w environment \<Rightarrow> bytes_crate \<Rightarrow> u64 \<Rightarrow> u32 \<Rightarrow> string \<Rightarrow> string \<Rightarrow> QosSet \<Rightarrow> KeyDescriptors \<Rightarrow> ('w, bytes, unit) op" where
  "create_implicit_writer E B session_id req topic_name type_name qos key_descriptors =
     bind_st (map_err_st (dds_failure B req)
       (get_topic E topic_name type_name (kd_keys key_descriptors \<noteq> []) key_descriptors)) (\<lambda>topic.
     with_qos E qos (\<lambda>qos_ptr.
     bind_st (map_err_st (dds_failure B req) (new_writer E topic qos_ptr (normalize qos))) (\<lambda>writer.
     bind_st (register_writer E writer session_id) (\<lambda>_.
     return_st ()))))"

text \<open>The error code for a failed lookup of a writer by id.\<close>

definition writer_error :: "bytes_crate \<Rightarrow> u32 \<Rightarrow> DdsError \<Rightarrow> bytes" where
  "writer_error B req e =
     (let code = (case e of
                    DdsError.WriterNotFound _ \<Rightarrow> ErrorCode.WriterNotFound
                  | WriterOwnership _ \<Rightarrow> ErrorCode.WriterNotFound
                  | _ \<Rightarrow> ErrorCode.DdsError)
      in make_error_response B req code (dds_error_to_string e))"

definition do_write_op ::
  "'w environment \<Rightarrow> bytes_crate \<Rightarrow> u64 \<Rightarrow> u32 \<Rightarrow> WriteMode \<Rightarrow> WriteOp \<Rightarrow> ('w, bytes, bytes) op" where
  "do_write_op E B session_id req mode op s =
     (case mode of
        TopicName topic_name type_name qos key_descriptors data \<Rightarrow>
          let normalized = normalize qos;
              writer_exists = (wr_find_by_topic session_id topic_name type_name normalized (br_writers s) \<noteq> None)
          in bind_st
               (if \<not> writer_exists
                then create_implicit_writer E B session_id req topic_name type_name qos key_descriptors
                else return_st ())
               (\<lambda>_ s. case wr_find_by_topic session_id topic_name type_name normalized (br_writers s) of
                  None \<Rightarrow> (Err (make_error_response B req InternalError
                             ''writer disappeared after creation''), s)
                | Some writer \<Rightarrow>
                    bind_st (execute_write_op E B writer op data [] req) (\<lambda>_.
                    return_st (build_message OkMsg req [])) s) s
      | WriterId writer_id key_bytes data \<Rightarrow>
          bind_st (lift_st (map_err (writer_error B req) (wr_get writer_id session_id (br_writers s)))) (\<lambda>writer.
          bind_st (execute_write_op E B writer op data key_bytes req) (\<lambda>_.
          return_st (build_message OkMsg req []))) s)"

subsection \<open>Dispose notifications\<close>

fun notify_subscribers ::
  "'w environment \<Rightarrow> (u64 \<rightharpoonup> Sender) \<Rightarrow> u64 \<Rightarrow> bytes \<Rightarrow> u64 list \<Rightarrow> bytes list \<Rightarrow> 'w \<Rightarrow> bytes list \<times> 'w" where
  "notify_subscribers E senders requesting_session msg [] messages w = (messages, w)"
| "notify_subscribers E senders requesting_session msg (sid # sids) messages w =
     (if sid = requesting_session then
        notify_subscribers E senders requesting_session msg sids (messages @ [msg]) w
      else (case senders sid of
              None \<Rightarrow> notify_subscribers E senders requesting_session msg sids messages w
            | Some sender \<Rightarrow>
                (case try_send E sender msg w of (_, w) \<Rightarrow>
                 notify_subscribers E senders requesting_session msg sids messages w)))"

fun notify_readers ::
  "'w environment \<Rightarrow> (u64 \<rightharpoonup> Sender) \<Rightarrow> u64 \<Rightarrow> string \<Rightarrow> string \<Rightarrow> bytes \<Rightarrow> DdsReader list \<Rightarrow>
   bytes list \<Rightarrow> 'w \<Rightarrow> bytes list \<times> 'w" where
  "notify_readers E senders requesting_session topic_name type_name msg [] messages w = (messages, w)"
| "notify_readers E senders requesting_session topic_name type_name msg (reader # readers) messages w =
     (case (if tp_topic_name (r_topic reader) = topic_name \<and> tp_type_name (r_topic reader) = type_name
            then notify_subscribers E senders requesting_session msg
                   (iter_u64 E w (r_subscribers reader)) messages w
            else (messages, w)) of (messages, w) \<Rightarrow>
      notify_readers E senders requesting_session topic_name type_name msg readers messages w)"

text \<open>The topic, type and key data a dispose is about; \<open>None\<close> if the writer is not known.\<close>

definition dispose_target :: "WriterRegistry \<Rightarrow> WriteMode \<Rightarrow> (string \<times> string \<times> bytes) option" where
  "dispose_target ws mode =
     (case mode of
        TopicName topic_name type_name _ _ data \<Rightarrow> Some (topic_name, type_name, data)
      | WriterId writer_id _ data \<Rightarrow>
          map_option (\<lambda>writer. (tp_topic_name (w_topic writer), tp_type_name (w_topic writer), data))
            (wr_find_by_id writer_id ws))"

definition resp_with_dispose_notification ::
  "'w environment \<Rightarrow> bytes_crate \<Rightarrow> u64 \<Rightarrow> bytes \<Rightarrow> WriteMode \<Rightarrow> ('w, 'e, bytes list) op" where
  "resp_with_dispose_notification E B requesting_session resp mode s =
     (case dispose_target (br_writers s) mode of
        None \<Rightarrow> (Ok [resp], s)
      | Some (topic_name, type_name, key_data) \<Rightarrow>
          let payload = serialize_data_disposed B
                \<lparr>dd_topic_name = topic_name, dd_source_timestamp = 0, dd_key_data = key_data\<rparr>;
              msg = build_message DataDisposed 0 payload
          in case notify_readers E (br_session_senders s) requesting_session topic_name type_name msg
                    (rr_all_readers E (br_readers s) (world s)) [resp] (world s) of (messages, w) \<Rightarrow>
             (Ok messages, s\<lparr>world := w\<rparr>))"

definition handle_write ::
  "'w environment \<Rightarrow> bytes_crate \<Rightarrow> u64 \<Rightarrow> u32 \<Rightarrow> bytes \<Rightarrow> ('w, bytes, bytes list) op" where
  "handle_write E B session_id req payload =
     bind_st (lift_st (map_err (invalid_message B req) (parse_write B payload))) (\<lambda>p.
     case p of WritePayload mode \<Rightarrow>
     bind_st (do_write_op E B session_id req mode OpWrite) (\<lambda>resp.
     return_st [resp]))"

definition handle_dispose ::
  "'w environment \<Rightarrow> bytes_crate \<Rightarrow> u64 \<Rightarrow> u32 \<Rightarrow> bytes \<Rightarrow> ('w, bytes, bytes list) op" where
  "handle_dispose E B session_id req payload =
     bind_st (lift_st (map_err (invalid_message B req) (parse_dispose B payload))) (\<lambda>p.
     case p of DisposePayload mode \<Rightarrow>
     bind_st (do_write_op E B session_id req mode OpDispose) (\<lambda>resp.
     resp_with_dispose_notification E B session_id resp mode))"

definition handle_write_dispose ::
  "'w environment \<Rightarrow> bytes_crate \<Rightarrow> u64 \<Rightarrow> u32 \<Rightarrow> bytes \<Rightarrow> ('w, bytes, bytes list) op" where
  "handle_write_dispose E B session_id req payload =
     bind_st (lift_st (map_err (invalid_message B req) (parse_write_dispose B payload))) (\<lambda>p.
     case p of WriteDisposePayload mode \<Rightarrow>
     bind_st (do_write_op E B session_id req mode OpWriteDispose) (\<lambda>resp.
     resp_with_dispose_notification E B session_id resp mode))"

definition handle_create_writer ::
  "'w environment \<Rightarrow> bytes_crate \<Rightarrow> u64 \<Rightarrow> u32 \<Rightarrow> bytes \<Rightarrow> ('w, bytes, bytes list) op" where
  "handle_create_writer E B session_id req payload =
     bind_st (lift_st (map_err (invalid_message B req) (parse_create_writer B payload))) (\<lambda>cw.
     bind_st (map_err_st (dds_failure B req)
       (get_topic E (cw_topic_name cw) (cw_type_name cw) (cw_is_keyed cw) (cw_key_descriptors cw))) (\<lambda>topic.
     with_qos E (cw_qos cw) (\<lambda>qos_ptr.
     bind_st (map_err_st (dds_failure B req) (new_writer E topic qos_ptr (normalize (cw_qos cw)))) (\<lambda>writer.
     bind_st (register_writer E writer session_id) (\<lambda>writer_id.
     return_st [build_message OkMsg req (le_bytes 4 writer_id)])))))"

definition handle_delete_writer ::
  "'w environment \<Rightarrow> bytes_crate \<Rightarrow> u64 \<Rightarrow> u32 \<Rightarrow> bytes \<Rightarrow> ('w, bytes, bytes list) op" where
  "handle_delete_writer E B session_id req payload =
     bind_st (lift_st (map_err (invalid_message B req) (parse_delete_writer payload))) (\<lambda>dw.
     bind_st (map_err_st (writer_error B req) (delete_writer E (dw_writer_id dw) session_id)) (\<lambda>_.
     return_st [build_message OkMsg req []]))"

text \<open>The dispatcher; \<open>None\<close> is a panic of the session's task.\<close>

definition dispatch ::
  "'w environment \<Rightarrow> bytes_crate \<Rightarrow> u64 \<Rightarrow> MsgType \<Rightarrow> u32 \<Rightarrow> bytes \<Rightarrow> ('w, bytes, bytes list) op" where
  "dispatch E B session_id mt req payload =
     (case mt of
        MsgType.Subscribe \<Rightarrow> handle_subscribe E B session_id req payload
      | MsgType.Unsubscribe \<Rightarrow> handle_unsubscribe E B session_id req payload
      | MsgType.Write \<Rightarrow> handle_write E B session_id req payload
      | MsgType.Dispose \<Rightarrow> handle_dispose E B session_id req payload
      | MsgType.WriteDispose \<Rightarrow> handle_write_dispose E B session_id req payload
      | MsgType.CreateWriter \<Rightarrow> handle_create_writer E B session_id req payload
      | MsgType.DeleteWriter \<Rightarrow> handle_delete_writer E B session_id req payload
      | MsgType.Ping \<Rightarrow> return_st [build_message Pong req []]
      | _ \<Rightarrow> lift_st (Err (make_error_response B req InvalidMessage
               (''unexpected message type: '' @ msg_type_debug mt))))"

definition handle_message ::
  "'w environment \<Rightarrow> bytes_crate \<Rightarrow> u64 \<Rightarrow> MsgType \<Rightarrow> u32 \<Rightarrow> bytes \<Rightarrow> 'w process \<Rightarrow> bytes list option \<times> 'w process" where
  "handle_message E B session_id mt req payload s =
     (case dispatch E B session_id mt req payload s of
        (Ok messages, s) \<Rightarrow> (Some messages, s)
      | (Err error_msg, s) \<Rightarrow> (Some [error_msg], s)
      | (Panic, s) \<Rightarrow> (None, s))"

section \<open>Reader polling\<close>

definition sample_to_message :: "bytes_crate \<Rightarrow> ReceivedSample \<Rightarrow> bytes" where
  "sample_to_message B sample =
     (case rs_instance_state sample of
        Alive \<Rightarrow> build_message Data 0 (serialize_data B
          \<lparr>dp_topic_name = rs_topic_name sample, dp_source_timestamp = rs_source_timestamp sample,
           dp_data = rs_data sample\<rparr>)
      | Disposed \<Rightarrow> build_message DataDisposed 0 (serialize_data_disposed B
          \<lparr>dd_topic_name = rs_topic_name sample, dd_source_timestamp = rs_source_timestamp sample,
           dd_key_data = rs_data sample\<rparr>)
      | NoWriters \<Rightarrow> build_message DataNoWriters 0 (serialize_data_no_writers B
          \<lparr>nw_topic_name = rs_topic_name sample, nw_key_data = rs_data sample\<rparr>))"

type_synonym pending = "(ReceivedSample list \<times> (u64 \<times> Sender) list) list"

fun poll_readers ::
  "'w environment \<Rightarrow> ReaderRegistry \<Rightarrow> (u64 \<rightharpoonup> Sender) \<Rightarrow> u64 list \<Rightarrow> pending \<Rightarrow> 'w \<Rightarrow> pending \<times> 'w" where
  "poll_readers E reg senders [] pending w = (pending, w)"
| "poll_readers E reg senders (reader_id # ids) pending w =
     (case rr_get reader_id reg of
        None \<Rightarrow> poll_readers E reg senders ids pending w
      | Some reader \<Rightarrow>
          (case take_samples E 256 reader w of (r, w) \<Rightarrow>
           case r of
             Ok samples \<Rightarrow>
               if samples = [] then poll_readers E reg senders ids pending w else
               let subscribers = (case rr_get_subscribers reader_id reg of
                     None \<Rightarrow> []
                   | Some sids \<Rightarrow> List.map_filter (\<lambda>sid. map_option (Pair sid) (senders sid)) (iter_u64 E w sids))
               in poll_readers E reg senders ids (pending @ [(samples, subscribers)]) w
           | _ \<Rightarrow> poll_readers E reg senders ids pending w))"

text \<open>The part of one iteration under the lock, and the fan-out after it is released.\<close>

definition poll_take :: "'w environment \<Rightarrow> 'w process \<Rightarrow> pending \<times> 'w process" where
  "poll_take E s =
     (let reader_ids = map r_reader_id (rr_all_readers E (br_readers s) (world s)) in
      case poll_readers E (br_readers s) (br_session_senders s) reader_ids [] (world s) of (pending, w) \<Rightarrow>
      (pending, s\<lparr>world := w\<rparr>))"

fun send_to_all :: "'w environment \<Rightarrow> bytes \<Rightarrow> (u64 \<times> Sender) list \<Rightarrow> 'w \<Rightarrow> 'w" where
  "send_to_all E msg [] w = w"
| "send_to_all E msg ((sid, sender) # subscribers) w =
     (case try_send E sender msg w of (_, w) \<Rightarrow> send_to_all E msg subscribers w)"

fun fan_out_samples ::
  "'w environment \<Rightarrow> bytes_crate \<Rightarrow> (u64 \<times> Sender) list \<Rightarrow> ReceivedSample list \<Rightarrow> 'w \<Rightarrow> 'w" where
  "fan_out_samples E B subscribers [] w = w"
| "fan_out_samples E B subscribers (sample # samples) w =
     fan_out_samples E B subscribers samples (send_to_all E (sample_to_message B sample) subscribers w)"

fun fan_out :: "'w environment \<Rightarrow> bytes_crate \<Rightarrow> pending \<Rightarrow> 'w \<Rightarrow> 'w" where
  "fan_out E B [] w = w"
| "fan_out E B ((samples, subscribers) # pending) w =
     fan_out E B pending (fan_out_samples E B subscribers samples w)"

end
