(* ===== verification/Bridge_Inv.thy ===== *)
theory Bridge_Inv
  imports Bridge
begin

text \<open>
  The invariant of the bridge state and its preservation by every handler. It ties the
  components together: the registries are well formed, every id in use is below its counter,
  and the topic of every writer and reader is the cached topic of that name and type. The
  counters wrap, so the invariant carries a bound \<open>k\<close> on them that each handler may raise
  by one.
\<close>

definition cached :: "Topic \<Rightarrow> 'w process \<Rightarrow> bool" where
  "cached t s \<longleftrightarrow> pt_topics (br_participant s) (tp_topic_name t, tp_type_name t) = Some t"

definition bridge_inv :: "bytes_crate \<Rightarrow> nat \<Rightarrow> 'w process \<Rightarrow> bool" where
  "bridge_inv B k s \<longleftrightarrow>
     participant_ok (br_participant s) \<and> wr_ok (br_writers s) \<and> rr_ok B (br_readers s) \<and>
     unat (next_writer_id s) \<le> k \<and> unat (next_reader_id s) \<le> k \<and>
     (\<forall>wid wr sid. wr_writers (br_writers s) wid = Some (wr, sid) \<longrightarrow> wid < next_writer_id s \<and> cached (w_topic wr) s) \<and>
     (\<forall>rid r. rr_readers (br_readers s) rid = Some r \<longrightarrow> rid < next_reader_id s \<and> cached (r_topic r) s)"

lemma bridge_invD:
  assumes "bridge_inv B k s"
  shows "participant_ok (br_participant s)" and "wr_ok (br_writers s)" and "rr_ok B (br_readers s)"
    and "unat (next_writer_id s) \<le> k" and "unat (next_reader_id s) \<le> k"
    and "wr_writers (br_writers s) wid = Some (wr, sid) \<Longrightarrow> wid < next_writer_id s"
    and "wr_writers (br_writers s) wid = Some (wr, sid) \<Longrightarrow> cached (w_topic wr) s"
    and "rr_readers (br_readers s) rid = Some r \<Longrightarrow> rid < next_reader_id s"
    and "rr_readers (br_readers s) rid = Some r \<Longrightarrow> cached (r_topic r) s"
  using assms by (auto simp: bridge_inv_def)

lemma bridge_inv_mono: "bridge_inv B k s \<Longrightarrow> k \<le> k' \<Longrightarrow> bridge_inv B k' s"
  by (auto simp: bridge_inv_def)

lemma bridge_inv_world [simp]: "bridge_inv B k (s\<lparr>world := w\<rparr>) = bridge_inv B k s"
  by (simp add: bridge_inv_def cached_def)

lemma bridge_inv_senders [simp]: "bridge_inv B k (s\<lparr>br_session_senders := m\<rparr>) = bridge_inv B k s"
  by (simp add: bridge_inv_def cached_def)

lemma bridge_inv_session_id [simp]: "bridge_inv B k (s\<lparr>next_session_id := i\<rparr>) = bridge_inv B k s"
  by (simp add: bridge_inv_def cached_def)

lemma cached_world [simp]: "cached t (s\<lparr>world := w\<rparr>) = cached t s"
  by (simp add: cached_def)

text \<open>Counters that do not wrap stay above everything they were above, and move up.\<close>

lemma less_add_one_word:
  fixes n x :: "'a::len word"
  assumes "unat n \<le> k" and "Suc k < 2 ^ LENGTH('a)"
  shows "unat (n + 1) = Suc (unat n)" and "n < n + 1" and "x < n \<Longrightarrow> x < n + 1"
proof -
  have "unat n + 1 < 2 ^ LENGTH('a)" using assms by linarith
  then show *: "unat (n + 1) = Suc (unat n)"
    by (simp add: unat_word_ariths(1))
  show "n < n + 1" using * by (simp add: word_less_nat_alt)
  then show "x < n + 1" if "x < n" using that by (rule less_trans [rotated])
qed

section \<open>Operations\<close>

lemma with_qos_triple:
  assumes "\<And>s w. P s \<Longrightarrow> P (s\<lparr>world := w\<rparr>)" and "\<And>r s w. Q r s \<Longrightarrow> Q r (s\<lparr>world := w\<rparr>)"
    and "\<And>h. triple P (body h) Q"
  shows "triple P (with_qos E q body) Q"
proof (rule tripleI)
  fix s r s' assume P: "P s" and run: "with_qos E q body s = (r, s')"
  obtain h w where h: "make_qos E q (world s) = (h, w)" by fastforce
  obtain r' t where b: "body h (s\<lparr>world := w\<rparr>) = (r', t)" by fastforce
  from run h b have "r' = r" "s' = t\<lparr>world := drop_qos_handle E h (world t)\<rparr>" by (simp_all add: with_qos_def)
  moreover from b P assms have "Q r' t" by (blast dest: tripleD)
  ultimately show "Q r s'" using assms(2) by simp
qed

lemma get_topic_inv:
  "triple (bridge_inv B k) (get_topic E n ty b kd)
     (\<lambda>r s. bridge_inv B k s \<and> (\<forall>t. r = Ok t \<longrightarrow> cached t s \<and> tp_topic_name t = n \<and> tp_type_name t = ty))"
proof (rule tripleI)
  fix s :: "'a process" and r s'
  assume inv: "bridge_inv B k s" and run: "get_topic E n ty b kd s = (r, s')"
  obtain p w where g: "get_or_create_topic E n ty b kd (br_participant s) (world s) = (r, p, w)"
    and s': "s' = s\<lparr>br_participant := p, world := w\<rparr>"
    using run by (auto simp: get_topic_def split: prod.splits)
  note top = get_or_create_topic_ok [OF bridge_invD(1) [OF inv] g]
  have "cached t s'" if "cached t s" for t
    using that top(3) by (auto simp: cached_def s' map_le_def dom_def)
  then have "bridge_inv B k s'" using inv top(1) by (auto simp: bridge_inv_def s')
  moreover have "\<forall>t. r = Ok t \<longrightarrow> cached t s' \<and> tp_topic_name t = n \<and> tp_type_name t = ty"
    using top(4) by (auto simp: cached_def s')
  ultimately show "bridge_inv B k s' \<and>
      (\<forall>t. r = Ok t \<longrightarrow> cached t s' \<and> tp_topic_name t = n \<and> tp_type_name t = ty)" by blast
qed

lemma fresh_reader_id: "bridge_inv B k s \<Longrightarrow> rr_readers (br_readers s) (next_reader_id s) = None"
  using bridge_invD(8) [of B k s "next_reader_id s"] by (metis not_None_eq order_less_irrefl)

lemma fresh_writer_id: "bridge_inv B k s \<Longrightarrow> wr_writers (br_writers s) (next_writer_id s) = None"
  using bridge_invD(6) [of B k s "next_writer_id s"] by (metis not_None_eq order_less_irrefl surj_pair)

lemma subscribe_reader_inv:
  assumes k: "Suc k < 2 ^ 32"
  shows "triple (\<lambda>s. bridge_inv B k s \<and> cached t s) (subscribe_reader E B t qp q sid)
    (\<lambda>_. bridge_inv B (Suc k))"
proof (rule tripleI)
  fix s :: "'a process" and r s'
  assume "bridge_inv B k s \<and> cached t s" and run: "subscribe_reader E B t qp q sid s = (r, s')"
  then have inv: "bridge_inv B k s" and t: "cached t s" by simp_all
  obtain n' rs w where sub: "rr_subscribe E B (pt_handle (br_participant s)) t qp q sid
      (next_reader_id s) (br_readers s) (world s) = (r, n', rs, w)"
    and s': "s' = s\<lparr>next_reader_id := n', br_readers := rs, world := w\<rparr>"
    using run by (auto simp: subscribe_reader_def split: prod.splits)
  note fresh = fresh_reader_id [OF inv]
  have c: "cached u s' = cached u s" for u by (simp add: cached_def s')
  have ok: "rr_ok B rs" using bridge_invD(3) [OF inv] fresh sub by (rule rr_subscribe_ok)
  have k64: "Suc k < 2 ^ LENGTH(64)" using k by simp
  note up = less_add_one_word [OF bridge_invD(5) [OF inv] k64]
  have "unat n' \<le> Suc k \<and> (\<forall>rid x. rr_readers rs rid = Some x \<longrightarrow> rid < n' \<and> cached (r_topic x) s)"
    using bridge_invD(3) [OF inv] fresh sub
  proof (cases rule: rr_subscribe_cases)
    case (joined rid x)
    with inv show ?thesis by (auto simp: rr_join_def bridge_inv_def)
  next
    case (created x h)
    then have "r_topic x = t" "r_reader_id x = next_reader_id s" by simp_all
    with created(2,9) inv t up show ?thesis
      by (auto simp: rr_add_def bridge_inv_def)
  next
    case (failed h)
    with inv show ?thesis by (auto simp: bridge_inv_def)
  qed
  with inv ok show "bridge_inv B (Suc k) s'" unfolding bridge_inv_def c by (auto simp: s')
qed

lemma unsubscribe_reader_inv:
  "triple (bridge_inv B k) (unsubscribe_reader E n ty sid) (\<lambda>_. bridge_inv B k)"
proof (rule tripleI)
  fix s :: "'a process" and r s'
  assume inv: "bridge_inv B k s" and run: "unsubscribe_reader E n ty sid s = (r, s')"
  obtain found rs w where un: "rr_unsubscribe E n ty sid (br_readers s) (world s) = (found, rs, w)"
    and s': "s' = s\<lparr>br_readers := rs, world := w\<rparr>"
    using run by (auto simp: unsubscribe_reader_def split: prod.splits)
  have ok: "rr_ok B rs" using bridge_invD(3) [OF inv] un by (rule rr_unsubscribe_ok)
  have "\<exists>x. rr_readers (br_readers s) rid = Some x \<and> r_topic y = r_topic x" if "rr_readers rs rid = Some y" for rid y
    using un that by (auto simp: rr_unsubscribe_def Let_def split: option.splits if_splits)
  with inv ok show "bridge_inv B k s'" by (fastforce simp: bridge_inv_def s' cached_def)
qed

lemma bridge_inv_next_writer:
  assumes inv: "bridge_inv B k s" and k: "Suc k < 2 ^ 32"
  shows "bridge_inv B (Suc k) (s\<lparr>next_writer_id := next_writer_id s + 1\<rparr>)"
proof -
  have k32: "Suc k < 2 ^ LENGTH(32)" using k by simp
  note up = less_add_one_word [OF bridge_invD(4) [OF inv] k32]
  have "wid < next_writer_id s + 1 \<and> cached (w_topic wr) s"
    if "wr_writers (br_writers s) wid = Some (wr, sid)" for wid wr sid
    using up(3) bridge_invD(6,7) [OF inv that] by blast
  with up(1) inv show ?thesis by (fastforce simp: bridge_inv_def cached_def)
qed

lemma new_writer_inv:
  assumes k: "Suc k < 2 ^ 32"
  shows "triple (\<lambda>s. bridge_inv B k s \<and> cached t s) (new_writer E t qp nq)
    (\<lambda>r s. bridge_inv B (Suc k) s \<and> (\<forall>wr. r = Ok wr \<longrightarrow> w_topic wr = t \<and> w_qos_normalized wr = nq \<and>
       cached t s \<and> w_writer_id wr < next_writer_id s \<and> wr_writers (br_writers s) (w_writer_id wr) = None))"
proof (rule tripleI)
  fix s :: "'a process" and r s'
  assume "bridge_inv B k s \<and> cached t s" and run: "new_writer E t qp nq s = (r, s')"
  then have inv: "bridge_inv B k s" and t: "cached t s" by simp_all
  have k32: "Suc k < 2 ^ LENGTH(32)" using k by simp
  note up = less_add_one_word(2) [OF bridge_invD(4) [OF inv] k32]
  obtain h w where h: "dds_create_writer E (pt_handle (br_participant s)) (tp_handle t) qp (world s) = (h, w)"
    by fastforce
  show "bridge_inv B (Suc k) s' \<and> (\<forall>wr. r = Ok wr \<longrightarrow> w_topic wr = t \<and> w_qos_normalized wr = nq \<and>
       cached t s' \<and> w_writer_id wr < next_writer_id s' \<and> wr_writers (br_writers s') (w_writer_id wr) = None)"
  proof (cases "sint h < 0")
    case True
    with run h have "s' = s\<lparr>world := w\<rparr>" "r = Err (DdsError.CreateWriter h)"
      by (simp_all add: new_writer_def dds_writer_new_def)
    with inv show ?thesis using bridge_inv_mono [of B k s "Suc k"] by simp
  next
    case False
    with run h have "s' = s\<lparr>next_writer_id := next_writer_id s + 1, world := w\<rparr>"
      "r = Ok \<lparr>w_handle = h, w_writer_id = next_writer_id s, w_topic = t, w_qos_normalized = nq\<rparr>"
      by (simp_all add: new_writer_def dds_writer_new_def)
    moreover have "bridge_inv B (Suc k) (s\<lparr>next_writer_id := next_writer_id s + 1, world := w\<rparr>)"
      using bridge_inv_next_writer [OF inv k] by simp
    ultimately show ?thesis using t up fresh_writer_id [OF inv] by (simp add: cached_def)
  qed
qed

lemma register_writer_inv:
  "triple (\<lambda>s. bridge_inv B k s \<and> cached (w_topic wr) s \<and> w_writer_id wr < next_writer_id s \<and>
       wr_writers (br_writers s) (w_writer_id wr) = None)
     (register_writer E wr sid)
     (\<lambda>r s. bridge_inv B k s \<and> r = Ok (w_writer_id wr) \<and>
        wr_writers (br_writers s) (w_writer_id wr) = Some (wr, sid))"
proof (rule tripleI)
  fix s :: "'a process" and r :: "('b, u32) result" and s'
  assume "bridge_inv B k s \<and> cached (w_topic wr) s \<and> w_writer_id wr < next_writer_id s \<and>
       wr_writers (br_writers s) (w_writer_id wr) = None"
    and run: "register_writer E wr sid s = (r, s')"
  then have inv: "bridge_inv B k s" and t: "cached (w_topic wr) s" and lt: "w_writer_id wr < next_writer_id s"
    and fresh: "wr_writers (br_writers s) (w_writer_id wr) = None" by simp_all
  obtain wid ws w where reg: "wr_register E wr sid (br_writers s) (world s) = (wid, ws, w)"
    and s': "s' = s\<lparr>br_writers := ws, world := w\<rparr>" and r: "r = Ok wid"
    using run by (auto simp: register_writer_def split: prod.splits)
  note regs = wr_register_simps [OF reg]
  have "wr_ok ws" using bridge_invD(2) [OF inv] reg fresh by (rule wr_register_ok)
  with inv t lt have "bridge_inv B k s'" by (auto simp: bridge_inv_def s' regs(2) cached_def)
  with regs r show "bridge_inv B k s' \<and> r = Ok (w_writer_id wr) \<and>
        wr_writers (br_writers s') (w_writer_id wr) = Some (wr, sid)" by (simp add: s')
qed

lemma delete_writer_inv:
  "triple (bridge_inv B k) (delete_writer E wid sid) (\<lambda>_. bridge_inv B k)"
proof (rule tripleI)
  fix s :: "'a process" and r s'
  assume inv: "bridge_inv B k s" and run: "delete_writer E wid sid s = (r, s')"
  obtain ws w where del: "wr_delete E wid sid (br_writers s) (world s) = (r, ws, w)"
    and s': "s' = s\<lparr>br_writers := ws, world := w\<rparr>"
    using run by (auto simp: delete_writer_def split: prod.splits)
  have "wr_ok ws" using bridge_invD(2) [OF inv] del by (rule wr_delete_ok)
  moreover have "wr_writers ws x = Some v \<Longrightarrow> wr_writers (br_writers s) x = Some v" for x v
    using del by (auto simp: wr_delete_def Let_def split: option.splits if_splits)
  ultimately show "bridge_inv B k s'" using inv by (fastforce simp: bridge_inv_def s' cached_def)
qed

lemma execute_write_op_world:
  "execute_write_op E B wr op data key req s = (r, s') \<Longrightarrow> \<exists>w. s' = s\<lparr>world := w\<rparr>"
  by (auto simp: execute_write_op_def split: WriteOp.splits prod.splits)

section \<open>Handlers\<close>

lemma parsed_then:
  "(\<And>a. triple P (f a) Q) \<Longrightarrow> (\<And>e s. P s \<Longrightarrow> Q (Err e) s) \<Longrightarrow> (\<And>s. P s \<Longrightarrow> Q Panic s) \<Longrightarrow>
   triple P (bind_st (lift_st r) f) Q"
  by (rule triple_bind [where R = "\<lambda>_. P"]) (auto intro: triple_lift)

lemma topic_then:
  assumes "\<And>t. tp_topic_name t = n \<Longrightarrow> tp_type_name t = ty \<Longrightarrow>
      triple (\<lambda>s. bridge_inv B k s \<and> cached t s) (f t) Q"
    and "\<And>e s. bridge_inv B k s \<Longrightarrow> Q (Err e) s" and "\<And>s. bridge_inv B k s \<Longrightarrow> Q Panic s"
  shows "triple (bridge_inv B k) (bind_st (map_err_st g (get_topic E n ty b kd)) f) Q"
proof (rule triple_bind)
  show "triple (bridge_inv B k) (map_err_st g (get_topic E n ty b kd))
     (\<lambda>r s. bridge_inv B k s \<and> (\<forall>t. r = Ok t \<longrightarrow> cached t s \<and> tp_topic_name t = n \<and> tp_type_name t = ty))"
    by (rule triple_map_err, rule triple_weaken [OF get_topic_inv]) auto
  show "triple (\<lambda>s. bridge_inv B k s \<and> (\<forall>t'. Ok t = Ok t' \<longrightarrow> cached t' s \<and> tp_topic_name t' = n \<and> tp_type_name t' = ty))
      (f t) Q" for t
    using assms(1) [of t] by (auto simp: triple_def)
qed (use assms in auto)

lemma subscribe_then_ok:
  assumes "Suc k < 2 ^ 32"
  shows "triple (\<lambda>s. bridge_inv B k s \<and> cached t s)
     (with_qos E q (\<lambda>qos_ptr. bind_st (map_err_st g (subscribe_reader E B t qos_ptr q sid)) (\<lambda>_. return_st m)))
     (\<lambda>_. bridge_inv B (Suc k))"
proof (rule with_qos_triple)
  show "triple (\<lambda>s. bridge_inv B k s \<and> cached t s)
     (bind_st (map_err_st g (subscribe_reader E B t h q sid)) (\<lambda>_. return_st m)) (\<lambda>_. bridge_inv B (Suc k))" for h
    by (rule triple_bind) (auto intro: triple_map_err triple_return subscribe_reader_inv [OF assms])
qed simp_all

lemma handle_subscribe_inv:
  "Suc k < 2 ^ 32 \<Longrightarrow>
   triple (bridge_inv B k) (handle_subscribe E B sid req payload) (\<lambda>_. bridge_inv B (Suc k))"
  unfolding handle_subscribe_def
  by (intro parsed_then topic_then subscribe_then_ok) (auto intro: bridge_inv_mono)

lemma handle_unsubscribe_inv:
  "triple (bridge_inv B k) (handle_unsubscribe E B sid req payload) (\<lambda>_. bridge_inv B k)"
  unfolding handle_unsubscribe_def
  by (intro parsed_then triple_bind [OF unsubscribe_reader_inv]) (auto intro: triple_return triple_lift)

text \<open>Creating a writer and registering it, as both \<open>do_write_op\<close> and \<open>handle_create_writer\<close> do.\<close>

lemma create_and_register:
  assumes "Suc k < 2 ^ 32"
  shows "triple (\<lambda>s. bridge_inv B k s \<and> cached t s)
     (with_qos E q (\<lambda>qos_ptr. bind_st (map_err_st g (new_writer E t qos_ptr nq)) (\<lambda>writer.
        bind_st (register_writer E writer sid) (\<lambda>wid. return_st (f wid)))))
     (\<lambda>r s. bridge_inv B (Suc k) s \<and> (\<forall>a. r = Ok a \<longrightarrow> (\<exists>wr. a = f (w_writer_id wr) \<and>
        wr_writers (br_writers s) (w_writer_id wr) = Some (wr, sid) \<and> w_topic wr = t \<and> w_qos_normalized wr = nq)))"
    (is "triple ?P _ ?Q")
proof (rule with_qos_triple)
  fix h
  let ?R = "\<lambda>r s. bridge_inv B (Suc k) s \<and> (\<forall>wr. r = Ok wr \<longrightarrow> w_topic wr = t \<and> w_qos_normalized wr = nq \<and>
       cached t s \<and> w_writer_id wr < next_writer_id s \<and> wr_writers (br_writers s) (w_writer_id wr) = None)"
  have reg: "triple (?R (Ok wr)) (bind_st (register_writer E wr sid) (\<lambda>wid. return_st (f wid))) ?Q" for wr
  proof (cases "w_topic wr = t \<and> w_qos_normalized wr = nq")
    case True
    let ?S = "\<lambda>r s. bridge_inv B (Suc k) s \<and> r = Ok (w_writer_id wr) \<and>
        wr_writers (br_writers s) (w_writer_id wr) = Some (wr, sid)"
    have "triple (?R (Ok wr)) (register_writer E wr sid) ?S"
      by (rule triple_weaken [OF register_writer_inv [of B "Suc k" wr]]) auto
    with True show ?thesis by (intro triple_bind [where R = ?S]) (auto intro: triple_return)
  qed (auto simp: triple_def)
  show "triple ?P (bind_st (map_err_st g (new_writer E t h nq)) (\<lambda>writer.
        bind_st (register_writer E writer sid) (\<lambda>wid. return_st (f wid)))) ?Q"
  proof (rule triple_bind [where R = ?R])
    show "triple ?P (map_err_st g (new_writer E t h nq)) ?R"
      by (rule triple_map_err, rule triple_weaken [OF new_writer_inv [OF assms]]) auto
  qed (use reg in auto)
qed (auto simp: bridge_inv_def cached_def)

lemma create_implicit_writer_inv:
  assumes "Suc k < 2 ^ 32"
  shows "triple (bridge_inv B k) (create_implicit_writer E B sid req n ty q kd)
    (\<lambda>r s. bridge_inv B (Suc k) s \<and> (r = Ok () \<longrightarrow> wr_find_by_topic sid n ty (normalize q) (br_writers s) \<noteq> None))"
  unfolding create_implicit_writer_def
proof (rule topic_then)
  fix t :: Topic assume t: "tp_topic_name t = n" "tp_type_name t = ty"
  have "wr_find_by_topic sid n ty (normalize q) (br_writers s) \<noteq> None"
    if "bridge_inv B (Suc k) s" "wr_writers (br_writers s) (w_writer_id wr) = Some (wr, sid)"
      "w_topic wr = t" "w_qos_normalized wr = normalize q" for s :: "'a process" and wr
  proof -
    from that t have "writer_matches n ty (normalize q) wr" by (simp add: writer_matches_def)
    with that(2) wr_find_by_topic_None [OF bridge_invD(2) [OF that(1)], of sid n ty "normalize q"]
    show ?thesis by blast
  qed
  then show "triple (\<lambda>s. bridge_inv B k s \<and> cached t s)
     (with_qos E q (\<lambda>qos_ptr. bind_st (map_err_st (dds_failure B req) (new_writer E t qos_ptr (normalize q))) (\<lambda>writer.
        bind_st (register_writer E writer sid) (\<lambda>_. return_st ()))))
     (\<lambda>r s. bridge_inv B (Suc k) s \<and> (r = Ok () \<longrightarrow> wr_find_by_topic sid n ty (normalize q) (br_writers s) \<noteq> None))"
    by (intro triple_weaken [OF create_and_register [OF assms, where f = "\<lambda>_. ()"]]) auto
qed (auto intro: bridge_inv_mono)

lemma execute_write_op_inv:
  "triple (bridge_inv B k) (execute_write_op E B wr op data key req) (\<lambda>_. bridge_inv B k)"
  by (rule tripleI) (auto dest: execute_write_op_world)

text \<open>The two halves of a write in topic-name mode.\<close>

definition disappeared :: "bytes_crate \<Rightarrow> u32 \<Rightarrow> bytes" where
  "disappeared B req = make_error_response B req InternalError ''writer disappeared after creation''"

definition topic_writer ::
  "'w environment \<Rightarrow> bytes_crate \<Rightarrow> u64 \<Rightarrow> u32 \<Rightarrow> string \<Rightarrow> string \<Rightarrow> QosSet \<Rightarrow> KeyDescriptors \<Rightarrow> ('w, bytes, unit) op" where
  "topic_writer E B sid req n ty q kd s =
     (if wr_find_by_topic sid n ty (normalize q) (br_writers s) = None
      then create_implicit_writer E B sid req n ty q kd s else (Ok (), s))"

definition topic_write ::
  "'w environment \<Rightarrow> bytes_crate \<Rightarrow> u64 \<Rightarrow> u32 \<Rightarrow> string \<Rightarrow> string \<Rightarrow> QosSet \<Rightarrow> bytes \<Rightarrow> WriteOp \<Rightarrow> ('w, bytes, bytes) op" where
  "topic_write E B sid req n ty q data op s =
     (case wr_find_by_topic sid n ty (normalize q) (br_writers s) of
        None \<Rightarrow> (Err (disappeared B req), s)
      | Some writer \<Rightarrow> bind_st (execute_write_op E B writer op data [] req)
         (\<lambda>_. return_st (build_message OkMsg req [])) s)"

lemma do_write_op_TopicName:
  "do_write_op E B sid req (TopicName n ty q kd data) op =
   bind_st (topic_writer E B sid req n ty q kd) (\<lambda>_. topic_write E B sid req n ty q data op)"
proof (rule ext)
  fix s
  show "do_write_op E B sid req (TopicName n ty q kd data) op s =
      bind_st (topic_writer E B sid req n ty q kd) (\<lambda>_. topic_write E B sid req n ty q data op) s"
    unfolding do_write_op_def WriteMode.case Let_def topic_write_def [abs_def] disappeared_def
    by (cases "wr_find_by_topic sid n ty (normalize q) (br_writers s)")
      (simp_all add: topic_writer_def bind_st_def [of "topic_writer E B sid req n ty q kd"]
        bind_st_def [of "create_implicit_writer E B sid req n ty q kd"])
qed

lemma do_write_op_WriterId:
  "do_write_op E B sid req (WriterId wid key data) op s =
   (case wr_get wid sid (br_writers s) of
      Ok wr \<Rightarrow> bind_st (execute_write_op E B wr op data key req) (\<lambda>_. return_st (build_message OkMsg req [])) s
    | Err e \<Rightarrow> (Err (writer_error B req e), s)
    | Panic \<Rightarrow> (Panic, s))"
  by (cases "wr_get wid sid (br_writers s)") (simp_all add: do_write_op_def bind_st_lift)

lemma topic_writer_inv:
  assumes "Suc k < 2 ^ 32"
  shows "triple (bridge_inv B k) (topic_writer E B sid req n ty q kd)
    (\<lambda>r s. bridge_inv B (Suc k) s \<and> (r = Ok () \<longrightarrow> wr_find_by_topic sid n ty (normalize q) (br_writers s) \<noteq> None))"
proof (rule tripleI)
  fix s :: "'a process" and r s'
  assume "bridge_inv B k s" and "topic_writer E B sid req n ty q kd s = (r, s')"
  then show "bridge_inv B (Suc k) s' \<and> (r = Ok () \<longrightarrow> wr_find_by_topic sid n ty (normalize q) (br_writers s') \<noteq> None)"
    using tripleD [OF create_implicit_writer_inv [OF assms], of E B sid req n ty q kd s r s']
    by (auto simp: topic_writer_def intro: bridge_inv_mono split: if_splits)
qed

text \<open>The outcome of performing an operation on a writer.\<close>

definition write_outcome :: "bytes_crate \<Rightarrow> u32 \<Rightarrow> (bytes, bytes) result \<Rightarrow> bool" where
  "write_outcome B req r \<longleftrightarrow> r = Ok (build_message OkMsg req []) \<or>
     (\<exists>e. r = Err (make_error_response B req ErrorCode.DdsError (dds_error_to_string e)))"

lemma execute_then_ok:
  assumes "bind_st (execute_write_op E B wr op data key req) (\<lambda>_. return_st (build_message OkMsg req [])) s = (r, s')"
  shows "write_outcome B req r \<and> (\<exists>w. s' = s\<lparr>world := w\<rparr>)"
  using assms
  by (auto simp: bind_st_def return_st_def execute_write_op_def write_outcome_def writer_write_def
      writer_dispose_def writer_write_dispose_def simp del: dds_error_to_string.simps split: WriteOp.splits prod.splits if_splits)

lemma topic_write_inv:
  "triple (\<lambda>s. bridge_inv B k s \<and> wr_find_by_topic sid n ty (normalize q) (br_writers s) \<noteq> None)
     (topic_write E B sid req n ty q data op)
     (\<lambda>r s. bridge_inv B k s \<and> write_outcome B req r)"
  by (rule tripleI) (auto simp: topic_write_def dest!: execute_then_ok)

lemma do_write_op_inv:
  assumes "Suc k < 2 ^ 32"
  shows "triple (bridge_inv B k) (do_write_op E B sid req mode op) (\<lambda>_. bridge_inv B (Suc k))"
proof (cases mode)
  case (TopicName n ty q kd data)
  show ?thesis unfolding TopicName do_write_op_TopicName
    by (rule triple_bind [OF topic_writer_inv [OF assms]]) (auto intro: triple_weaken [OF topic_write_inv])
next
  case (WriterId wid key data)
  show ?thesis unfolding WriterId
    by (rule tripleI) (auto simp: do_write_op_WriterId dest!: execute_then_ok
        intro: bridge_inv_mono split: result.splits)
qed

lemma resp_with_dispose_notification_world:
  "resp_with_dispose_notification E B sid resp mode s = (r, s') \<Longrightarrow> \<exists>w. s' = s\<lparr>world := w\<rparr> \<or> s' = s"
  by (auto simp: resp_with_dispose_notification_def Let_def split: option.splits prod.splits)

lemma notify_inv:
  "triple (bridge_inv B k) (resp_with_dispose_notification E B sid resp mode) (\<lambda>_. bridge_inv B k)"
  by (rule tripleI) (auto dest!: resp_with_dispose_notification_world)

lemma handle_write_inv:
  "Suc k < 2 ^ 32 \<Longrightarrow> triple (bridge_inv B k) (handle_write E B sid req payload) (\<lambda>_. bridge_inv B (Suc k))"
  unfolding handle_write_def
  by (intro parsed_then) (auto intro!: triple_bind [OF do_write_op_inv] triple_return
      intro: bridge_inv_mono split: WritePayload.splits)

lemma handle_dispose_inv:
  "Suc k < 2 ^ 32 \<Longrightarrow> triple (bridge_inv B k) (handle_dispose E B sid req payload) (\<lambda>_. bridge_inv B (Suc k))"
  unfolding handle_dispose_def
  by (intro parsed_then) (auto intro!: triple_bind [OF do_write_op_inv] notify_inv
      intro: bridge_inv_mono split: DisposePayload.splits)

lemma handle_write_dispose_inv:
  "Suc k < 2 ^ 32 \<Longrightarrow> triple (bridge_inv B k) (handle_write_dispose E B sid req payload) (\<lambda>_. bridge_inv B (Suc k))"
  unfolding handle_write_dispose_def
  by (intro parsed_then) (auto intro!: triple_bind [OF do_write_op_inv] notify_inv
      intro: bridge_inv_mono split: WriteDisposePayload.splits)

lemma handle_create_writer_inv:
  assumes "Suc k < 2 ^ 32"
  shows "triple (bridge_inv B k) (handle_create_writer E B sid req payload) (\<lambda>_. bridge_inv B (Suc k))"
  unfolding handle_create_writer_def
  by (intro parsed_then topic_then triple_weaken [OF create_and_register [OF assms]])
    (auto intro: bridge_inv_mono)

lemma handle_delete_writer_inv:
  "triple (bridge_inv B k) (handle_delete_writer E B sid req payload) (\<lambda>_. bridge_inv B k)"
  unfolding handle_delete_writer_def
  by (intro parsed_then triple_bind [OF triple_map_err [OF delete_writer_inv]]) (auto intro: triple_return)

lemma dispatch_inv:
  assumes "Suc k < 2 ^ 32"
  shows "triple (bridge_inv B k) (dispatch E B sid mt req payload) (\<lambda>_. bridge_inv B (Suc k))"
proof -
  note hs = handle_subscribe_inv handle_write_inv handle_dispose_inv handle_write_dispose_inv
    handle_create_writer_inv
  have up: "triple (bridge_inv B k) m (\<lambda>_. bridge_inv B k) \<Longrightarrow> triple (bridge_inv B k) m (\<lambda>_. bridge_inv B (Suc k))"
    for m :: "('a, bytes, bytes list) op"
    by (erule triple_weaken) (auto intro: bridge_inv_mono)
  show ?thesis unfolding dispatch_def
    by (cases mt) (auto intro!: hs [OF assms] up [OF handle_unsubscribe_inv] up [OF handle_delete_writer_inv]
        triple_return triple_lift intro: bridge_inv_mono)
qed

lemma handle_message_inv:
  assumes "bridge_inv B k s" and "Suc k < 2 ^ 32" and "handle_message E B sid mt req payload s = (ms, s')"
  shows "bridge_inv B (Suc k) s'"
proof -
  obtain r t where "dispatch E B sid mt req payload s = (r, t)" by fastforce
  with assms tripleD [OF dispatch_inv [OF assms(2)], of E B sid mt req payload s r t] show ?thesis
    by (cases r) (auto simp: handle_message_def)
qed

section \<open>Sessions and polling\<close>

lemma create_bridge_inv: "create_bridge E c w = (Ok s, w') \<Longrightarrow> bridge_inv B 1 s"
  using wr_new_ok rr_new_ok
  by (auto simp: create_bridge_def bridge_inv_def Let_def wr_new_def rr_new_def
      dest: participant_new_ok split: prod.splits result.splits)

lemma register_session_inv: "bridge_inv B k (register_session sid tx s) = bridge_inv B k s"
  by (simp add: register_session_def)

lemma poll_take_inv: "bridge_inv B k (snd (poll_take E s)) = bridge_inv B k s"
  by (simp add: poll_take_def Let_def split: prod.split)

context hash_iteration
begin

lemma unregister_session_inv:
  assumes inv: "bridge_inv B k s"
  shows "bridge_inv B k (unregister_session E sid s)"
proof -
  obtain ws w where ws: "wr_remove_session E sid (br_writers s) (world s) = (ws, w)" by fastforce
  obtain rs w' where rs: "rr_remove_session E sid (br_readers s) w = (rs, w')" by fastforce
  have "wr_ok ws" using wr_remove_session_ok [OF bridge_invD(2) [OF inv], of E sid "world s"] ws by simp
  moreover have "rr_ok B rs" using rr_remove_session_ok [OF bridge_invD(3) [OF inv], of sid w] rs by simp
  moreover have "wr_writers (br_writers s) wid = Some v" if "wr_writers ws wid = Some v" for wid v
    using that wr_remove_session_simps(1) [OF bridge_invD(2) [OF inv], of E sid "world s"] ws by simp
  moreover have "\<exists>x. rr_readers (br_readers s) rid = Some x \<and> r_topic y = r_topic x"
    if "rr_readers rs rid = Some y" for rid y
    using that rr_remove_session_left [OF bridge_invD(3) [OF inv], of sid w] rs
    by (auto simp: rr_left_readers_Some leave_eq_Some split: if_splits)
  ultimately show ?thesis
    using inv ws rs by (fastforce simp: unregister_session_def bridge_inv_def cached_def)
qed

end

end
