(* ===== verification/Bridge_Resp.thy ===== *)
theory Bridge_Resp
  imports Bridge_Inv
begin

text \<open>
  What the handlers answer: the typing of every message the server sends, and the shape of the
  response to a request.
\<close>

section \<open>Typing of the server's messages\<close>

text \<open>
  The layout of \<open>docs/protocol.md\<close> for every message type the server sends: what the payload of a
  message of that type consists of. A client never sends these types, so the others are excluded.
  Strings and data are counted modulo \<open>2^32\<close>, the width of their length fields.
\<close>

definition error_codes :: "ErrorCode list" where
  "error_codes = [InvalidMessage, TopicNotFound, ErrorCode.DdsError, ErrorCode.WriterNotFound, ReaderNotFound,
     InvalidQos, AlreadyExists, InternalError, BufferOverflow]"

lemma error_codes_all [simp]: "c \<in> set error_codes"
  by (cases c) (simp_all add: error_codes_def)

definition server_payload_ok :: "MsgType \<Rightarrow> bytes \<Rightarrow> bool" where
  "server_payload_ok mt p =
     (case mt of
        OkMsg \<Rightarrow> p = [] \<or> length p = 4
      | Pong \<Rightarrow> p = []
      | ErrorMsg \<Rightarrow> 6 \<le> length p \<and> (\<exists>c \<in> set error_codes. from_le (take 2 p) = error_code_u16 c) \<and>
          (from_le (take 4 (drop 2 p)) :: u32) = of_nat (length p - 6)
      | Data \<Rightarrow> 12 + unat (from_le (take 4 p) :: u32) \<le> length p
      | DataDisposed \<Rightarrow> 12 + unat (from_le (take 4 p) :: u32) \<le> length p
      | DataNoWriters \<Rightarrow> 4 + unat (from_le (take 4 p) :: u32) \<le> length p
      | _ \<Rightarrow> False)"

definition server_message_ok :: "bytes \<Rightarrow> bool" where
  "server_message_ok m =
     (case parse_header m of
        Ok h \<Rightarrow> version h = VERSION \<and> payload_length h = of_nat (length m - HEADER_SIZE) \<and>
          server_payload_ok (msg_type h) (drop HEADER_SIZE m)
      | _ \<Rightarrow> False)"

lemma server_message_ok_build [simp]: "server_message_ok (build_message mt req p) = server_payload_ok mt p"
  by (simp add: server_message_ok_def parse_build_message drop_build_message length_build_message)

lemma unat_of_nat_le: "n \<le> k \<Longrightarrow> unat (of_nat n :: u32) \<le> k"
  by (rule order_trans [of _ n]) (simp_all add: unat_of_nat)

context bytes_laws
begin

lemma serialized_payloads_ok [simp]:
  "server_payload_ok ErrorMsg (serialize_error B e)" "server_payload_ok Data (serialize_data B d)"
  "server_payload_ok DataDisposed (serialize_data_disposed B x)"
  "server_payload_ok DataNoWriters (serialize_data_no_writers B n)"
  by (auto simp: server_payload_ok_def error_msg.mser_enc data_msg.mser_enc data_disposed_msg.mser_enc
      data_no_writers_msg.mser_enc enc_error_def enc_data_def enc_data_disposed_def enc_data_no_writers_def
      enc_string_def intro!: unat_of_nat_le)

lemma error_response_ok [simp]: "server_message_ok (make_error_response B req code msg)"
  by (simp add: make_error_response_def)

text \<open>A sample becomes a message of the type that its instance state calls for.\<close>

lemma sample_message_ok: "server_message_ok (sample_to_message B sample)"
  by (simp add: sample_to_message_def split: InstanceState.split)

end

section \<open>Shape of the response\<close>

definition err_shape :: "bytes_crate \<Rightarrow> u32 \<Rightarrow> (bytes, 'a) result \<Rightarrow> bool" where
  "err_shape B req r \<longleftrightarrow> (\<forall>m. r = Err m \<longrightarrow> (\<exists>code msg. m = make_error_response B req code msg))"

definition ok_shape :: "bytes_crate \<Rightarrow> u32 \<Rightarrow> bytes list \<Rightarrow> bool" where
  "ok_shape B req ms \<longleftrightarrow> (\<exists>mt p n x. mt \<in> {OkMsg, Pong} \<and> server_payload_ok mt p \<and>
     ms = build_message mt req p # replicate n (build_message DataDisposed 0 (serialize_data_disposed B x)))"

definition reply_shape :: "bytes_crate \<Rightarrow> u32 \<Rightarrow> (bytes, bytes list) result \<Rightarrow> bool" where
  "reply_shape B req r \<longleftrightarrow> err_shape B req r \<and> (\<forall>ms. r = Ok ms \<longrightarrow> ok_shape B req ms)"

lemma err_shape_simps [simp]:
  "err_shape B req (Ok a)" "err_shape B req Panic" "err_shape B req (Err (make_error_response B req c t))"
  "err_shape B req (map_err (writer_error B req) r)"
  by (cases r; auto simp: err_shape_def writer_error_def Let_def)+

lemma reply_shape_simps [simp]:
  "reply_shape B req (Err m) = err_shape B req (Err m :: (bytes, unit) result)"
  "reply_shape B req Panic" "server_payload_ok OkMsg p \<Longrightarrow> reply_shape B req (Ok [build_message OkMsg req p])"
  "server_payload_ok Pong p \<Longrightarrow> reply_shape B req (Ok [build_message Pong req p])"
  by (auto simp: reply_shape_def err_shape_def ok_shape_def intro: exI [of _ 0])

lemma reply_payloads_ok [simp]:
  "server_payload_ok OkMsg []" "server_payload_ok Pong []" "server_payload_ok OkMsg (le_bytes 4 w)"
  by (simp_all add: server_payload_ok_def)

lemma ok_shapeI:
  "reply_shape B req (Ok (build_message OkMsg req [] #
     replicate n (build_message DataDisposed 0 (serialize_data_disposed B x))))"
  unfolding reply_shape_def ok_shape_def by (auto intro!: exI [of _ OkMsg] exI [of _ "[]"] exI [of _ n] exI [of _ x])

lemma err_shape_Err: "err_shape B req (Err m) \<longleftrightarrow> (\<exists>code msg. m = make_error_response B req code msg)"
  by (simp add: err_shape_def)

lemma err_shape_invalid [simp]:
  "err_shape B req (map_err (invalid_message B req) r)" "err_shape B req (map_err (dds_failure B req) r')"
  by (cases r; cases r'; auto simp: err_shape_def)+

abbreviation errs :: "bytes_crate \<Rightarrow> u32 \<Rightarrow> ('w, bytes, 'a) op \<Rightarrow> bool" where
  "errs B req m \<equiv> triple (\<lambda>_. True) m (\<lambda>r _. err_shape B req r)"

abbreviation replies :: "bytes_crate \<Rightarrow> u32 \<Rightarrow> ('w, bytes, bytes list) op \<Rightarrow> bool" where
  "replies B req m \<equiv> triple (\<lambda>_. True) m (\<lambda>r _. reply_shape B req r)"

lemma errs_bind: "errs B req m \<Longrightarrow> (\<And>a. errs B req (f a)) \<Longrightarrow> errs B req (bind_st m f)"
  by (rule triple_bind [where R = "\<lambda>r _. err_shape B req r"]) (simp_all add: err_shape_Err)

lemma replies_bind: "errs B req m \<Longrightarrow> (\<And>a. replies B req (f a)) \<Longrightarrow> replies B req (bind_st m f)"
  by (rule triple_bind [where R = "\<lambda>r _. err_shape B req r"]) (simp_all add: err_shape_Err)

lemma errs_map_err [simp]:
  "errs B req (map_err_st (dds_failure B req) m)"
  "errs B req (map_err_st (writer_error B req) m)"
  by (simp_all add: triple_def map_err_st_def split_beta)

lemma errs_lift [simp]:
  "errs B req (lift_st (map_err (invalid_message B req) r))"
  "errs B req (lift_st (map_err (writer_error B req) r'))"
  "errs B req (return_st a)"
  by (simp_all add: triple_def lift_st_def return_st_def)

lemma errs_total [simp]: "errs B req (register_writer E wr sid)" "errs B req (unsubscribe_reader E n ty sid)"
  "errs B req (execute_write_op E B wr op data key req)"
  by (simp_all add: triple_def register_writer_def unsubscribe_reader_def execute_write_op_def split_beta)

lemma replies_final [simp]:
  "server_payload_ok OkMsg p \<Longrightarrow> replies B req (return_st [build_message OkMsg req p])"
  "server_payload_ok Pong p \<Longrightarrow> replies B req (return_st [build_message Pong req p])"
  "replies B req (lift_st (Err (make_error_response B req c t)))"
  by (simp_all add: triple_def lift_st_def return_st_def)

lemma errs_create_implicit_writer [simp]: "errs B req (create_implicit_writer E B sid req n ty q kd)"
  unfolding create_implicit_writer_def
  by (intro errs_bind with_qos_triple errs_map_err errs_total errs_lift) simp_all

lemma do_write_op_shape:
  "triple (\<lambda>_. True) (do_write_op E B sid req mode op)
     (\<lambda>r _. err_shape B req r \<and> (\<forall>m. r = Ok m \<longrightarrow> m = build_message OkMsg req []))"
proof (rule tripleI)
  fix s :: "'a process" and r s'
  assume run: "do_write_op E B sid req mode op s = (r, s')"
  have out: "write_outcome B req x \<Longrightarrow> err_shape B req x \<and> (\<forall>m. x = Ok m \<longrightarrow> m = build_message OkMsg req [])" for x
    by (auto simp: write_outcome_def)
  show "err_shape B req r \<and> (\<forall>m. r = Ok m \<longrightarrow> m = build_message OkMsg req [])"
  proof (cases mode)
    case (TopicName n ty q kd data)
    have tw: "err_shape B req x \<and> (\<forall>m. x = Ok m \<longrightarrow> m = build_message OkMsg req [])"
      if "topic_write E B sid req n ty q data op t = (x, t')" for x t t'
      using that by (auto simp: topic_write_def disappeared_def dest!: execute_then_ok out split: option.splits)
    from run show ?thesis unfolding TopicName do_write_op_TopicName
    proof (cases rule: bind_st_cases)
      case (err e)
      then show ?thesis
        using tripleD [OF errs_create_implicit_writer [where B = B and req = req], of E sid n ty q kd s "Err e" s']
        by (auto simp: topic_writer_def err_shape_def split: if_splits)
    qed (use tw in \<open>auto simp: err_shape_def\<close>)
  next
    case (WriterId wid key data)
    from run show ?thesis unfolding WriterId do_write_op_WriterId
      by (auto split: result.splits dest!: execute_then_ok out simp: err_shape_def writer_error_def Let_def)
  qed
qed

subsection \<open>Dispose notifications\<close>

lemma notify_subscribers_replicate:
  "\<exists>n. fst (notify_subscribers E senders me msg sids acc w) = acc @ replicate n msg"
proof (induction sids arbitrary: acc w)
  case Nil
  show ?case by (auto intro: exI [of _ 0])
next
  case (Cons sid sids)
  show ?case
  proof (cases "sid = me")
    case True
    from Cons.IH [of "acc @ [msg]" w] obtain n where
      "fst (notify_subscribers E senders me msg sids (acc @ [msg]) w) = (acc @ [msg]) @ replicate n msg" by blast
    with True show ?thesis by (auto intro: exI [of _ "Suc n"])
  next
    case False
    with Cons.IH show ?thesis by (auto split: option.splits prod.splits)
  qed
qed

lemma notify_readers_replicate:
  "\<exists>n. fst (notify_readers E senders me nm ty msg rs acc w) = acc @ replicate n msg"
proof (induction rs arbitrary: acc w)
  case Nil
  show ?case by (auto intro: exI [of _ 0])
next
  case (Cons r rs)
  obtain acc' w' where step: "(if tp_topic_name (r_topic r) = nm \<and> tp_type_name (r_topic r) = ty
            then notify_subscribers E senders me msg (iter_u64 E w (r_subscribers r)) acc w
            else (acc, w)) = (acc', w')" by fastforce
  have "\<exists>n. acc' = acc @ replicate n msg"
    using step notify_subscribers_replicate [of E senders me msg "iter_u64 E w (r_subscribers r)" acc w]
    by (auto split: if_splits intro: exI [of _ 0])
  with Cons.IH [of acc' w'] step show ?case
    by (auto simp: replicate_add [symmetric])
qed

lemma replies_notify:
  "replies B req (resp_with_dispose_notification E B sid (build_message OkMsg req []) mode)"
proof (rule tripleI)
  fix s :: "'a process" and r :: "(bytes, bytes list) result" and s'
  assume run: "resp_with_dispose_notification E B sid (build_message OkMsg req []) mode s = (r, s')"
  show "reply_shape B req r"
  proof (cases "dispose_target (br_writers s) mode")
    case None
    with run show ?thesis by (auto simp: resp_with_dispose_notification_def)
  next
    case (Some t)
    obtain nm ty key where t: "t = (nm, ty, key)" by (cases t) auto
    let ?p = "serialize_data_disposed B \<lparr>dd_topic_name = nm, dd_source_timestamp = 0, dd_key_data = key\<rparr>"
    obtain n where "r = Ok ([build_message OkMsg req []] @ replicate n (build_message DataDisposed 0 ?p))"
      using run Some t notify_readers_replicate [of E "br_session_senders s" sid nm ty "build_message DataDisposed 0 ?p"
          "rr_all_readers E (br_readers s) (world s)" "[build_message OkMsg req []]" "world s"]
      by (auto simp: resp_with_dispose_notification_def Let_def split: prod.splits)
    then show ?thesis by (simp add: ok_shapeI)
  qed
qed

lemma handle_write_replies: "replies B req (handle_write E B sid req payload)"
  unfolding handle_write_def
proof (rule replies_bind)
  fix p
  show "replies B req (case p of WritePayload mode \<Rightarrow>
     bind_st (do_write_op E B sid req mode OpWrite) (\<lambda>resp. return_st [resp]))"
    by (cases p) (auto intro!: triple_bind [OF do_write_op_shape] triple_return simp: err_shape_Err)
qed simp

lemma write_then_notify: 
  "replies B req (bind_st (do_write_op E B sid req mode op) (\<lambda>resp. resp_with_dispose_notification E B sid resp mode))"
proof (rule triple_bind [OF do_write_op_shape])
  fix m
  show "triple (\<lambda>s. err_shape B req (Ok m :: (bytes, bytes) result) \<and> (\<forall>ma. Ok m = Ok ma \<longrightarrow> ma = build_message OkMsg req []))
      (resp_with_dispose_notification E B sid m mode) (\<lambda>r _. reply_shape B req r)"
    using replies_notify [where B = B and req = req] by (auto simp: triple_def)
qed (simp_all add: err_shape_Err)

lemma dispatch_replies: "replies B req (dispatch E B sid mt req payload)"
proof -
  have "replies B req (handle_subscribe E B sid req payload)"
    unfolding handle_subscribe_def by (intro replies_bind with_qos_triple errs_lift errs_map_err replies_final) simp_all
  moreover have "replies B req (handle_unsubscribe E B sid req payload)"
    unfolding handle_unsubscribe_def by (intro replies_bind errs_lift errs_total) simp_all
  moreover have "replies B req (handle_dispose E B sid req payload)"
    unfolding handle_dispose_def
    by (intro replies_bind errs_lift) (simp add: write_then_notify split: DisposePayload.split)
  moreover have "replies B req (handle_write_dispose E B sid req payload)"
    unfolding handle_write_dispose_def
    by (intro replies_bind errs_lift) (simp add: write_then_notify split: WriteDisposePayload.split)
  moreover have "replies B req (handle_create_writer E B sid req payload)"
    unfolding handle_create_writer_def
    by (intro replies_bind with_qos_triple errs_lift errs_map_err errs_total replies_final) simp_all
  moreover have "replies B req (handle_delete_writer E B sid req payload)"
    unfolding handle_delete_writer_def by (intro replies_bind errs_lift errs_map_err replies_final) simp_all
  ultimately show ?thesis
    using handle_write_replies unfolding dispatch_def by (cases mt) simp_all
qed

lemma handle_message_shape:
  assumes "handle_message E B sid mt req payload s = (Some ms, s')"
  shows "ok_shape B req ms \<or> (\<exists>code msg. ms = [make_error_response B req code msg])"
proof -
  obtain r t where d: "dispatch E B sid mt req payload s = (r, t)" by fastforce
  have "reply_shape B req r" using tripleD [OF dispatch_replies d] by simp
  with assms d show ?thesis by (cases r) (auto simp: handle_message_def reply_shape_def err_shape_def)
qed

end
