(* ===== verification/Bridge_Frame.thy ===== *)
theory Bridge_Frame
  imports Bridge_Resp
begin

text \<open>
  When a handler panics, which registry operation a handler amounts to, and that it leaves
  the other sessions' writers, readers and subscriptions alone.
\<close>

section \<open>Panics\<close>

abbreviation calm :: "('w, 'e, 'a) op \<Rightarrow> bool" where
  "calm m \<equiv> triple (\<lambda>_. True) m (\<lambda>r _. r \<noteq> Panic)"

text \<open>A panic comes from a given set of topics and happens before anything is changed.\<close>

definition panics_on :: "'w process \<Rightarrow> (string \<Rightarrow> string \<Rightarrow> bool) \<Rightarrow> ('e, 'a) result \<Rightarrow> 'w process \<Rightarrow> bool" where
  "panics_on s0 T r s \<longleftrightarrow> (r = Panic \<longrightarrow> s = s0 \<and> (\<exists>n ty. T n ty \<and>
     pt_topics (br_participant s0) (n, ty) = None \<and> 0 \<notin> set (as_bytes n) \<and> 0 \<in> set (as_bytes ty)))"

lemma panics_on_simps [simp]: "panics_on s0 T (Ok a) s" "panics_on s0 T (Err e) s"
  by (simp_all add: panics_on_def)

lemma calm_bind: "calm m \<Longrightarrow> (\<And>a. calm (f a)) \<Longrightarrow> calm (bind_st m f)"
  by (rule triple_bind [where R = "\<lambda>r _. r \<noteq> Panic"]) simp_all

lemma calm_simps [simp]:
  "calm (return_st a)" "calm (register_writer E wr sid)" "calm (unsubscribe_reader E n ty sid)"
  "calm (new_writer E t qp nq)" "calm (execute_write_op E B wr op data key req)"
  "calm (delete_writer E wid sid)" "calm (resp_with_dispose_notification E B sid resp mode)"
  "calm (lift_st (Err e))"
  by (auto simp: triple_def return_st_def register_writer_def unsubscribe_reader_def new_writer_def lift_st_def
      dds_writer_new_def execute_write_op_def writer_write_def writer_dispose_def writer_write_dispose_def
      delete_writer_def wr_delete_def resp_with_dispose_notification_def Let_def
      split: prod.split option.split WriteOp.split)

lemma calm_lift: "r \<noteq> Panic \<Longrightarrow> calm (lift_st r)"
  by (simp add: triple_def lift_st_def)

lemma calm_map_err: "calm m \<Longrightarrow> calm (map_err_st g m)"
  by (rule triple_map_err) simp

lemma calm_subscribe_reader [simp]: "calm (subscribe_reader E B t qp q sid)"
  by (auto simp: triple_def subscribe_reader_def rr_subscribe_def rr_subscribe_new_def dds_reader_new_def Let_def
      split: prod.split option.split result.split)

lemma calm_with_qos: "(\<And>h. calm (body h)) \<Longrightarrow> calm (with_qos E q body)"
  by (rule with_qos_triple) simp_all

lemma panic_then_calm:
  assumes "triple (\<lambda>s. s = s0) m (panics_on s0 T)" and "\<And>a. calm (f a)"
  shows "triple (\<lambda>s. s = s0) (bind_st m f) (panics_on s0 T)"
  by (rule triple_bind [OF assms(1)]) (auto simp: panics_on_def intro: triple_weaken [OF assms(2)])

lemma parsed_then_panic:
  assumes "r \<noteq> Panic" and "\<And>a. r = Ok a \<Longrightarrow> triple (\<lambda>s. s = s0) (f a) (panics_on s0 T)"
  shows "triple (\<lambda>s. s = s0) (bind_st (lift_st (map_err g r)) f) (panics_on s0 T)"
  using assms by (cases r) (auto simp: triple_def bind_st_lift)

lemma get_topic_panic:
  "triple (\<lambda>s. s = s0) (map_err_st g (get_topic E n ty b kd)) (panics_on s0 (\<lambda>x y. x = n \<and> y = ty))"
  by (rule triple_map_err)
    (auto simp: triple_def get_topic_def panics_on_def get_or_create_topic_Panic split: prod.split)

text \<open>The topic a payload asks for.\<close>

primrec mode_topic :: "WriteMode \<Rightarrow> string \<Rightarrow> string \<Rightarrow> bool" where
  "mode_topic (TopicName n ty q kd data) = (\<lambda>x y. x = n \<and> y = ty)"
| "mode_topic (WriterId wid key data) = (\<lambda>_ _. False)"

definition asks_topic :: "bytes_crate \<Rightarrow> MsgType \<Rightarrow> bytes \<Rightarrow> string \<Rightarrow> string \<Rightarrow> bool" where
  "asks_topic B mt payload n ty =
     (case mt of
        MsgType.Subscribe \<Rightarrow> (\<exists>p. parse_subscribe B payload = Ok p \<and> sub_topic_name p = n \<and> sub_type_name p = ty)
      | MsgType.CreateWriter \<Rightarrow> (\<exists>p. parse_create_writer B payload = Ok p \<and> cw_topic_name p = n \<and> cw_type_name p = ty)
      | _ \<Rightarrow> (\<exists>m. parse_write_mode B payload = Ok m \<and> mode_topic m n ty))"

lemma do_write_op_panic:
  "triple (\<lambda>s. s = s0) (do_write_op E B sid req mode op) (panics_on s0 (mode_topic mode))"
proof (cases mode)
  case (TopicName n ty q kd data)
  have create: "triple (\<lambda>s. s = s0) (create_implicit_writer E B sid req n ty q kd) (panics_on s0 (mode_topic mode))"
    unfolding create_implicit_writer_def TopicName mode_topic.simps
    by (intro panic_then_calm get_topic_panic calm_with_qos calm_bind calm_map_err) simp_all
  have "triple (\<lambda>s. s = s0) (topic_writer E B sid req n ty q kd) (panics_on s0 (mode_topic mode))"
    using create by (auto simp: triple_def topic_writer_def)
  moreover have "calm (topic_write E B sid req n ty q data op)"
    by (rule tripleI) (auto simp: topic_write_def write_outcome_def dest!: execute_then_ok split: option.splits)
  ultimately show ?thesis unfolding TopicName do_write_op_TopicName by (intro panic_then_calm)
next
  case (WriterId wid key data)
  have "wr_get wid sid reg \<noteq> Panic" for reg
    by (simp add: wr_get_def split: option.split)
  then have "calm (do_write_op E B sid req mode op)"
    by (intro tripleI) (auto simp: WriterId do_write_op_WriterId write_outcome_def dest!: execute_then_ok split: result.splits)
  then show ?thesis by (auto simp: triple_def panics_on_def)
qed

context bytes_laws
begin

lemma dispatch_panic:
  "triple (\<lambda>s. s = s0) (dispatch E B sid mt req payload) (panics_on s0 (asks_topic B mt payload))"
proof -
  have calm_triple: "calm m \<Longrightarrow> triple (\<lambda>s. s = s0) m (panics_on s0 T)" for m :: "('a, bytes, bytes list) op" and T
    by (auto simp: triple_def panics_on_def)
  have weaken: "triple (\<lambda>s. s = s0) m (panics_on s0 T) \<Longrightarrow> (\<And>x y. T x y \<Longrightarrow> T' x y) \<Longrightarrow>
      triple (\<lambda>s. s = s0) m (panics_on s0 T')" for m :: "('a, bytes, bytes list) op" and T T'
    by (erule triple_weaken) (auto simp: panics_on_def)
  note wpanic = panic_then_calm [OF do_write_op_panic]
  have "triple (\<lambda>s. s = s0) (handle_subscribe E B sid req payload) (panics_on s0 (asks_topic B MsgType.Subscribe payload))"
    unfolding handle_subscribe_def
    by (rule parsed_then_panic, simp add: subscribe_msg.mpar_no_panic,
        rule weaken [OF panic_then_calm [OF get_topic_panic]])
      (auto intro!: calm_with_qos calm_bind calm_map_err simp: asks_topic_def)
  moreover have "triple (\<lambda>s. s = s0) (handle_create_writer E B sid req payload)
      (panics_on s0 (asks_topic B MsgType.CreateWriter payload))"
    unfolding handle_create_writer_def
    by (rule parsed_then_panic, simp add: create_writer_msg.mpar_no_panic,
        rule weaken [OF panic_then_calm [OF get_topic_panic]])
      (auto intro!: calm_with_qos calm_bind calm_map_err simp: asks_topic_def)
  moreover have "triple (\<lambda>s. s = s0) (handle_write E B sid req payload) (panics_on s0 (asks_topic B MsgType.Write payload))"
    unfolding handle_write_def
    by (rule parsed_then_panic)
      (auto simp: parse_write_def parse_write_mode_no_panic asks_topic_def intro!: weaken [OF wpanic])
  moreover have "triple (\<lambda>s. s = s0) (handle_dispose E B sid req payload) (panics_on s0 (asks_topic B MsgType.Dispose payload))"
    unfolding handle_dispose_def
    by (rule parsed_then_panic)
      (auto simp: parse_dispose_def parse_write_mode_no_panic asks_topic_def intro!: weaken [OF wpanic])
  moreover have "triple (\<lambda>s. s = s0) (handle_write_dispose E B sid req payload)
      (panics_on s0 (asks_topic B MsgType.WriteDispose payload))"
    unfolding handle_write_dispose_def
    by (rule parsed_then_panic)
      (auto simp: parse_write_dispose_def parse_write_mode_no_panic asks_topic_def intro!: weaken [OF wpanic])
  moreover have "calm (handle_unsubscribe E B sid req payload)"
    unfolding handle_unsubscribe_def
    by (intro calm_bind calm_lift) (auto simp: unsubscribe_msg.mpar_no_panic)
  moreover have "calm (handle_delete_writer E B sid req payload)"
    unfolding handle_delete_writer_def
    by (intro calm_bind calm_lift calm_map_err) (auto simp: delete_writer_msg.mpar_no_panic)
  ultimately show ?thesis
    unfolding dispatch_def by (cases mt) (auto intro!: calm_triple)
qed

lemma handle_message_panic:
  assumes "handle_message E B sid mt req payload s = (None, s')"
  shows "s' = s \<and> (\<exists>n ty. asks_topic B mt payload n ty \<and> pt_topics (br_participant s) (n, ty) = None \<and>
    0 \<notin> set (as_bytes n) \<and> 0 \<in> set (as_bytes ty))"
proof -
  obtain r t where d: "dispatch E B sid mt req payload s = (r, t)" by fastforce
  with assms have "r = Panic" "t = s'" by (auto simp: handle_message_def split: result.splits)
  with tripleD [OF dispatch_panic d refl] show ?thesis by (simp add: panics_on_def)
qed

end

section \<open>Effects\<close>

text \<open>Nothing but the topic cache and the outside world has changed.\<close>

definition light :: "'w process \<Rightarrow> 'w process \<Rightarrow> bool" where
  "light s s' \<longleftrightarrow> br_writers s' = br_writers s \<and> br_readers s' = br_readers s \<and>
     next_writer_id s' = next_writer_id s \<and> next_reader_id s' = next_reader_id s \<and>
     next_session_id s' = next_session_id s \<and> br_session_senders s' = br_session_senders s \<and>
     br_config s' = br_config s"

text \<open>
  The effect of a handler for session \<open>sid\<close> is at most one registry operation on behalf of
  that session.
\<close>

inductive effect :: "'w environment \<Rightarrow> bytes_crate \<Rightarrow> u64 \<Rightarrow> 'w process \<Rightarrow> 'w process \<Rightarrow> bool"
  for E B sid s where
  unchanged: "light s s' \<Longrightarrow> effect E B sid s s'"
| registered: "wr_register E wr sid (br_writers s) w = (wid, ws, w') \<Longrightarrow> w_writer_id wr = next_writer_id s \<Longrightarrow>
    light (s\<lparr>br_writers := ws, next_writer_id := next_writer_id s + 1\<rparr>) s' \<Longrightarrow> effect E B sid s s'"
| deleted: "wr_delete E wid sid (br_writers s) w = (r, ws, w') \<Longrightarrow> light (s\<lparr>br_writers := ws\<rparr>) s' \<Longrightarrow>
    effect E B sid s s'"
| subscribed: "rr_subscribe E B ph t qp q sid (next_reader_id s) (br_readers s) w = (res, n', rs, w') \<Longrightarrow>
    light (s\<lparr>br_readers := rs, next_reader_id := n'\<rparr>) s' \<Longrightarrow> effect E B sid s s'"
| unsubscribed: "rr_unsubscribe E n ty sid (br_readers s) w = (found, rs, w') \<Longrightarrow>
    light (s\<lparr>br_readers := rs\<rparr>) s' \<Longrightarrow> effect E B sid s s'"

inductive_cases effect_cases: "effect E B sid s s'"

lemma light_refl [simp]: "light s s"
  by (simp add: light_def)

lemma light_world [simp]: "light s (s'\<lparr>world := w\<rparr>) = light s s'"
  by (simp add: light_def)

lemma light_trans: "light s t \<Longrightarrow> light t u \<Longrightarrow> light s u"
  by (simp add: light_def)

lemma effect_light: "effect E B sid s t \<Longrightarrow> light t u \<Longrightarrow> effect E B sid s u"
  by (induction rule: effect.induct) (auto intro: effect.intros light_trans)

lemma effect_world: "effect E B sid s t \<Longrightarrow> effect E B sid s (t\<lparr>world := w\<rparr>)"
  by (erule effect_light) simp

abbreviation lightly :: "'w process \<Rightarrow> ('w, 'e, 'a) op \<Rightarrow> bool" where
  "lightly s m \<equiv> triple (light s) m (\<lambda>_. light s)"

abbreviation effects :: "'w environment \<Rightarrow> bytes_crate \<Rightarrow> u64 \<Rightarrow> 'w process \<Rightarrow> ('w, 'e, 'a) op \<Rightarrow> bool" where
  "effects E B sid s m \<equiv> triple (light s) m (\<lambda>_. effect E B sid s)"

lemma lightly_simps [simp]:
  "lightly s (return_st a)" "lightly s (lift_st r)" "lightly s (get_topic E n ty b kd)"
  "lightly s (execute_write_op E B wr op data key req)" "lightly s (resp_with_dispose_notification E B sid resp mode)"
  by (auto simp: triple_def return_st_def lift_st_def get_topic_def light_def execute_write_op_def
      resp_with_dispose_notification_def Let_def split: prod.split WriteOp.split option.split)

lemma lightly_map_err: "lightly s m \<Longrightarrow> lightly s (map_err_st g m)"
  by (rule triple_map_err)

lemma lightly_then: "lightly s m \<Longrightarrow> (\<And>a. effects E B sid s (f a)) \<Longrightarrow> effects E B sid s (bind_st m f)"
  by (rule triple_bind [where R = "\<lambda>_. light s"]) (auto intro: effect.unchanged)

lemma effects_then:
  assumes "effects E B sid s m" and "\<And>a t. lightly t (f a)"
  shows "effects E B sid s (bind_st m f)"
proof (rule triple_bind [OF assms(1)])
  show "triple (effect E B sid s) (f a) (\<lambda>_. effect E B sid s)" for a
    by (rule tripleI) (metis assms(2) effect_light light_refl tripleD)
qed auto

lemma effects_lightly: "lightly s m \<Longrightarrow> effects E B sid s m"
  by (erule triple_weaken) (auto intro: effect.unchanged)

lemma effects_with_qos: "(\<And>h. effects E B sid s (body h)) \<Longrightarrow> effects E B sid s (with_qos E q body)"
  by (rule with_qos_triple) (auto intro: effect_world)

lemma effects_map_err: "effects E B sid s m \<Longrightarrow> effects E B sid s (map_err_st g m)"
  by (rule triple_map_err)

lemma effects_subscribe: "effects E B sid s (subscribe_reader E B t qp q sid)"
proof (rule tripleI)
  fix x r s' assume "light s x" and run: "subscribe_reader E B t qp q sid x = (r, s')"
  then have x: "br_readers x = br_readers s" "next_reader_id x = next_reader_id s" by (simp_all add: light_def)
  obtain n' rs w where sub: "rr_subscribe E B (pt_handle (br_participant x)) t qp q sid
      (next_reader_id s) (br_readers s) (world x) = (r, n', rs, w)"
    and s': "s' = x\<lparr>next_reader_id := n', br_readers := rs, world := w\<rparr>"
    using run x by (auto simp: subscribe_reader_def split: prod.splits)
  have "light (s\<lparr>br_readers := rs, next_reader_id := n'\<rparr>) s'"
    using \<open>light s x\<close> by (simp add: light_def s')
  with sub show "effect E B sid s s'" by (rule effect.subscribed)
qed

lemma effects_unsubscribe: "effects E B sid s (unsubscribe_reader E n ty sid)"
  by (rule tripleI) (auto simp: unsubscribe_reader_def light_def split: prod.splits intro: effect.unsubscribed)

lemma effects_delete: "effects E B sid s (delete_writer E wid sid)"
  by (rule tripleI) (auto simp: delete_writer_def light_def split: prod.splits intro: effect.deleted)

lemma effects_register:
  "effects E B sid s (bind_st (map_err_st g (new_writer E t qp nq)) (\<lambda>wr. bind_st (register_writer E wr sid) (\<lambda>wid. return_st (f wid))))"
proof (rule tripleI)
  fix x r s' assume x: "light s x"
    and "bind_st (map_err_st g (new_writer E t qp nq)) (\<lambda>wr. bind_st (register_writer E wr sid) (\<lambda>wid. return_st (f wid))) x = (r, s')"
  from this(2) show "effect E B sid s s'"
  proof (cases rule: bind_st_cases)
    case (ok wr y)
    from ok(1) obtain w where y: "y = x\<lparr>next_writer_id := next_writer_id x + 1, world := w\<rparr>"
      "w_writer_id wr = next_writer_id x"
      by (auto simp: map_err_st_def new_writer_def dds_writer_new_def split: prod.splits if_splits)
    obtain wid ws w' where reg: "wr_register E wr sid (br_writers s) w = (wid, ws, w')" by (metis prod_cases3)
    with ok(2) x y(1) have "s' = y\<lparr>br_writers := ws, world := w'\<rparr>"
      by (simp add: bind_st_def register_writer_def return_st_def light_def)
    with x y have "light (s\<lparr>br_writers := ws, next_writer_id := next_writer_id s + 1\<rparr>) s'"
      by (simp add: light_def)
    moreover from x y(2) have "w_writer_id wr = next_writer_id s" by (simp add: light_def)
    ultimately show ?thesis using reg by (intro effect.registered)
  next
    case (err e)
    then have "light x s'"
      by (auto simp: map_err_st_def new_writer_def dds_writer_new_def light_def split: prod.splits if_splits)
    with x show ?thesis by (intro effect.unchanged) (rule light_trans)
  next
    case panic
    then show ?thesis by (auto simp: map_err_st_def new_writer_def dds_writer_new_def split: prod.splits if_splits)
  qed
qed

lemma do_write_op_effects: "effects E B sid s (do_write_op E B sid req mode op)"
proof (cases mode)
  case (TopicName n ty q kd data)
  have "effects E B sid s (create_implicit_writer E B sid req n ty q kd)"
    unfolding create_implicit_writer_def
    by (intro lightly_then lightly_map_err effects_with_qos effects_register) simp
  then have "effects E B sid s (topic_writer E B sid req n ty q kd)"
    by (auto simp: triple_def topic_writer_def intro: effect.unchanged)
  moreover have "lightly t (topic_write E B sid req n ty q data op)" for t
    by (rule tripleI) (auto simp: topic_write_def dest!: execute_then_ok split: option.splits)
  ultimately show ?thesis unfolding TopicName do_write_op_TopicName by (rule effects_then)
next
  case (WriterId wid key data)
  have "lightly s (do_write_op E B sid req mode op)"
    by (rule tripleI) (auto simp: WriterId do_write_op_WriterId dest!: execute_then_ok split: result.splits)
  then show ?thesis by (rule effects_lightly)
qed

lemma dispatch_effects: "effects E B sid s (dispatch E B sid mt req payload)"
proof -
  have "effects E B sid s (handle_subscribe E B sid req payload)"
    unfolding handle_subscribe_def
    by (intro lightly_then lightly_map_err effects_with_qos effects_then [OF effects_map_err [OF effects_subscribe]])
      simp_all
  moreover have "effects E B sid s (handle_create_writer E B sid req payload)"
    unfolding handle_create_writer_def
    by (intro lightly_then lightly_map_err effects_with_qos effects_register) simp_all
  moreover have "effects E B sid s (handle_write E B sid req payload)"
    unfolding handle_write_def
    by (intro lightly_then) (auto intro!: effects_then [OF do_write_op_effects] split: WritePayload.split)
  moreover have "effects E B sid s (handle_dispose E B sid req payload)"
    unfolding handle_dispose_def
    by (intro lightly_then) (auto intro!: effects_then [OF do_write_op_effects] split: DisposePayload.split)
  moreover have "effects E B sid s (handle_write_dispose E B sid req payload)"
    unfolding handle_write_dispose_def
    by (intro lightly_then) (auto intro!: effects_then [OF do_write_op_effects] split: WriteDisposePayload.split)
  moreover have "effects E B sid s (handle_unsubscribe E B sid req payload)"
    unfolding handle_unsubscribe_def
    by (intro lightly_then effects_then [OF effects_unsubscribe]) simp_all
  moreover have "effects E B sid s (handle_delete_writer E B sid req payload)"
    unfolding handle_delete_writer_def
    by (intro lightly_then effects_then [OF effects_map_err [OF effects_delete]]) simp_all
  ultimately show ?thesis
    unfolding dispatch_def by (cases mt) (auto intro: effects_lightly)
qed

lemma handle_message_effect:
  assumes "handle_message E B sid mt req payload s = (ms, s')"
  shows "effect E B sid s s'"
proof -
  obtain r t where d: "dispatch E B sid mt req payload s = (r, t)" by fastforce
  then have "t = s'" using assms by (auto simp: handle_message_def split: result.splits)
  with tripleD [OF dispatch_effects d light_refl] show ?thesis by simp
qed

section \<open>Isolation\<close>

text \<open>
  What a session owns: its writers, its recorded subscriptions, the readers it is subscribed
  to, and its outbound channel.
\<close>

record session_view =
  v_writers :: "u32 \<rightharpoonup> DdsWriter"
  v_subscriptions :: "string \<times> string \<rightharpoonup> u64"
  v_readers :: "u64 set"
  v_sender :: "Sender option"

definition session_view :: "u64 \<Rightarrow> 'w process \<Rightarrow> session_view" where
  "session_view t s = \<lparr>
     v_writers = (\<lambda>wid. case wr_writers (br_writers s) wid of
        Some (wr, owner) \<Rightarrow> if owner = t then Some wr else None | None \<Rightarrow> None),
     v_subscriptions = (\<lambda>(n, ty). rr_session_subscriptions (br_readers s) (t, n, ty)),
     v_readers = rr_owned (br_readers s) t,
     v_sender = br_session_senders s t\<rparr>"

lemma light_view: "light s s' \<Longrightarrow> session_view t s' = session_view t s"
  by (simp add: light_def session_view_def)

lemma wr_delete_other:
  assumes "wr_delete E wid sid reg w = (r, reg', w')" and "t \<noteq> sid"
  shows "wr_writers reg' x = Some (wr, t) \<longleftrightarrow> wr_writers reg x = Some (wr, t)"
  using assms by (auto simp: wr_delete_def Let_def split: option.splits if_splits)

lemma v_writers_eqI:
  assumes "\<And>x wr. m' x = Some (wr, t) \<longleftrightarrow> m x = Some (wr, t)"
  shows "(\<lambda>wid. case m' wid of Some (wr, owner) \<Rightarrow> if owner = t then Some wr else None | None \<Rightarrow> None) =
    (\<lambda>wid. case m wid of Some (wr, owner) \<Rightarrow> if owner = t then Some wr else None | None \<Rightarrow> None)"
proof (rule ext)
  fix wid
  show "(case m' wid of Some (wr, owner) \<Rightarrow> if owner = t then Some wr else None | None \<Rightarrow> None) =
    (case m wid of Some (wr, owner) \<Rightarrow> if owner = t then Some wr else None | None \<Rightarrow> None)"
    using assms [of wid] by (auto split: option.splits) blast+
qed

lemma rr_subscribe_other:
  assumes "rr_ok B reg" and "rr_readers reg next_id = None" and "t \<noteq> sid"
    and "rr_subscribe E B ph topic qos q sid next_id reg w = (res, next_id', reg', w')"
  shows "rr_session_subscriptions reg' (t, n, ty) = rr_session_subscriptions reg (t, n, ty)"
    and "rr_owned reg' t = rr_owned reg t"
  using assms(1,2,4)
  by (cases rule: rr_subscribe_cases; use assms(2,3) in \<open>auto simp: rr_join_def rr_add_def rr_owned_def\<close>)+

lemma rr_unsubscribe_other:
  assumes "t \<noteq> sid" and "rr_unsubscribe E nm ty' sid reg w = (found, reg', w')"
  shows "rr_session_subscriptions reg' (t, n, ty) = rr_session_subscriptions reg (t, n, ty)"
    and "rr_owned reg' t = rr_owned reg t"
  using assms
  by (auto simp: rr_unsubscribe_def rr_owned_def Let_def split: option.splits if_splits)
    blast?

lemma effect_isolation:
  assumes inv: "bridge_inv B k s" and "effect E B sid s s'" and t: "t \<noteq> sid"
  shows "session_view t s' = session_view t s"
  using assms(2)
proof (cases rule: effect.cases)
  case unchanged
  then show ?thesis by (rule light_view)
next
  case (registered wr w wid ws w')
  have "wr_writers ws x = Some (v, t) \<longleftrightarrow> wr_writers (br_writers s) x = Some (v, t)" for x v
    using wr_register_simps(2) [OF registered(1)] registered(2) fresh_writer_id [OF inv] t by auto
  then show ?thesis using light_view [OF registered(3), of t]
    by (simp add: session_view_def v_writers_eqI [of "wr_writers ws" t "wr_writers (br_writers s)"])
next
  case (deleted wid w r ws w')
  then show ?thesis using light_view [OF deleted(2), of t] wr_delete_other [OF deleted(1) t]
    by (simp add: session_view_def v_writers_eqI [of "wr_writers ws" t "wr_writers (br_writers s)"])
next
  case (subscribed ph tp qp q w res n' rs w')
  from light_view [OF subscribed(2), of t] show ?thesis
    using rr_subscribe_other [OF bridge_invD(3) [OF inv] fresh_reader_id [OF inv] t subscribed(1)]
    by (simp add: session_view_def)
next
  case (unsubscribed n ty w found rs w')
  from light_view [OF unsubscribed(2), of t] show ?thesis
    using rr_unsubscribe_other [OF t unsubscribed(1)] by (simp add: session_view_def)
qed

section \<open>Disconnecting\<close>

context hash_iteration
begin

lemma unregister_session_fields:
  assumes inv: "bridge_inv B k s"
  shows "v_writers (session_view t (unregister_session E sid s)) =
      (if t = sid then Map.empty else v_writers (session_view t s))"
    and "v_subscriptions (session_view t (unregister_session E sid s)) =
      (if t = sid then Map.empty else v_subscriptions (session_view t s))"
    and "v_sender (session_view t (unregister_session E sid s)) =
      (if t = sid then None else v_sender (session_view t s))"
    and "rr_tracked (br_readers s) \<Longrightarrow> v_readers (session_view t (unregister_session E sid s)) =
      (if t = sid then {} else v_readers (session_view t s))"
    and "next_session_id (unregister_session E sid s) = next_session_id s"
proof -
  obtain ws w where ws: "wr_remove_session E sid (br_writers s) (world s) = (ws, w)" by fastforce
  obtain rs w' where rs: "rr_remove_session E sid (br_readers s) w = (rs, w')" by fastforce
  have un: "unregister_session E sid s =
      s\<lparr>br_session_senders := (br_session_senders s)(sid := None), br_writers := ws, br_readers := rs, world := w'\<rparr>"
    using ws rs by (simp add: unregister_session_def)
  have wm: "wr_writers ws = wr_writers (br_writers s) |` (- wr_owned (br_writers s) sid)"
    using wr_remove_session_simps(1) [OF bridge_invD(2) [OF inv], of E sid "world s"] ws by simp
  have rm: "rs = rr_left sid (rr_recorded (br_readers s) sid) {k. fst k = sid} (br_readers s)"
    using rr_remove_session_left [OF bridge_invD(3) [OF inv], of sid w] rs by simp
  show "v_writers (session_view t (unregister_session E sid s)) =
      (if t = sid then Map.empty else v_writers (session_view t s))"
    by (auto simp: un wm session_view_def wr_owned_def restrict_map_def fun_eq_iff split: option.splits)
  show "v_subscriptions (session_view t (unregister_session E sid s)) =
      (if t = sid then Map.empty else v_subscriptions (session_view t s))"
    by (auto simp: un rm rr_left_def session_view_def restrict_map_def fun_eq_iff)
  show "v_sender (session_view t (unregister_session E sid s)) =
      (if t = sid then None else v_sender (session_view t s))"
    and "next_session_id (unregister_session E sid s) = next_session_id s"
    by (simp_all add: un session_view_def)
  show "v_readers (session_view t (unregister_session E sid s)) =
      (if t = sid then {} else v_readers (session_view t s))" if "rr_tracked (br_readers s)"
    using rr_remove_session_owned [OF bridge_invD(3) [OF inv] that, of sid w t] rs
    by (simp add: un session_view_def)
qed

lemma unregister_session_view:
  assumes inv: "bridge_inv B k s" and "rr_tracked (br_readers s)"
  shows "session_view t (unregister_session E sid s) =
    (if t = sid then \<lparr>v_writers = Map.empty, v_subscriptions = Map.empty, v_readers = {}, v_sender = None\<rparr>
     else session_view t s)"
  using unregister_session_fields [OF inv] assms(2) by (simp add: session_view.equality)

end

end
