(* ===== verification/Session.thy ===== *)
theory Session
  imports Bridge_Frame
begin

text \<open>
  \<open>src/ws/session.rs\<close> and \<open>src/ws/server.rs\<close> at the level of one call: checking and
  dispatching a binary frame, the body of a session's read loop, and the decision of the
  accept loop. How the tasks interleave is the subject of theory \<open>System\<close>.
\<close>

section \<open>Binary frames\<close>

definition make_parse_error :: "bytes_crate \<Rightarrow> u32 \<Rightarrow> string \<Rightarrow> bytes" where
  "make_parse_error B req message =
     build_message ErrorMsg req (serialize_error B \<lparr>err_code = InvalidMessage, err_message = message\<rparr>)"

text \<open>The messages to send back, or \<open>None\<close> if the task panics.\<close>

definition process_binary_frame ::
  "'w environment \<Rightarrow> bytes_crate \<Rightarrow> u64 \<Rightarrow> bytes \<Rightarrow> nat \<Rightarrow> 'w process \<Rightarrow> bytes list option \<times> 'w process" where
  "process_binary_frame E B session_id data max_payload_size s =
     (if length data < HEADER_SIZE then (Some [make_parse_error B 0 ''message too short''], s) else
      case parse_header data of
        Panic \<Rightarrow> (None, s)
      | Err e \<Rightarrow> (Some [make_parse_error B 0 (protocol_error_to_string e)], s)
      | Ok header \<Rightarrow>
         (case validate_client_header header VERSION max_payload_size of
            Panic \<Rightarrow> (None, s)
          | Err e \<Rightarrow> (Some [make_parse_error B (request_id header) (protocol_error_to_string e)], s)
          | Ok _ \<Rightarrow>
             (let expected_len = HEADER_SIZE + unat (payload_length header) in
              if length data < expected_len then
                (Some [make_parse_error B (request_id header)
                   (''incomplete message: expected '' @ fmt_dec expected_len @ '' bytes, got '' @ fmt_dec (length data))], s)
              else (case (slice data HEADER_SIZE expected_len :: (ProtocolError, bytes) result) of
                      Ok payload \<Rightarrow> handle_message E B session_id (msg_type header) (request_id header) payload s
                    | _ \<Rightarrow> (None, s)))))"

section \<open>Read loop\<close>

text \<open>What \<open>ws_stream.next()\<close> yields: a frame, a read error, or the end of the stream.\<close>

datatype ws_event = WsBinary bytes | WsPing | WsClose | WsOther | WsError | WsEnd

datatype loop_state = Continue | Stop | Crash

text \<open>One iteration of the loop: the responses queued for the writer task and how to go on.\<close>

definition read_iteration ::
  "'w environment \<Rightarrow> bytes_crate \<Rightarrow> u64 \<Rightarrow> nat \<Rightarrow> ws_event \<Rightarrow> 'w process \<Rightarrow> bytes list \<times> loop_state \<times> 'w process" where
  "read_iteration E B session_id max_payload_size ev s =
     (case ev of
        WsEnd \<Rightarrow> ([], Stop, s)
      | WsError \<Rightarrow> ([], Stop, s)
      | WsClose \<Rightarrow> ([], Stop, s)
      | WsPing \<Rightarrow> ([], Continue, s)
      | WsOther \<Rightarrow> ([], Continue, s)
      | WsBinary data \<Rightarrow>
          (case process_binary_frame E B session_id data max_payload_size s of
             (Some messages, s) \<Rightarrow> (messages, Continue, s)
           | (None, s) \<Rightarrow> ([], Crash, s)))"

section \<open>Accept loop\<close>

definition HEALTH_RESPONSE :: string where
  "HEALTH_RESPONSE = ''HTTP/1.1 200 OK'' @ CRLF @ ''Content-Length: 2'' @ CRLF @ ''Connection: close'' @ CRLF @ CRLF @ ''OK''"

text \<open>
  What happens to an accepted connection, given the number of active connections and the
  bytes a peek at its first 11 bytes delivered (\<open>None\<close>: the peek failed).
\<close>

datatype accept_action = Reject | Health string | Serve

definition on_accept :: "nat \<Rightarrow> nat \<Rightarrow> bytes option \<Rightarrow> accept_action" where
  "on_accept current max_connections peeked =
     (if current \<ge> max_connections then Reject
      else let is_health = (case peeked of
                 None \<Rightarrow> False
               | Some b \<Rightarrow> length b \<ge> 11 \<and> take 11 b = as_bytes ''GET /health'')
           in if is_health then Health HEALTH_RESPONSE else Serve)"

section \<open>Facts\<close>

lemma make_parse_error_eq: "make_parse_error B req msg = make_error_response B req InvalidMessage msg"
  by (simp add: make_parse_error_def make_error_response_def)

lemma validate_client_header_no_panic [simp]: "validate_client_header h v m \<noteq> Panic"
  by (simp add: validate_client_header_def)

text \<open>A frame is either refused with one error message and no effect, or handled.\<close>

lemma process_binary_frame_cases:
  assumes "process_binary_frame E B sid data mp s = (r, s')"
  obtains (refused) req msg where "r = Some [make_error_response B req InvalidMessage msg]" "s' = s"
  | (handled) h payload where "parse_header data = Ok h" "validate_client_header h VERSION mp = Ok ()"
      "HEADER_SIZE + unat (payload_length h) \<le> length data"
      "payload = take (unat (payload_length h)) (drop HEADER_SIZE data)"
      "handle_message E B sid (msg_type h) (request_id h) payload s = (r, s')"
  using assms parse_header_no_panic [of data]
  by (auto simp: process_binary_frame_def make_parse_error_eq Let_def split: if_splits result.splits)

lemma process_binary_frame_effect:
  "process_binary_frame E B sid data mp s = (r, s') \<Longrightarrow> effect E B sid s s'"
  by (erule process_binary_frame_cases) (auto intro: effect.unchanged handle_message_effect)

lemma process_binary_frame_inv:
  assumes "process_binary_frame E B sid data mp s = (r, s')" and "bridge_inv B k s" and "Suc k < 2 ^ 32"
  shows "bridge_inv B (Suc k) s'"
  using assms(1)
  by (rule process_binary_frame_cases)
    (use assms bridge_inv_mono [of B k s "Suc k"] in \<open>auto intro: handle_message_inv [OF assms(2,3)]\<close>)

end
