(* ===== verification/System.thy ===== *)
theory System
  imports Session
begin

text \<open>
  The tasks of the process and their interleaving: the accept loop and connection tasks of
  \<open>src/ws/server.rs\<close>, the read loop, writer task and shutdown sequence of
  \<open>src/ws/session.rs\<close>, and the poll loop of \<open>src/bridge.rs\<close>, as a step relation. A step is
  what a task does while it holds the bridge lock, or an access to the connection counter:
  the accept loop loads the counter, decides after a peek at the stream, and only then
  increments it, while other tasks run in between. While it waits for the peek it is inside
  the handler of a \<open>select!\<close> branch and sees neither another connection nor the shutdown
  signal. A connection task unregisters its session
  and decrements the counter in two steps. The start of \<open>run_session\<close> is one step: taking a
  session id, reading the configuration and inserting the sender touch nothing another task
  looks at before the session's first message.

  A session's writer task ends when a send on the socket fails, which the network may cause
  at any time, or when both of its channels are closed. The response channel closes when the
  read loop is over; the bridge channel closes only when no sender for it is left, neither
  in \<open>session_senders\<close> nor among the clones the poll loop holds.

  Steps that depend on a peer or the network (the bytes a peek sees, the outcome of a handshake, the
  end of a stream, a failing send) are allowed whenever the task could notice them: what is said of
  all runs also holds of the real ones, but that such a step is possible does not mean that it
  happens. The relation ends with \<open>main\<close>: once the accept loop has seen the shutdown signal, \<open>main\<close>
  may return at any time, and the runtime drops all tasks where they are (\<open>drop_bridge\<close> in theory
  \<open>Startup\<close>).
\<close>

datatype phase = Handshaking | Reading | Draining | Returned | Finished | Crashed | Aborted

record conn =
  c_phase :: phase
  c_session :: u64
  c_max_payload :: nat
  c_writer_alive :: bool
  c_sink_failed :: bool

record 'w system =
  sys_bridge :: "'w process"
  sys_conns :: "nat \<rightharpoonup> conn"
  sys_active :: nat
  sys_pending :: pending
  sys_loaded :: "nat option"   \<comment> \<open>what the accept loop loaded for the connection it holds\<close>
  sys_accepting :: bool   \<comment> \<open>the accept loop has not seen the shutdown signal\<close>

definition sys_init :: "'w process \<Rightarrow> 'w system" where
  "sys_init p = \<lparr>sys_bridge = p, sys_conns = Map.empty, sys_active = 0, sys_pending = [], sys_loaded = None, sys_accepting = True\<rparr>"

definition set_conn :: "nat \<Rightarrow> conn \<Rightarrow> 'w system \<Rightarrow> 'w system" where
  "set_conn c x s = s\<lparr>sys_conns := (sys_conns s)(c \<mapsto> x)\<rparr>"

text \<open>A connection whose handshake has begun; the session fields are set when it is done.\<close>

definition new_conn :: conn where
  "new_conn = \<lparr>c_phase = Handshaking, c_session = 0, c_max_payload = 0, c_writer_alive = False, c_sink_failed = False\<rparr>"

text \<open>
  The start of \<open>run_session\<close>: a session id, the limits, the channel, the writer task. Creating a
  channel without capacity panics (as tokio documents), before the session is registered: the task
  is then \<open>Aborted\<close>.
\<close>

definition open_session :: "Sender \<Rightarrow> 'w process \<Rightarrow> conn \<times> 'w process" where
  "open_session tx p =
     (case take_session_id p of (sid, p) \<Rightarrow>
      if bc_session_buffer_size (cfg_bridge (br_config p)) = 0 then (new_conn\<lparr>c_phase := Aborted\<rparr>, p) else
      (\<lparr>c_phase = Reading, c_session = sid, c_max_payload = bc_max_payload_size (cfg_bridge (br_config p)),
        c_writer_alive = True, c_sink_failed = False\<rparr>,
       register_session sid tx p))"

lemma open_session_cases [consumes 1, case_names aborted opened]:
  assumes "open_session tx q = (x, p)"
  obtains (aborted) "x = new_conn\<lparr>c_phase := Aborted\<rparr>" "p = q\<lparr>next_session_id := next_session_id q + 1\<rparr>"
  | (opened) "c_phase x = Reading" "c_session x = next_session_id q" "c_writer_alive x"
      "p = register_session (next_session_id q) tx (q\<lparr>next_session_id := next_session_id q + 1\<rparr>)"
  using assms by (auto simp: open_session_def take_session_id_def split: if_splits)

definition bridge_channel_closed :: "u64 \<Rightarrow> 'w system \<Rightarrow> bool" where
  "bridge_channel_closed sid s \<longleftrightarrow> br_session_senders (sys_bridge s) sid = None \<and>
     (\<forall>(samples, subscribers) \<in> set (sys_pending s). sid \<notin> fst ` set subscribers)"

definition phase_after :: "loop_state \<Rightarrow> phase" where
  "phase_after l = (case l of Continue \<Rightarrow> Reading | Stop \<Rightarrow> Draining | Crash \<Rightarrow> Crashed)"

inductive sys_step :: "'w environment \<Rightarrow> bytes_crate \<Rightarrow> nat \<Rightarrow> 'w system \<Rightarrow> 'w system \<Rightarrow> bool"
  for E B max_connections where
  load: "sys_accepting s \<Longrightarrow> sys_loaded s = None \<Longrightarrow> sys_step E B max_connections s (s\<lparr>sys_loaded := Some (sys_active s)\<rparr>)"
| shutdown: "sys_accepting s \<Longrightarrow> sys_loaded s = None \<Longrightarrow> sys_step E B max_connections s (s\<lparr>sys_accepting := False\<rparr>)"
| turned_away: "sys_loaded s = Some current \<Longrightarrow> on_accept current max_connections peeked \<noteq> Serve \<Longrightarrow>
    sys_step E B max_connections s (s\<lparr>sys_loaded := None\<rparr>)"
| accept: "sys_loaded s = Some current \<Longrightarrow> on_accept current max_connections peeked = Serve \<Longrightarrow> sys_conns s c = None \<Longrightarrow>
    sys_step E B max_connections s (set_conn c new_conn (s\<lparr>sys_active := sys_active s + 1, sys_loaded := None\<rparr>))"
| handshake_failed: "sys_conns s c = Some x \<Longrightarrow> c_phase x = Handshaking \<Longrightarrow>
    sys_step E B max_connections s
      (set_conn c (x\<lparr>c_phase := Finished\<rparr>) (s\<lparr>sys_active := sys_active s - 1\<rparr>))"
| opened: "sys_conns s c = Some x \<Longrightarrow> c_phase x = Handshaking \<Longrightarrow> open_session tx (sys_bridge s) = (x', p) \<Longrightarrow>
    sys_step E B max_connections s (set_conn c x' (s\<lparr>sys_bridge := p\<rparr>))"
| read: "sys_conns s c = Some x \<Longrightarrow> c_phase x = Reading \<Longrightarrow>
    read_iteration E B (c_session x) (c_max_payload x) ev (sys_bridge s) = (ms, l, p) \<Longrightarrow>
    sys_step E B max_connections s (set_conn c (x\<lparr>c_phase := phase_after l\<rparr>) (s\<lparr>sys_bridge := p\<rparr>))"
| sink_failed: "sys_conns s c = Some x \<Longrightarrow> c_writer_alive x \<Longrightarrow>
    sys_step E B max_connections s (set_conn c (x\<lparr>c_writer_alive := False, c_sink_failed := True\<rparr>) s)"
| channels_closed: "sys_conns s c = Some x \<Longrightarrow> c_writer_alive x \<Longrightarrow> c_phase x \<noteq> Reading \<Longrightarrow>
    bridge_channel_closed (c_session x) s \<Longrightarrow>
    sys_step E B max_connections s (set_conn c (x\<lparr>c_writer_alive := False\<rparr>) s)"
| closed: "sys_conns s c = Some x \<Longrightarrow> c_phase x = Draining \<Longrightarrow> \<not> c_writer_alive x \<Longrightarrow>
    sys_step E B max_connections s
      (set_conn c (x\<lparr>c_phase := Returned\<rparr>) (s\<lparr>sys_bridge := unregister_session E (c_session x) (sys_bridge s)\<rparr>))"
| finished: "sys_conns s c = Some x \<Longrightarrow> c_phase x = Returned \<Longrightarrow>
    sys_step E B max_connections s
      (set_conn c (x\<lparr>c_phase := Finished\<rparr>) (s\<lparr>sys_active := sys_active s - 1\<rparr>))"
| poll_taken: "sys_pending s = [] \<Longrightarrow> poll_take E (sys_bridge s) = (pending, p) \<Longrightarrow>
    sys_step E B max_connections s (s\<lparr>sys_bridge := p, sys_pending := pending\<rparr>)"
| poll_sent: "sys_pending s \<noteq> [] \<Longrightarrow>
    sys_step E B max_connections s
      (s\<lparr>sys_bridge := (sys_bridge s)\<lparr>world := fan_out E B (sys_pending s) (world (sys_bridge s))\<rparr>, sys_pending := []\<rparr>)"

text \<open>Reachability in a given number of steps.\<close>

inductive reach :: "'w environment \<Rightarrow> bytes_crate \<Rightarrow> nat \<Rightarrow> Config \<Rightarrow> nat \<Rightarrow> 'w system \<Rightarrow> bool"
  for E B max_connections config where
  start: "create_bridge E config w = (Ok p, w') \<Longrightarrow> reach E B max_connections config 0 (sys_init p)"
| step: "reach E B max_connections config n s \<Longrightarrow> sys_step E B max_connections s s' \<Longrightarrow>
    reach E B max_connections config (Suc n) s'"

section \<open>Connection counter\<close>

definition live :: "conn \<Rightarrow> bool" where
  "live x \<longleftrightarrow> c_phase x \<noteq> Finished"

definition live_conns :: "'w system \<Rightarrow> nat set" where
  "live_conns s = {c. \<exists>x. sys_conns s c = Some x \<and> live x}"

definition counter_ok :: "nat \<Rightarrow> 'w system \<Rightarrow> bool" where
  "counter_ok max_connections s \<longleftrightarrow> finite (live_conns s) \<and> sys_active s = card (live_conns s) \<and>
     sys_active s \<le> max_connections \<and> (\<forall>current. sys_loaded s = Some current \<longrightarrow> sys_active s \<le> current)"

lemma live_conns_simps [simp]:
  "live_conns (set_conn c x s) = (if live x then insert c (live_conns s) else live_conns s - {c})"
  "live_conns (s\<lparr>sys_bridge := p\<rparr>) = live_conns s" "live_conns (s\<lparr>sys_active := a\<rparr>) = live_conns s"
  "live_conns (s\<lparr>sys_pending := q\<rparr>) = live_conns s" "live_conns (s\<lparr>sys_loaded := l\<rparr>) = live_conns s"
  "live_conns (s\<lparr>sys_accepting := b\<rparr>) = live_conns s"
  by (auto simp: live_conns_def set_conn_def)

lemma set_conn_simps [simp]:
  "sys_active (set_conn c x s) = sys_active s" "sys_bridge (set_conn c x s) = sys_bridge s"
  "sys_accepting (set_conn c x s) = sys_accepting s" "sys_pending (set_conn c x s) = sys_pending s" "sys_loaded (set_conn c x s) = sys_loaded s" "sys_conns (set_conn c x s) = (sys_conns s)(c \<mapsto> x)"
  by (simp_all add: set_conn_def)

lemma in_live_conns: "sys_conns s c = Some x \<Longrightarrow> c \<in> live_conns s \<longleftrightarrow> live x"
  by (simp add: live_conns_def)

lemma on_accept_Serve: "on_accept a m peeked = Serve \<Longrightarrow> a < m"
  by (auto simp: on_accept_def split: if_splits)

lemma open_session_live: "open_session tx p = (x, p') \<Longrightarrow> live x"
  by (auto simp: open_session_def live_def split: prod.splits if_splits)

lemma sys_step_counter:
  assumes "sys_step E B m s s'" and ok: "counter_ok m s"
  shows "counter_ok m s'"
  using assms(1)
proof cases
  case (accept current peeked c)
  then have "c \<notin> live_conns s" by (simp add: live_conns_def)
  with accept ok on_accept_Serve [OF accept(3)] show ?thesis
    by (auto simp: counter_ok_def new_conn_def live_def Suc_le_eq)
next
  case (handshake_failed c x)
  then have "c \<in> live_conns s" by (simp add: in_live_conns live_def)
  with handshake_failed ok show ?thesis by (auto simp: counter_ok_def live_def)
next
  case (opened c x tx x' p)
  then have "c \<in> live_conns s" by (simp add: in_live_conns live_def)
  with opened ok show ?thesis by (auto simp: counter_ok_def open_session_live insert_absorb)
next
  case (read c x ev ms l p)
  then have "c \<in> live_conns s" by (simp add: in_live_conns live_def)
  with read ok show ?thesis
    by (auto simp: counter_ok_def insert_absorb live_def phase_after_def split: loop_state.splits)
next
  case (sink_failed c x)
  then show ?thesis using ok
    by (cases "live x") (auto simp: counter_ok_def in_live_conns insert_absorb live_def)
next
  case (channels_closed c x)
  then show ?thesis using ok
    by (cases "live x") (auto simp: counter_ok_def in_live_conns insert_absorb live_def)
next
  case (closed c x)
  then have "c \<in> live_conns s" by (simp add: in_live_conns live_def)
  with closed ok show ?thesis by (auto simp: counter_ok_def live_def insert_absorb)
next
  case (finished c x)
  then have "c \<in> live_conns s" by (simp add: in_live_conns live_def)
  with finished ok show ?thesis by (auto simp: counter_ok_def live_def)
qed (use ok in \<open>auto simp: counter_ok_def\<close>)

lemma counter_ok_init: "counter_ok m (sys_init p)"
  by (simp add: counter_ok_def sys_init_def live_conns_def)

lemma reach_counter: "reach E B m config n s \<Longrightarrow> counter_ok m s"
  by (induction rule: reach.induct) (auto intro: sys_step_counter counter_ok_init)

section \<open>Crashed connections\<close>

definition crashed :: "'w system \<Rightarrow> nat set" where
  "crashed s = {c. \<exists>x. sys_conns s c = Some x \<and> c_phase x \<in> {Crashed, Aborted}}"

text \<open>No step takes a connection out of the crashed phase.\<close>

lemma crashed_mono:
  assumes "sys_step E B m s s'"
  shows "crashed s \<subseteq> crashed s'"
  using assms by cases (auto simp: crashed_def set_conn_def)

lemma crashed_live: "crashed s \<subseteq> live_conns s"
  by (auto simp: crashed_def live_conns_def live_def)

lemma crashed_full:
  assumes "counter_ok m s" and "m \<le> card (crashed s)"
  shows "sys_active s = m" and "sys_loaded s = Some current \<Longrightarrow> m \<le> current" and "live_conns s = crashed s"
proof -
  have fin: "finite (live_conns s)" and act: "sys_active s = card (live_conns s)" "sys_active s \<le> m"
    and load: "\<And>current. sys_loaded s = Some current \<Longrightarrow> sys_active s \<le> current"
    using assms(1) by (auto simp: counter_ok_def)
  have "card (crashed s) \<le> card (live_conns s)" using fin crashed_live by (rule card_mono)
  with assms(2) act show m: "sys_active s = m" by simp
  with load show "sys_loaded s = Some current \<Longrightarrow> m \<le> current" by auto
  show "live_conns s = crashed s"
    by (rule card_seteq [OF fin crashed_live, symmetric]) (use act m assms(2) in simp)
qed

text \<open>Once every slot belongs to a crashed connection, no step adds a connection.\<close>

lemma crashed_full_step:
  assumes "sys_step E B m s s'" and "counter_ok m s" and "m \<le> card (crashed s)"
  shows "dom (sys_conns s') = dom (sys_conns s)"
  using assms(1)
proof cases
  case (accept current peeked c)
  with on_accept_Serve crashed_full(2) [OF assms(2,3)] have False by fastforce
  then show ?thesis ..
qed auto

lemma crashed_full_keeps:
  assumes "sys_step E B m s s'" and "counter_ok m s" and "m \<le> card (crashed s)"
  shows "m \<le> card (crashed s')"
proof -
  have "finite (live_conns s')" using sys_step_counter [OF assms(1,2)] by (simp add: counter_ok_def)
  then have "finite (crashed s')" using crashed_live finite_subset by blast
  from card_mono [OF this crashed_mono [OF assms(1)]] assms(3) show ?thesis by simp
qed

lemma crashed_full_run:
  assumes "(sys_step E B m)\<^sup>*\<^sup>* s s'" and "counter_ok m s" and "m \<le> card (crashed s)"
  shows "counter_ok m s' \<and> m \<le> card (crashed s') \<and> dom (sys_conns s') = dom (sys_conns s)"
  using assms(1)
proof induction
  case base
  with assms(2,3) show ?case by simp
next
  case (step y z)
  then have "counter_ok m y" "m \<le> card (crashed y)" by simp_all
  note keep = this
  from step.IH step.hyps(2) sys_step_counter [OF _ keep(1)] crashed_full_keeps [OF _ keep] crashed_full_step [OF _ keep]
  show ?case by metis
qed

section \<open>Sessions\<close>

text \<open>Connections that have opened a session and not yet unregistered it.\<close>

definition open_conn :: "conn \<Rightarrow> bool" where
  "open_conn x \<longleftrightarrow> c_phase x \<in> {Reading, Draining, Crashed}"

lemma open_phase_after: "open_conn (x\<lparr>c_phase := phase_after l\<rparr>)"
  by (simp add: open_conn_def phase_after_def split: loop_state.split)

definition idle :: "u64 \<Rightarrow> 'w process \<Rightarrow> bool" where
  "idle t p \<longleftrightarrow> v_writers (session_view t p) = Map.empty \<and> v_subscriptions (session_view t p) = Map.empty \<and>
     v_sender (session_view t p) = None"

definition open_sessions :: "'w system \<Rightarrow> u64 set" where
  "open_sessions s = {c_session x | c x. sys_conns s c = Some x \<and> open_conn x}"

text \<open>
  The session part of the invariant: open connections have different sessions, each with its
  channel in \<open>session_senders\<close>; every other session owns nothing; and the writer task of an
  open connection only ends by a failed send.
\<close>

definition sessions_ok :: "'w system \<Rightarrow> bool" where
  "sessions_ok s \<longleftrightarrow>
     (\<forall>c x. sys_conns s c = Some x \<and> open_conn x \<longrightarrow> c_session x < next_session_id (sys_bridge s) \<and>
        br_session_senders (sys_bridge s) (c_session x) \<noteq> None \<and> (c_writer_alive x \<or> c_sink_failed x)) \<and>
     (\<forall>c x c' x'. sys_conns s c = Some x \<and> sys_conns s c' = Some x' \<and> open_conn x \<and> open_conn x' \<and>
        c_session x = c_session x' \<longrightarrow> c = c') \<and>
     (\<forall>c x. sys_conns s c = Some x \<and> \<not> open_conn x \<longrightarrow> \<not> c_writer_alive x) \<and>
     (\<forall>t. t \<notin> open_sessions s \<longrightarrow> idle t (sys_bridge s))"

lemma sessions_okD:
  assumes "sessions_ok s"
  shows "sys_conns s c = Some x \<Longrightarrow> open_conn x \<Longrightarrow> c_session x < next_session_id (sys_bridge s)"
    and "sys_conns s c = Some x \<Longrightarrow> open_conn x \<Longrightarrow> br_session_senders (sys_bridge s) (c_session x) \<noteq> None"
    and "sys_conns s c = Some x \<Longrightarrow> open_conn x \<Longrightarrow> c_writer_alive x \<or> c_sink_failed x"
    and "sys_conns s c = Some x \<Longrightarrow> sys_conns s c' = Some x' \<Longrightarrow> open_conn x \<Longrightarrow> open_conn x' \<Longrightarrow>
      c_session x = c_session x' \<Longrightarrow> c = c'"
    and "sys_conns s c = Some x \<Longrightarrow> \<not> open_conn x \<Longrightarrow> \<not> c_writer_alive x"
    and "t \<notin> open_sessions s \<Longrightarrow> idle t (sys_bridge s)"
  using assms unfolding sessions_ok_def by blast+

lemma open_sessions_simps [simp]:
  "open_sessions (s\<lparr>sys_bridge := p\<rparr>) = open_sessions s" "open_sessions (s\<lparr>sys_active := a\<rparr>) = open_sessions s"
  "open_sessions (s\<lparr>sys_pending := q\<rparr>) = open_sessions s" "open_sessions (s\<lparr>sys_loaded := l\<rparr>) = open_sessions s"
  "open_sessions (s\<lparr>sys_accepting := b\<rparr>) = open_sessions s"
  by (simp_all add: open_sessions_def)

lemma sessions_ok_accepting [simp]: "sessions_ok (s\<lparr>sys_accepting := b\<rparr>) = sessions_ok s"
  by (simp add: sessions_ok_def)

text \<open>Steps that leave every open connection's session, and what the bridge holds, as they are.\<close>

lemma sessions_ok_set_conn:
  assumes ok: "sessions_ok s" and old: "sys_conns s c = old"
    and same: "open_conn x \<longleftrightarrow> (\<exists>y. old = Some y \<and> open_conn y \<and> c_session y = c_session x)"
      "\<not> open_conn x \<Longrightarrow> \<not> (\<exists>y. old = Some y \<and> open_conn y)"
    and task: "open_conn x \<Longrightarrow> c_writer_alive x \<or> c_sink_failed x" "\<not> open_conn x \<Longrightarrow> \<not> c_writer_alive x"
    and keep: "\<And>t. idle t (sys_bridge s) \<Longrightarrow> t \<notin> open_sessions s \<Longrightarrow> idle t p"
      "\<And>t. t \<in> open_sessions s \<Longrightarrow> br_session_senders (sys_bridge s) t \<noteq> None \<Longrightarrow> br_session_senders p t \<noteq> None"
      "next_session_id (sys_bridge s) \<le> next_session_id p"
  shows "sessions_ok (set_conn c x (s\<lparr>sys_bridge := p, sys_active := a, sys_loaded := l\<rparr>))"
proof -
  let ?s = "set_conn c x (s\<lparr>sys_bridge := p, sys_active := a, sys_loaded := l\<rparr>)"
  have ox: "\<exists>d z. sys_conns s d = Some z \<and> open_conn z \<and> c_session z = c_session y \<and> (d' = d)"
    if "sys_conns ?s d' = Some y" "open_conn y" for d' y
    using that same old by (cases "d' = c") auto
  have os: "open_sessions ?s = open_sessions s"
  proof (intro subset_antisym subsetI)
    fix t assume "t \<in> open_sessions ?s"
    then obtain d y where y: "sys_conns ?s d = Some y" "open_conn y" "t = c_session y"
      unfolding open_sessions_def by blast
    from ox [OF y(1,2)] obtain z where "sys_conns s d = Some z" "open_conn z" "t = c_session z"
      using y(3) by auto
    then show "t \<in> open_sessions s" unfolding open_sessions_def by blast
  next
    fix t assume "t \<in> open_sessions s"
    then obtain d z where z: "sys_conns s d = Some z" "open_conn z" "t = c_session z"
      unfolding open_sessions_def by blast
    show "t \<in> open_sessions ?s"
    proof (cases "d = c")
      case True
      with z old same have "open_conn x" "c_session x = t" by auto
      then show ?thesis by (auto simp: open_sessions_def)
    next
      case False
      with z show ?thesis by (auto simp: open_sessions_def)
    qed
  qed
  have mem: "sys_conns s d = Some z \<Longrightarrow> open_conn z \<Longrightarrow> c_session z \<in> open_sessions s" for d z
    by (auto simp: open_sessions_def)
  have "c_session y < next_session_id p \<and> br_session_senders p (c_session y) \<noteq> None \<and> (c_writer_alive y \<or> c_sink_failed y)"
    if "sys_conns ?s d = Some y" "open_conn y" for d y
  proof -
    from ox [OF that] obtain z where z: "sys_conns s d = Some z" "open_conn z" "c_session z = c_session y" by blast
    have "c_writer_alive y \<or> c_sink_failed y"
      using that task(1) sessions_okD(3) [OF ok] by (auto split: if_splits)
    with z mem [OF z(1,2)] keep sessions_okD(1,2) [OF ok z(1,2)] show ?thesis by auto
  qed
  moreover have "d = d'" if "sys_conns ?s d = Some y" "sys_conns ?s d' = Some y'" "open_conn y" "open_conn y'"
    "c_session y = c_session y'" for d y d' y'
    using ox [OF that(1,3)] ox [OF that(2,4)] sessions_okD(4) [OF ok] that(5) by metis
  moreover have "\<not> c_writer_alive y" if "sys_conns ?s d = Some y" "\<not> open_conn y" for d y
    using that task(2) sessions_okD(5) [OF ok] by (auto split: if_splits)
  moreover have "idle t p" if "t \<notin> open_sessions ?s" for t
    using that os keep(1) sessions_okD(6) [OF ok] by simp
  moreover have "sys_bridge ?s = p" by simp
  ultimately show ?thesis unfolding sessions_ok_def by (simp only:) blast
qed

lemma sessions_ok_bridge:
  assumes ok: "sessions_ok s"
    and keep: "\<And>t. session_view t p = session_view t (sys_bridge s)" "next_session_id p = next_session_id (sys_bridge s)"
  shows "sessions_ok (s\<lparr>sys_bridge := p, sys_pending := q, sys_loaded := l\<rparr>)"
proof -
  have "br_session_senders p t = br_session_senders (sys_bridge s) t" for t
    using keep(1) [of t] by (simp add: session_view_def)
  moreover have "idle t p = idle t (sys_bridge s)" for t by (simp add: idle_def keep)
  ultimately show ?thesis using ok keep(2)
    by (simp add: sessions_ok_def open_sessions_def) (elim conjE, intro conjI; assumption)
qed

lemma sessions_ok_opened:
  assumes ok: "sessions_ok s" and c: "sys_conns s c = Some x" "c_phase x = Handshaking"
    and x': "c_phase x' = Reading" "c_session x' = next_session_id (sys_bridge s)" "c_writer_alive x'"
    and reg: "p = register_session (next_session_id (sys_bridge s)) tx
      ((sys_bridge s)\<lparr>next_session_id := next_session_id (sys_bridge s) + 1\<rparr>)"
    and wrap: "next_session_id (sys_bridge s) < next_session_id (sys_bridge s) + 1"
  shows "sessions_ok (set_conn c x' (s\<lparr>sys_bridge := p\<rparr>))"
proof -
  let ?sid = "next_session_id (sys_bridge s)" and ?s = "set_conn c x' (s\<lparr>sys_bridge := p\<rparr>)"
  have x': "c_session x' = ?sid" "open_conn x'" "c_writer_alive x'"
    and p: "p = (sys_bridge s)\<lparr>next_session_id := ?sid + 1, br_session_senders := (br_session_senders (sys_bridge s))(?sid \<mapsto> tx)\<rparr>"
    using x' reg by (auto simp: register_session_def open_conn_def)
  have cases: "d = c \<and> y = x' \<or> d \<noteq> c \<and> sys_conns s d = Some y" if "sys_conns ?s d = Some y" for d y
    using that by (auto split: if_splits)
  have lt: "sys_conns s d = Some y \<Longrightarrow> open_conn y \<Longrightarrow> c_session y < ?sid" for d y
    by (rule sessions_okD(1) [OF ok])
  have os: "open_sessions ?s = insert ?sid (open_sessions s)"
  proof (intro subset_antisym subsetI)
    fix t assume "t \<in> open_sessions ?s"
    then show "t \<in> insert ?sid (open_sessions s)" using cases x' unfolding open_sessions_def by blast
  next
    fix t assume "t \<in> insert ?sid (open_sessions s)"
    then consider "t = ?sid" | d z where "sys_conns s d = Some z" "open_conn z" "t = c_session z"
      unfolding open_sessions_def by blast
    then show "t \<in> open_sessions ?s"
    proof cases
      case 1
      then show ?thesis using x' by (auto simp: open_sessions_def)
    next
      case (2 d z)
      with c have "d \<noteq> c" by (auto simp: open_conn_def)
      with 2 show ?thesis by (auto simp: open_sessions_def)
    qed
  qed
  have "c_session y < ?sid + 1 \<and> br_session_senders p (c_session y) \<noteq> None \<and> (c_writer_alive y \<or> c_sink_failed y)"
    if "sys_conns ?s d = Some y" "open_conn y" for d y
    using cases [OF that(1)]
  proof
    assume "d \<noteq> c \<and> sys_conns s d = Some y"
    then have y: "sys_conns s d = Some y" by simp
    show ?thesis using sessions_okD(1-3) [OF ok y that(2)] wrap less_trans by (auto simp: p)
  qed (use x' wrap in \<open>simp add: p\<close>)
  moreover have "d = d'" if "sys_conns ?s d = Some y" "sys_conns ?s d' = Some y'" "open_conn y" "open_conn y'"
    "c_session y = c_session y'" for d y d' y'
    using cases [OF that(1)] cases [OF that(2)] that(3-5) lt x'(1) sessions_okD(4) [OF ok]
    by (metis order_less_irrefl)
  moreover have "\<not> c_writer_alive y" if "sys_conns ?s d = Some y" "\<not> open_conn y" for d y
    using cases [OF that(1)] that(2) x'(2) sessions_okD(5) [OF ok] by blast
  moreover have "idle t p" if "t \<notin> open_sessions ?s" for t
    using that os sessions_okD(6) [OF ok, of t] by (auto simp: idle_def session_view_def p)
  moreover have "sys_bridge ?s = p" "next_session_id p = ?sid + 1" by (simp_all add: p)
  ultimately show ?thesis unfolding sessions_ok_def by (simp only:) blast
qed

context hash_iteration
begin

lemma sessions_ok_closed:
  assumes ok: "sessions_ok s" and inv: "bridge_inv B k (sys_bridge s)"
    and c: "sys_conns s c = Some x" "open_conn x" "\<not> c_writer_alive x"
  shows "sessions_ok (set_conn c (x\<lparr>c_phase := Returned\<rparr>)
     (s\<lparr>sys_bridge := unregister_session E (c_session x) (sys_bridge s)\<rparr>))" (is "sessions_ok ?s")
proof -
  let ?p = "unregister_session E (c_session x) (sys_bridge s)"
  have closed: "\<not> open_conn (x\<lparr>c_phase := Returned\<rparr>)" by (simp add: open_conn_def)
  have cases: "d = c \<and> y = x\<lparr>c_phase := Returned\<rparr> \<or> d \<noteq> c \<and> sys_conns s d = Some y"
    if "sys_conns ?s d = Some y" for d y
    using that by (auto split: if_splits)
  have other: "sys_conns s d = Some y \<and> c_session y \<noteq> c_session x" if "sys_conns ?s d = Some y" "open_conn y" for d y
    using cases [OF that(1)] that(2) closed sessions_okD(4) [OF ok _ c(1) _ c(2)] by metis
  note un = unregister_session_fields [OF inv]
  have snd: "br_session_senders ?p t = (if t = c_session x then None else br_session_senders (sys_bridge s) t)" for t
    using un(3) [of t "c_session x"] by (simp add: session_view_def)
  have "c_session y < next_session_id ?p \<and> br_session_senders ?p (c_session y) \<noteq> None \<and> (c_writer_alive y \<or> c_sink_failed y)"
    if "sys_conns ?s d = Some y" "open_conn y" for d y
    using other [OF that] sessions_okD(1-3) [OF ok _ that(2)] by (auto simp: snd un(5))
  moreover have "d = d'" if "sys_conns ?s d = Some y" "sys_conns ?s d' = Some y'" "open_conn y" "open_conn y'"
    "c_session y = c_session y'" for d y d' y'
    using other [OF that(1,3)] other [OF that(2,4)] that(3-5) sessions_okD(4) [OF ok] by blast
  moreover have "\<not> c_writer_alive y" if "sys_conns ?s d = Some y" "\<not> open_conn y" for d y
    using cases [OF that(1)] that(2) c(3) sessions_okD(5) [OF ok] by auto
  moreover have "idle t ?p" if "t \<notin> open_sessions ?s" for t
  proof (cases "t = c_session x")
    case True
    then show ?thesis by (simp add: idle_def un)
  next
    case False
    have "t \<notin> open_sessions s"
    proof
      assume "t \<in> open_sessions s"
      then obtain d z where z: "sys_conns s d = Some z" "open_conn z" "t = c_session z"
        unfolding open_sessions_def by blast
      with False c(1) have "d \<noteq> c" by auto
      with z(1) have "sys_conns ?s d = Some z" by simp
      with z that show False unfolding open_sessions_def by blast
    qed
    with False sessions_okD(6) [OF ok] show ?thesis by (simp add: idle_def un)
  qed
  moreover have "sys_bridge ?s = ?p" by simp
  ultimately show ?thesis unfolding sessions_ok_def by (simp only:) blast
qed

text \<open>Every step keeps the bridge invariant and the session invariant.\<close>

lemma sys_step_ok:
  assumes "sys_step E B m s s'" and ok: "sessions_ok s" and inv: "bridge_inv B k (sys_bridge s)"
    and id: "unat (next_session_id (sys_bridge s)) \<le> k" and k: "Suc k < 2 ^ 32"
  shows "sessions_ok s' \<and> bridge_inv B (Suc k) (sys_bridge s') \<and> unat (next_session_id (sys_bridge s')) \<le> Suc k"
  using assms(1)
proof cases
  case load
  with sessions_ok_bridge [OF ok, of "sys_bridge s" "Some (sys_active s)" "sys_pending s"] inv id show ?thesis
    by (auto intro: bridge_inv_mono)
next
  case shutdown
  with ok inv id show ?thesis by (auto intro: bridge_inv_mono)
next
  case (turned_away current peeked)
  with sessions_ok_bridge [OF ok, of "sys_bridge s" None "sys_pending s"] inv id show ?thesis
    by (auto intro: bridge_inv_mono)
next
  case (accept current peeked c)
  with ok inv id show ?thesis
    using sessions_ok_set_conn [OF ok, of c None new_conn "sys_bridge s" None "sys_active s + 1"]
    by (auto simp: new_conn_def open_conn_def intro: bridge_inv_mono)
next
  case (handshake_failed c x)
  moreover have "\<not> c_writer_alive x" using handshake_failed by (intro sessions_okD(5) [OF ok]) (auto simp: open_conn_def)
  ultimately show ?thesis using ok inv id
      sessions_ok_set_conn [OF ok, of c "Some x" "x\<lparr>c_phase := Finished\<rparr>" "sys_bridge s" "sys_loaded s" "sys_active s - 1"]
    by (auto simp: open_conn_def intro: bridge_inv_mono)
next
  case (opened c x tx x' p)
  have k64: "Suc k < 2 ^ LENGTH(64)" using k by simp
  note up = less_add_one_word [OF id k64]
  from opened(4) show ?thesis
  proof (cases rule: open_session_cases)
    case aborted
    with opened inv id up ok show ?thesis
      using sessions_ok_set_conn [OF ok, of c "Some x" x' p "sys_loaded s" "sys_active s"]
      by (auto simp: new_conn_def open_conn_def idle_def session_view_def intro: bridge_inv_mono)
  next
    case session: opened
    with inv id up(1) have "bridge_inv B (Suc k) p" "unat (next_session_id p) \<le> Suc k"
      by (auto simp: register_session_inv register_session_def intro: bridge_inv_mono)
    with opened sessions_ok_opened [OF ok opened(2,3) session up(2)] show ?thesis by simp
  qed
next
  case (read c x ev ms l p)
  have "c_session x \<in> open_sessions s" using read by (auto simp: open_sessions_def open_conn_def)
  have eff: "effect E B (c_session x) (sys_bridge s) p \<and> bridge_inv B (Suc k) p"
    using read(4) process_binary_frame_effect process_binary_frame_inv [OF _ inv k] bridge_inv_mono [OF inv, of "Suc k"]
    by (auto simp: read_iteration_def intro: effect.unchanged split: ws_event.splits prod.splits option.splits)
  then have light_fields: "br_session_senders p = br_session_senders (sys_bridge s)" "next_session_id p = next_session_id (sys_bridge s)"
    by (auto simp: light_def elim!: effect_cases)
  have "idle t p" if "idle t (sys_bridge s)" "t \<notin> open_sessions s" for t
  proof -
    have "t \<noteq> c_session x" using that(2) \<open>c_session x \<in> open_sessions s\<close> by auto
    then have "session_view t p = session_view t (sys_bridge s)" using effect_isolation [OF inv] eff by blast
    with that(1) show ?thesis by (simp add: idle_def)
  qed
  moreover have "c_writer_alive x \<or> c_sink_failed x" using read by (intro sessions_okD(3) [OF ok]) (auto simp: open_conn_def)
  ultimately have "sessions_ok (set_conn c (x\<lparr>c_phase := phase_after l\<rparr>) (s\<lparr>sys_bridge := p, sys_active := sys_active s, sys_loaded := sys_loaded s\<rparr>))"
    using read light_fields
    by (intro sessions_ok_set_conn [OF ok refl]) (auto simp: open_phase_after, auto simp: open_conn_def)
  with read eff id light_fields show ?thesis by simp
next
  case (sink_failed c x)
  have "open_conn x" using sessions_okD(5) [OF ok sink_failed(2)] sink_failed(3) by blast
  with sink_failed ok inv id show ?thesis
    using sessions_ok_set_conn [OF ok, of c "Some x" "x\<lparr>c_writer_alive := False, c_sink_failed := True\<rparr>" "sys_bridge s" "sys_loaded s" "sys_active s"]
    by (auto simp: open_conn_def intro: bridge_inv_mono)
next
  case (channels_closed c x)
  have "open_conn x" using sessions_okD(5) [OF ok channels_closed(2)] channels_closed(3) by blast
  with sessions_okD(2) [OF ok channels_closed(2)] channels_closed(5) show ?thesis
    by (simp add: bridge_channel_closed_def)
next
  case (closed c x)
  then have "open_conn x" by (simp add: open_conn_def)
  with closed sessions_ok_closed [OF ok inv closed(2)] unregister_session_inv [OF inv, of "c_session x"]
    unregister_session_fields(5) [OF inv] id show ?thesis
    by (auto intro: bridge_inv_mono)
next
  case (finished c x)
  moreover have "\<not> c_writer_alive x" using finished by (intro sessions_okD(5) [OF ok]) (auto simp: open_conn_def)
  ultimately show ?thesis using ok inv id
      sessions_ok_set_conn [OF ok, of c "Some x" "x\<lparr>c_phase := Finished\<rparr>" "sys_bridge s" "sys_loaded s" "sys_active s - 1"]
    by (auto simp: open_conn_def intro: bridge_inv_mono)
next
  case (poll_taken pending p)
  then have "p = (sys_bridge s)\<lparr>world := world p\<rparr>"
    by (auto simp: poll_take_def Let_def split: prod.splits)
  then have p: "session_view t p = session_view t (sys_bridge s)" "next_session_id p = next_session_id (sys_bridge s)"
    "bridge_inv B k p = bridge_inv B k (sys_bridge s)" for t
    by (metis light_view light_world light_refl, metis light_def light_world light_refl, metis bridge_inv_world)
  with poll_taken sessions_ok_bridge [OF ok p(1,2), of "sys_loaded s" pending] inv id show ?thesis by (auto intro: bridge_inv_mono)
next
  case poll_sent
  with sessions_ok_bridge [OF ok, of "(sys_bridge s)\<lparr>world := fan_out E B (sys_pending s) (world (sys_bridge s))\<rparr>" "sys_loaded s" "[]"]
    inv id show ?thesis by (auto simp: session_view_def intro: bridge_inv_mono)
qed

lemma reach_ok:
  "reach E B m config n s \<Longrightarrow> Suc (Suc n) < 2 ^ 32 \<Longrightarrow>
   sessions_ok s \<and> bridge_inv B (Suc n) (sys_bridge s) \<and> unat (next_session_id (sys_bridge s)) \<le> Suc n"
proof (induction rule: reach.induct)
  case (start w p w')
  then have "bridge_inv B 1 p" by (intro create_bridge_inv)
  moreover have "next_session_id p = 1" "idle t p" for t
    using start(1) by (auto simp: create_bridge_def idle_def session_view_def wr_new_def rr_new_def Let_def
        split: prod.splits result.splits)
  ultimately show ?case by (simp add: sys_init_def sessions_ok_def)
next
  case (step n s s')
  with sys_step_ok [of B m s s' "Suc n"] show ?case by auto
qed

end

end
