(* ===== verification/Sim_Env.thy ===== *)
theory Sim_Env
  imports System "HOL-Library.Product_Lexorder" "HOL-Library.List_Lexorder" "HOL-Library.Char_ord"
begin

text \<open>
  A concrete environment: an in-memory DDS that hands out entity handles in sequence, accepts
  every call, serves samples from an inbox, and records what was deleted and sent. Hash
  containers are iterated in increasing order. It shows that the assumptions made of the
  outside world can hold, and the examples run on it.
\<close>

datatype sim_event =
    SimDelete dds_entity_t | SimDeleteQos dds_qos
  | SimWrite dds_entity_t SampleWrapper | SimDispose dds_entity_t SampleWrapper
  | SimWriteDispose dds_entity_t SampleWrapper | SimSend Sender bytes

record sim_world =
  sim_next :: nat
  sim_inbox :: "(dds_entity_t \<times> SampleWrapper \<times> SampleInfo) list"
  sim_log :: "sim_event list"

definition sim_start :: sim_world where
  "sim_start = \<lparr>sim_next = 1, sim_inbox = [], sim_log = []\<rparr>"

definition sim_create :: "sim_world \<Rightarrow> dds_entity_t \<times> sim_world" where
  "sim_create w = (of_nat (sim_next w), w\<lparr>sim_next := sim_next w + 1\<rparr>)"

definition sim_record :: "sim_event \<Rightarrow> sim_world \<Rightarrow> sim_world" where
  "sim_record e w = w\<lparr>sim_log := sim_log w @ [e]\<rparr>"

definition sim_take :: "dds_entity_t \<Rightarrow> sim_world \<Rightarrow> (i32 \<times> SampleWrapper \<times> SampleInfo) \<times> sim_world" where
  "sim_take h w =
     (case List.extract (\<lambda>(h', _). h' = h) (sim_inbox w) of
        None \<Rightarrow> ((0, \<lparr>sw_data = None, sw_len = 0, sw_key_data = None, sw_key_len = 0\<rparr>,
                 \<lparr>si_instance_state = 0, si_valid_data = False, si_source_timestamp = 0\<rparr>), w)
      | Some (before, (_, sample, info), after) \<Rightarrow> ((1, sample, info), w\<lparr>sim_inbox := before @ after\<rparr>))"

definition sim_env :: "sim_world environment" where
  "sim_env = \<lparr>
     dds_create_participant = (\<lambda>_. sim_create),
     dds_create_topic_sertype = (\<lambda>_ _ _. sim_create),
     dds_create_qos = (\<lambda>w. (True, w)),
     dds_delete_qos = (\<lambda>q. sim_record (SimDeleteQos q)),
     dds_create_writer = (\<lambda>_ _ _. sim_create),
     dds_create_reader = (\<lambda>_ _ _. sim_create),
     dds_write = (\<lambda>h s w. (0, sim_record (SimWrite h s) w)),
     dds_dispose = (\<lambda>h s w. (0, sim_record (SimDispose h s) w)),
     dds_writedispose = (\<lambda>h s w. (0, sim_record (SimWriteDispose h s) w)),
     dds_take = sim_take,
     dds_delete = (\<lambda>h. sim_record (SimDelete h)),
     try_send = (\<lambda>tx m w. (True, sim_record (SimSend tx m) w)),
     iter_u64 = (\<lambda>_ S. sorted_list_of_set S),
     iter_sub = (\<lambda>_ T. sorted_list_of_set T)\<rparr>"

interpretation sim: hash_iteration sim_env
  by unfold_locales (simp_all add: sim_env_def)

lemma sim_env_fields:
  "dds_create_participant sim_env d = sim_create" "dds_create_topic_sertype sim_env p n st = sim_create"
  "dds_create_qos sim_env w = (True, w)" "dds_delete_qos sim_env q = sim_record (SimDeleteQos q)"
  "dds_create_writer sim_env p t qp = sim_create" "dds_create_reader sim_env p t qp = sim_create"
  "dds_write sim_env h x w = (0, sim_record (SimWrite h x) w)"
  "dds_dispose sim_env h x w = (0, sim_record (SimDispose h x) w)"
  "dds_writedispose sim_env h x w = (0, sim_record (SimWriteDispose h x) w)"
  "dds_take sim_env = sim_take" "dds_delete sim_env h = sim_record (SimDelete h)"
  "try_send sim_env tx m w = (True, sim_record (SimSend tx m) w)"
  "iter_u64 sim_env w S = sorted_list_of_set S" "iter_sub sim_env w T = sorted_list_of_set T"
  by (simp_all add: sim_env_def)

lemmas sim_env_simps = sim_env_fields sim_create_def sim_record_def

text \<open>A bridge freshly started on this environment.\<close>

definition sim_bridge :: "sim_world process" where
  "sim_bridge = \<lparr>br_participant = \<lparr>pt_handle = 1, pt_topics = Map.empty\<rparr>, br_writers = wr_new, br_readers = rr_new,
     br_session_senders = Map.empty, br_config = config_default, next_writer_id = 1, next_reader_id = 1,
     next_session_id = 1, world = sim_start\<lparr>sim_next := 2\<rparr>\<rparr>"

lemma sim_bridge_created: "create_bridge sim_env config_default sim_start = (Ok sim_bridge, sim_start\<lparr>sim_next := 2\<rparr>)"
  by (simp add: sim_env_simps create_bridge_def participant_new_def sim_bridge_def sim_start_def config_default_def
      dds_config_default_def Let_def)

lemma sim_bridge_inv: "bridge_inv B 1 sim_bridge"
  by (rule create_bridge_inv [OF sim_bridge_created])

end
