(* ===== verification/Registry_Props.thy ===== *)
theory Registry_Props
  imports Sim_Env
begin

text \<open>Properties of the topic cache and of the writer and reader registries.\<close>

section \<open>Readers\<close>

lemma rr_subscribe_key:
  assumes "rr_ok B reg" and "rr_readers reg nid = None"
    and "rr_subscribe E B ph t qp q sid nid reg w = (Ok rid, nid', reg', w')"
  shows "rr_key_to_reader reg' (reader_key_new B (tp_topic_name t) (tp_type_name t) q) = Some rid \<and>
    (\<exists>r. rr_readers reg' rid = Some r \<and> sid \<in> r_subscribers r) \<and>
    rr_session_subscriptions reg' (sid, tp_topic_name t, tp_type_name t) = Some rid"
  using assms
proof (cases rule: rr_subscribe_cases)
  case (joined rid' r)
  then have "tp_topic_name (r_topic r) = tp_topic_name t" "tp_type_name (r_topic r) = tp_type_name t"
    by (simp_all add: reader_key_def reader_key_new_def)
  with joined show ?thesis by (simp add: rr_join_def)
next
  case (created r h)
  then show ?thesis by (simp add: rr_add_def)
qed simp

text \<open>
  C17: sessions that subscribe to the same topic and type with the same QoS share one DDS
  reader: after the first subscription returned a reader, the second returns the same one,
  creates nothing (neither the world nor the id counter changes), and both sessions are among
  its subscribers.
\<close>

theorem subscribe_shares_reader:
  assumes "rr_ok B reg" and "rr_readers reg nid = None" and "rr_readers reg1 nid1 = None"
    and first: "rr_subscribe E B ph t qp q sid nid reg w = (Ok rid, nid1, reg1, w1)"
    and second: "rr_subscribe E B ph t' qp' q' sid' nid1 reg1 w1 = (res, nid2, reg2, w2)"
    and "tp_topic_name t' = tp_topic_name t" and "tp_type_name t' = tp_type_name t" and "normalize q' = normalize q"
  shows "res = Ok rid \<and> nid2 = nid1 \<and> w2 = w1 \<and>
    (\<exists>r. rr_readers reg2 rid = Some r \<and> {sid, sid'} \<subseteq> r_subscribers r)"
proof -
  note one = rr_subscribe_key [OF assms(1,2) first]
  have ok1: "rr_ok B reg1" by (rule rr_subscribe_ok [OF assms(1,2) first])
  have key: "reader_key_new B (tp_topic_name t') (tp_type_name t') q' = reader_key_new B (tp_topic_name t) (tp_type_name t) q"
    using assms(6-8) by (metis reader_key_new_normalize)
  from ok1 assms(3) second show ?thesis
  proof (cases rule: rr_subscribe_cases)
    case (joined rid' r)
    with one key have "rid' = rid" by simp
    with joined one show ?thesis by (auto simp: rr_join_def)
  next
    case (created r h)
    with one key show ?thesis by simp
  next
    case (failed h)
    with one key second rr_okD(7) [OF ok1] show ?thesis
      by (auto simp: rr_subscribe_def Let_def split: option.splits)
  qed
qed

definition sim_topic :: Topic where
  "sim_topic = \<lparr>tp_handle = 2, tp_topic_name = ''chat'', tp_type_name = ''Msg'', tp_is_keyed = False,
     tp_key_descriptors = \<lparr>kd_keys = []\<rparr>\<rparr>"

lemma sim_first_subscribe:
  "\<exists>reg1 w1. rr_subscribe sim_env documented_bytes 1 sim_topic None q sid nid rr_new w = (Ok nid, nid + 1, reg1, w1) \<and>
     rr_readers reg1 = [nid \<mapsto> \<lparr>r_reader_id = nid, r_handle = of_nat (sim_next w), r_topic = sim_topic,
       r_qos_normalized = normalize q, r_subscribers = {sid}\<rparr>]"
  if "sim_next w < 2 ^ 31"
proof -
  have "unat (of_nat (sim_next w) :: i32) = sim_next w"
    using that by (intro unat_of_nat_u32) simp
  then have "0 \<le> sint (of_nat (sim_next w) :: i32)"
    using that by (simp add: sint_uint uint_nat signed_take_bit_int_eq_self)
  then show ?thesis
    by (simp add: rr_subscribe_def rr_subscribe_new_def dds_reader_new_def rr_new_def sim_env_simps Let_def)
qed

theorem subscribe_shares_reader_witness:
  "\<exists>reg1 w1 reg2. rr_subscribe sim_env documented_bytes 1 sim_topic None \<lparr>policies = []\<rparr> 7 1 rr_new sim_start = (Ok 1, 2, reg1, w1) \<and>
     rr_subscribe sim_env documented_bytes 1 sim_topic None \<lparr>policies = [Durability 0]\<rparr> 8 2 reg1 w1 = (Ok 1, 2, reg2, w1)"
proof -
  obtain reg1 w1 where first: "rr_subscribe sim_env documented_bytes 1 sim_topic None \<lparr>policies = []\<rparr> 7 1 rr_new sim_start =
      (Ok 1, 2, reg1, w1)" and "rr_readers reg1 2 = None"
    using sim_first_subscribe [of sim_start "\<lparr>policies = []\<rparr>" 7 1] by (auto simp: sim_start_def)
  moreover obtain res nid2 reg2 w2 where second:
    "rr_subscribe sim_env documented_bytes 1 sim_topic None \<lparr>policies = [Durability 0]\<rparr> 8 2 reg1 w1 = (res, nid2, reg2, w2)"
    by (metis prod_cases4)
  moreover have "res = Ok 1 \<and> nid2 = 2 \<and> w2 = w1 \<and>
      (\<exists>r. rr_readers reg2 1 = Some r \<and> {7, 8} \<subseteq> r_subscribers r)"
    using calculation by (intro subscribe_shares_reader [OF rr_new_ok _ _ first second])
      (simp_all add: rr_new_def normalize_def)
  ultimately show ?thesis by auto
qed

text \<open>
  C18: unsubscribing removes the session from its reader; the last subscriber takes the reader
  with it: the reader leaves both maps and its DDS entity is deleted, exactly then.
\<close>

theorem unsubscribe_last_deletes:
  assumes "rr_ok B reg" and "rr_session_subscriptions reg (sid, n, ty) = Some rid" and "rr_readers reg rid = Some r"
  shows "\<exists>reg' w'. rr_unsubscribe E n ty sid reg w = (True, reg', w') \<and>
    rr_session_subscriptions reg' (sid, n, ty) = None \<and>
    (if r_subscribers r = {sid}
     then rr_readers reg' rid = None \<and> rr_key_to_reader reg' (reader_key B r) = None \<and> w' = dds_delete E (r_handle r) w
     else rr_readers reg' rid = Some (r\<lparr>r_subscribers := r_subscribers r - {sid}\<rparr>) \<and>
       rr_key_to_reader reg' = rr_key_to_reader reg \<and> w' = w)"
proof -
  obtain r' where r': "rr_readers reg rid = Some r'" "sid \<in> r_subscribers r'"
    and un: "rr_unsubscribe E n ty sid reg w = (True, rr_left sid {rid} {(sid, n, ty)} reg,
       if leave sid r' = None then drop_reader E r' w else w)"
    by (rule rr_unsubscribe_left [OF assms(1,2)])
  with assms(3) have r: "r' = r" "sid \<in> r_subscribers r" by simp_all
  have key: "rr_key_to_reader reg (reader_key B r) = Some rid" by (rule rr_okD(6) [OF assms(1,3)])
  show ?thesis
  proof (cases "r_subscribers r = {sid}")
    case True
    then have "leave sid r = None" by (simp add: leave_def)
    with True un r key assms(3) show ?thesis
      by (simp add: rr_left_def drop_reader_def map_retain_def)
  next
    case False
    with r have "leave sid r = Some (r\<lparr>r_subscribers := r_subscribers r - {sid}\<rparr>)" by (auto simp: leave_def)
    moreover from this assms(3) have "map_retain (\<lambda>x. \<not> (x \<in> {rid} \<and> Option.bind (rr_readers reg x) (leave sid) = None))
        (rr_key_to_reader reg) = rr_key_to_reader reg"
      by (auto simp: map_retain_def fun_eq_iff split: option.splits)
    ultimately show ?thesis using False un r assms(3) by (simp add: rr_left_def)
  qed
qed

theorem unsubscribe_last_deletes_witness:
  "\<exists>reg1 w1 reg2. rr_subscribe sim_env documented_bytes 1 sim_topic None \<lparr>policies = []\<rparr> 7 1 rr_new sim_start = (Ok 1, 2, reg1, w1) \<and>
     rr_unsubscribe sim_env ''chat'' ''Msg'' 7 reg1 w1 = (True, reg2, sim_record (SimDelete 1) w1) \<and> rr_readers reg2 1 = None"
proof -
  obtain reg1 w1 where first: "rr_subscribe sim_env documented_bytes 1 sim_topic None \<lparr>policies = []\<rparr> 7 1 rr_new sim_start =
      (Ok 1, 2, reg1, w1)"
    and r: "rr_readers reg1 1 = Some \<lparr>r_reader_id = 1, r_handle = 1, r_topic = sim_topic,
       r_qos_normalized = normalize \<lparr>policies = []\<rparr>, r_subscribers = {7}\<rparr>"
    using sim_first_subscribe [of sim_start "\<lparr>policies = []\<rparr>" 7 1] by (auto simp: sim_start_def)
  have none: "rr_readers rr_new 1 = None" by (simp add: rr_new_def)
  note ok = rr_subscribe_ok [OF rr_new_ok none first]
  have "rr_session_subscriptions reg1 (7, ''chat'', ''Msg'') = Some 1"
    using rr_subscribe_key [OF rr_new_ok none first] by (simp add: sim_topic_def)
  from unsubscribe_last_deletes [OF ok this r, of sim_env w1] first show ?thesis
    by (auto simp: sim_env_def)
qed

lemma resubscribe_orphans:
  assumes "rr_ok B reg" and "rr_readers reg nid = None"
    and old: "rr_session_subscriptions reg (sid, tp_topic_name t, tp_type_name t) = Some rid"
    and oldr: "rr_readers reg rid = Some r"
    and other: "reader_key B r \<noteq> reader_key_new B (tp_topic_name t) (tp_type_name t) q"
    and sub: "rr_subscribe E B ph t qp q sid nid reg w = (Ok rid', nid', reg', w')"
  shows "rr_readers reg' rid = Some r" and "sid \<in> r_subscribers r" and "rid \<notin> rr_recorded reg' sid"
proof -
  have ok': "rr_ok B reg'" by (rule rr_subscribe_ok [OF assms(1,2) sub])
  from rr_okD(8) [OF assms(1) old] oldr have r: "sid \<in> r_subscribers r"
    "tp_topic_name (r_topic r) = tp_topic_name t" "tp_type_name (r_topic r) = tp_type_name t" by auto
  have neq: "rid' \<noteq> rid" and r': "rr_readers reg' rid = Some r"
    using assms(1,2) sub
    by (cases rule: rr_subscribe_cases; use oldr other assms(2) in \<open>auto simp: rr_join_def rr_add_def\<close>)+
  have new: "rr_session_subscriptions reg' (sid, tp_topic_name t, tp_type_name t) = Some rid'"
    using rr_subscribe_key [OF assms(1,2) sub] by blast
  show "rid \<notin> rr_recorded reg' sid"
  proof
    assume "rid \<in> rr_recorded reg' sid"
    then obtain n ty where s: "rr_session_subscriptions reg' (sid, n, ty) = Some rid" by (auto simp: rr_recorded_def)
    with rr_okD(8) [OF ok' s] r' r have "n = tp_topic_name t" "ty = tp_type_name t" by auto
    with s new neq show False by simp
  qed
  show "rr_readers reg' rid = Some r" "sid \<in> r_subscribers r" by (rule r' r(1))+
qed

text \<open>
  C14: a session that subscribes again to the same topic and type with a QoS that has another
  reader key loses track of its first reader: it is still among the reader's subscribers, but none of
  its recorded subscriptions leads there any more. If it then disconnects, the first reader is left
  as it was: still in the registry, still with the departed session among its subscribers, while
  no recorded subscription of that session remains.
\<close>

theorem resubscribe_leaks_reader:
  assumes "hash_iteration E" and "rr_ok B reg" and "rr_readers reg nid = None"
    and old: "rr_session_subscriptions reg (sid, tp_topic_name t, tp_type_name t) = Some rid"
    and oldr: "rr_readers reg rid = Some r"
    and other: "reader_key B r \<noteq> reader_key_new B (tp_topic_name t) (tp_type_name t) q"
    and sub: "rr_subscribe E B ph t qp q sid nid reg w = (Ok rid', nid', reg', w')"
  shows "rr_readers reg' rid = Some r \<and> sid \<in> r_subscribers r \<and>
    (\<forall>n ty. rr_session_subscriptions reg' (sid, n, ty) \<noteq> Some rid) \<and>
    rr_readers (fst (rr_remove_session E sid reg' w')) rid = Some r \<and>
    (\<forall>n ty. rr_session_subscriptions (fst (rr_remove_session E sid reg' w')) (sid, n, ty) = None)"
  using resubscribe_orphans [OF assms(2-7)]
    hash_iteration.rr_remove_session_left [OF assms(1) rr_subscribe_ok [OF assms(2,3) sub], of sid w']
  by (auto simp: rr_left_def rr_recorded_def)

theorem resubscribe_leaks_reader_witness:
  "\<exists>reg1 w1 reg2 w2 r'. rr_subscribe sim_env documented_bytes 1 sim_topic None \<lparr>policies = []\<rparr> 7 1 rr_new sim_start = (Ok 1, 2, reg1, w1) \<and>
     rr_subscribe sim_env documented_bytes 1 sim_topic None \<lparr>policies = [Durability 1]\<rparr> 7 2 reg1 w1 = (Ok 2, 3, reg2, w2) \<and>
     rr_readers (fst (rr_remove_session sim_env 7 reg2 w2)) 1 = Some r' \<and> 7 \<in> r_subscribers r'"
proof -
  let ?q = "\<lparr>policies = [Durability 1]\<rparr>"
  obtain reg1 w1 where first: "rr_subscribe sim_env documented_bytes 1 sim_topic None \<lparr>policies = []\<rparr> 7 1 rr_new sim_start =
      (Ok 1, 2, reg1, w1)"
    and r: "rr_readers reg1 = [1 \<mapsto> \<lparr>r_reader_id = 1, r_handle = 1, r_topic = sim_topic,
       r_qos_normalized = normalize \<lparr>policies = []\<rparr>, r_subscribers = {7}\<rparr>]"
    and w1: "sim_next w1 = 2"
    by (simp add: rr_subscribe_def rr_subscribe_new_def dds_reader_new_def rr_new_def sim_env_simps Let_def sim_start_def)
  have none: "rr_readers rr_new 1 = None" by (simp add: rr_new_def)
  note ok = rr_subscribe_ok [OF rr_new_ok none first]
  have key: "reader_key documented_bytes (the (rr_readers reg1 1)) \<noteq>
      reader_key_new documented_bytes (tp_topic_name sim_topic) (tp_type_name sim_topic) ?q"
    by (simp add: r reader_key_def reader_key_new_def doc_bytes.serialize_qos_enc enc_qos_def normalize_def Let_def)
  have "rr_key_to_reader reg1 (reader_key_new documented_bytes (tp_topic_name sim_topic) (tp_type_name sim_topic) ?q) = None"
    using rr_okD(7) [OF ok] key r by (metis (no_types, lifting) fun_upd_apply not_None_eq option.sel)
  then obtain reg2 w2 where second: "rr_subscribe sim_env documented_bytes 1 sim_topic None ?q 7 2 reg1 w1 = (Ok 2, 3, reg2, w2)"
    using w1 by (simp add: rr_subscribe_def rr_subscribe_new_def dds_reader_new_def sim_env_simps Let_def)
  have old: "rr_session_subscriptions reg1 (7, tp_topic_name sim_topic, tp_type_name sim_topic) = Some 1"
    using rr_subscribe_key [OF rr_new_ok none first] by blast
  have r1: "rr_readers reg1 1 = Some \<lparr>r_reader_id = 1, r_handle = 1, r_topic = sim_topic,
       r_qos_normalized = normalize \<lparr>policies = []\<rparr>, r_subscribers = {7}\<rparr>" and "rr_readers reg1 2 = None"
    by (simp_all add: r)
  from resubscribe_leaks_reader [OF sim.hash_iteration_axioms ok this(2) old r1 _ second] key r1
  have "\<exists>r'. rr_readers (fst (rr_remove_session sim_env 7 reg2 w2)) 1 = Some r' \<and> 7 \<in> r_subscribers r'" by simp
  with first second show ?thesis by blast
qed

context bytes_laws
begin

lemma reader_key_eq_iff:
  assumes "qos_ok q" and "qos_ok q'"
  shows "reader_key_new B n ty q = reader_key_new B n' ty' q' \<longleftrightarrow>
    n = n' \<and> ty = ty' \<and> policies (normalize q) = policies (normalize q')"
proof -
  have "enc_qos (normalize q) = enc_qos (normalize q') \<longleftrightarrow> normalize q = normalize q'"
    using qos_codec.enc_inj [of "normalize q" "normalize q'" "[]" "[]"] assms by auto
  then show ?thesis
    by (auto simp: reader_key_new_def serialize_qos_enc Let_def QosSet.equality)
qed

end

text \<open>
  Comparing in one direction and the lengths is enough because no policy occurs twice.
\<close>

lemma normalized_eq_exact:
  assumes "qos_ok a" and "qos_ok b"
  shows "normalized_eq a b \<longleftrightarrow>
    {p \<in> set (policies a). \<not> is_default p} = {p \<in> set (policies b). \<not> is_default p}"
  using normalized_eq_set [OF assms] by (simp add: normalize_def)

text \<open>
  C37: two QoS sets that the parser accepts compare equal, where writers are looked up, exactly
  if they have the same policies, explicitly given default values not counting. Two subscriptions
  use the same reader key exactly if topic and type agree and the non-default policies agree as
  lists: unlike in the comparison, the order in which a client lists its policies matters.
\<close>

theorem reader_key_exact:
  assumes "bytes_laws B" and "qos_ok q" and "qos_ok q'"
  shows "(normalized_eq q q' \<longleftrightarrow>
      {p \<in> set (policies q). \<not> is_default p} = {p \<in> set (policies q'). \<not> is_default p}) \<and>
    (reader_key_new B n ty q = reader_key_new B n' ty' q' \<longleftrightarrow>
      n = n' \<and> ty = ty' \<and> policies (normalize q) = policies (normalize q'))"
  using bytes_laws.reader_key_eq_iff [OF assms] normalized_eq_exact [OF assms(2,3)] by blast

theorem reader_key_exact_witness:
  "normalized_eq \<lparr>policies = [Durability 1, Deadline 5]\<rparr> \<lparr>policies = [Deadline 5, Ownership 0, Durability 1]\<rparr> \<and>
   reader_key_new documented_bytes ''t'' ''T'' \<lparr>policies = [Durability 1, Deadline 5]\<rparr> \<noteq>
   reader_key_new documented_bytes ''t'' ''T'' \<lparr>policies = [Deadline 5, Ownership 0, Durability 1]\<rparr>"
proof -
  let ?q = "\<lparr>policies = [Durability 1, Deadline 5]\<rparr>" and ?q' = "\<lparr>policies = [Deadline 5, Ownership 0, Durability 1]\<rparr>"
  have ok: "qos_ok ?q" "qos_ok ?q'" by (simp_all add: qos_ok_def)
  from reader_key_exact [OF doc_bytes.bytes_laws_axioms ok] show ?thesis by (auto simp: normalize_def)
qed

section \<open>Writers\<close>

text \<open>
  C24: looking up a session's writer for a topic through the per-session index is the same as
  searching all writers: a hit is a writer of that session with the topic, type and an equal
  QoS, and a miss means that no such writer exists.
\<close>

theorem find_by_topic_exact:
  assumes "wr_ok reg"
  shows "case wr_find_by_topic sid n ty q reg of
      Some wr \<Rightarrow> wr_writers reg (w_writer_id wr) = Some (wr, sid) \<and> writer_matches n ty q wr
    | None \<Rightarrow> \<not> (\<exists>wid wr. wr_writers reg wid = Some (wr, sid) \<and> writer_matches n ty q wr)"
  using wr_find_by_topic_Some [OF assms] wr_find_by_topic_None [OF assms] by (auto split: option.split)

definition sim_writer :: DdsWriter where
  "sim_writer = \<lparr>w_handle = 3, w_writer_id = 1, w_topic = sim_topic, w_qos_normalized = \<lparr>policies = []\<rparr>\<rparr>"

definition sim_writers :: WriterRegistry where
  "sim_writers = fst (snd (wr_register sim_env sim_writer 7 wr_new sim_start))"

lemma sim_writers_ok: "wr_ok sim_writers" and sim_writers_map: "wr_writers sim_writers = [1 \<mapsto> (sim_writer, 7)]"
proof -
  obtain wid reg w where reg: "wr_register sim_env sim_writer 7 wr_new sim_start = (wid, reg, w)" by (metis prod_cases3)
  then have "sim_writers = reg" by (simp add: sim_writers_def)
  moreover have "wr_ok reg" by (rule wr_register_ok [OF wr_new_ok reg]) (simp add: wr_new_def)
  moreover have "wr_writers reg = [1 \<mapsto> (sim_writer, 7)]"
    using wr_register_simps(2) [OF reg] by (simp add: wr_new_def sim_writer_def)
  ultimately show "wr_ok sim_writers" "wr_writers sim_writers = [1 \<mapsto> (sim_writer, 7)]" by simp_all
qed

theorem find_by_topic_exact_witness:
  "wr_find_by_topic 7 ''chat'' ''Msg'' \<lparr>policies = []\<rparr> sim_writers = Some sim_writer"
proof -
  have "writer_matches ''chat'' ''Msg'' \<lparr>policies = []\<rparr> sim_writer"
    by (simp add: writer_matches_def sim_writer_def sim_topic_def)
  with find_by_topic_exact [OF sim_writers_ok, of 7 "''chat''" "''Msg''" "\<lparr>policies = []\<rparr>"] show ?thesis
    by (auto simp: sim_writers_map split: option.splits if_splits)
qed

text \<open>
  C25: when a session goes, exactly its writers go: each is removed and its DDS entity deleted
  exactly once, and every other session keeps its writers.
\<close>

theorem remove_session_deletes_writers:
  assumes "wr_ok reg"
  shows "wr_writers (fst (wr_remove_session E sid reg w)) =
      (\<lambda>wid. case wr_writers reg wid of Some (wr, owner) \<Rightarrow> if owner = sid then None else Some (wr, owner) | None \<Rightarrow> None) \<and>
    (\<exists>ids. distinct ids \<and> set ids = {wid. \<exists>wr. wr_writers reg wid = Some (wr, sid)} \<and>
      snd (wr_remove_session E sid reg w) =
        fold (\<lambda>wid. dds_delete E (w_handle (fst (the (wr_writers reg wid))))) ids w)"
proof
  show "wr_writers (fst (wr_remove_session E sid reg w)) =
      (\<lambda>wid. case wr_writers reg wid of Some (wr, owner) \<Rightarrow> if owner = sid then None else Some (wr, owner) | None \<Rightarrow> None)"
    unfolding wr_remove_session_simps(1) [OF assms] wr_owned_def
    by (auto simp: restrict_map_def fun_eq_iff split: option.splits)
  have ids: "distinct (wr_ids reg sid)" "set (wr_ids reg sid) = {wid. \<exists>wr. wr_writers reg wid = Some (wr, sid)}"
    using wr_okD(3,4) [OF assms] by (simp_all add: wr_owned_def)
  then have "fold (\<lambda>wid. drop_entry E (wr_writers reg wid)) (wr_ids reg sid) w =
      fold (\<lambda>wid. dds_delete E (w_handle (fst (the (wr_writers reg wid))))) (wr_ids reg sid) w"
    by (intro fold_cong) (auto simp: drop_entry_def drop_writer_def)
  with ids wr_remove_session_simps(3) [OF assms, of E sid w]
  show "\<exists>ids. distinct ids \<and> set ids = {wid. \<exists>wr. wr_writers reg wid = Some (wr, sid)} \<and>
      snd (wr_remove_session E sid reg w) =
        fold (\<lambda>wid. dds_delete E (w_handle (fst (the (wr_writers reg wid))))) ids w"
    by (intro exI [of _ "wr_ids reg sid"]) simp
qed

theorem remove_session_deletes_writers_witness:
  "wr_writers (fst (wr_remove_session sim_env 7 sim_writers sim_start)) = Map.empty"
  using remove_session_deletes_writers [OF sim_writers_ok, of sim_env 7 sim_start]
  by (auto simp: sim_writers_map fun_eq_iff split: if_splits)

end
