(* ===== verification/Sim_Run.thy ===== *)
theory Sim_Run
  imports Registry_Props
begin

text \<open>
  Concrete runs on the environment of theory \<open>Sim_Env\<close>, from the start of the server: a client
  connects and, in one run, subscribes twice to the same topic with different QoS. The examples
  of the properties start from their states.
\<close>

section \<open>A connection\<close>

lemma sim_reach_accepted:
  assumes "0 < m"
  shows "reach sim_env documented_bytes m config_default 2 (set_conn 0 new_conn ((sys_init sim_bridge)\<lparr>sys_active := 1\<rparr>))"
proof -
  let ?s0 = "sys_init sim_bridge" and ?s1 = "(sys_init sim_bridge)\<lparr>sys_loaded := Some (sys_active (sys_init sim_bridge))\<rparr>"
  have "sys_step sim_env documented_bytes m ?s0 ?s1"
    by (rule sys_step.load) (simp_all add: sys_init_def)
  note r1 = reach.step [OF reach.start [OF sim_bridge_created] this]
  have "sys_step sim_env documented_bytes m ?s1
      (set_conn 0 new_conn (?s1\<lparr>sys_active := sys_active ?s1 + 1, sys_loaded := None\<rparr>))"
    by (rule sys_step.accept [where peeked = None]) (use assms in \<open>simp_all add: on_accept_def sys_init_def not_le\<close>)
  note r2 = reach.step [OF r1 this]
  then show ?thesis by (simp add: sys_init_def set_conn_def numeral_2_eq_2)
qed

definition sim_conn :: conn where
  "sim_conn = \<lparr>c_phase = Reading, c_session = 1, c_max_payload = DEFAULT_MAX_PAYLOAD_SIZE,
     c_writer_alive = True, c_sink_failed = False\<rparr>"

definition sim_opened :: "sim_world system" where
  "sim_opened = (sys_init sim_bridge)\<lparr>sys_active := 1,
     sys_bridge := register_session 1 9 (sim_bridge\<lparr>next_session_id := 2\<rparr>), sys_conns := [0 \<mapsto> sim_conn]\<rparr>"

lemma sim_reach_opened:
  assumes "0 < m"
  shows "reach sim_env documented_bytes m config_default 3 sim_opened"
proof -
  let ?s1 = "set_conn 0 new_conn ((sys_init sim_bridge)\<lparr>sys_active := 1\<rparr>)"
  have "sys_step sim_env documented_bytes m ?s1 (set_conn 0 sim_conn
      (?s1\<lparr>sys_bridge := register_session 1 9 (sim_bridge\<lparr>next_session_id := 2\<rparr>)\<rparr>))"
    by (rule sys_step.opened [where x = new_conn and tx = 9])
      (simp_all add: new_conn_def open_session_def take_session_id_def sys_init_def sim_bridge_def sim_conn_def
        config_default_def bridge_config_default_def)
  note r3 = reach.step [OF sim_reach_accepted [OF assms] this]
  have "Suc 2 = 3" by simp
  with r3 show ?thesis by (simp add: sim_opened_def set_conn_def sys_init_def)
qed

text \<open>The client closes its side and the writer task fails to send.\<close>

definition sim_hang_up :: "'w process \<Rightarrow> 'w system \<Rightarrow> 'w system" where
  "sim_hang_up p s = set_conn 0 (sim_conn\<lparr>c_phase := Draining, c_writer_alive := False, c_sink_failed := True\<rparr>) (s\<lparr>sys_bridge := p\<rparr>)"

lemma sim_reach_hang_up:
  assumes "reach sim_env documented_bytes m config_default n s" and "sys_conns s 0 = Some sim_conn"
  shows "reach sim_env documented_bytes m config_default (Suc (Suc n)) (sim_hang_up (sys_bridge s) s)"
proof -
  let ?s4 = "set_conn 0 (sim_conn\<lparr>c_phase := phase_after Stop\<rparr>) (s\<lparr>sys_bridge := sys_bridge s\<rparr>)"
  let ?s5 = "set_conn 0 ((sim_conn\<lparr>c_phase := phase_after Stop\<rparr>)\<lparr>c_writer_alive := False, c_sink_failed := True\<rparr>) ?s4"
  have "sys_step sim_env documented_bytes m s ?s4"
    by (rule sys_step.read [where x = sim_conn and ev = WsClose and ms = "[]"])
      (simp_all add: read_iteration_def sim_conn_def assms(2))
  note r4 = reach.step [OF assms(1) this]
  have "sys_step sim_env documented_bytes m ?s4 ?s5"
    by (rule sys_step.sink_failed) (simp_all add: sim_conn_def)
  note r5 = reach.step [OF r4 this]
  have "?s5 = sim_hang_up (sys_bridge s) s"
    by (simp add: sim_hang_up_def sim_conn_def set_conn_def phase_after_def)
  with r5 show ?thesis by simp
qed

section \<open>Frames\<close>

lemma process_built_frame:
  assumes "req \<noteq> 0" and "length payload \<le> mp" and "length payload < 2 ^ 32"
  shows "process_binary_frame E B sid (build_message mt req payload) mp s = handle_message E B sid mt req payload s"
proof -
  have "slice (build_message mt req payload) HEADER_SIZE (HEADER_SIZE + length payload) = (Ok payload :: (ProtocolError, bytes) result)"
    by (simp add: slice_def drop_build_message length_build_message)
  with assms show ?thesis
    by (simp add: process_binary_frame_def length_build_message parse_build_message validate_client_header_def Let_def)
qed

text \<open>A frame of the client is a step to the state its handler leaves.\<close>

lemma sim_reach_frame:
  assumes "reach sim_env documented_bytes m config_default n s" and "sys_conns s 0 = Some sim_conn"
    and "handle_message sim_env documented_bytes 1 mt req payload (sys_bridge s) = (Some ms, p)"
    and "req \<noteq> 0" and "length payload < 1000"
  shows "reach sim_env documented_bytes m config_default (Suc n) (s\<lparr>sys_bridge := p\<rparr>)"
    and "read_iteration sim_env documented_bytes 1 DEFAULT_MAX_PAYLOAD_SIZE (WsBinary (build_message mt req payload)) (sys_bridge s) =
      (ms, Continue, p)"
proof -
  have "process_binary_frame sim_env documented_bytes 1 (build_message mt req payload) DEFAULT_MAX_PAYLOAD_SIZE (sys_bridge s) = (Some ms, p)"
    using assms(3-5) by (subst process_built_frame) (simp_all add: DEFAULT_MAX_PAYLOAD_SIZE_def)
  then show run: "read_iteration sim_env documented_bytes 1 DEFAULT_MAX_PAYLOAD_SIZE (WsBinary (build_message mt req payload)) (sys_bridge s) =
      (ms, Continue, p)"
    by (simp add: read_iteration_def)
  have "sys_step sim_env documented_bytes m s (set_conn 0 (sim_conn\<lparr>c_phase := phase_after Continue\<rparr>) (s\<lparr>sys_bridge := p\<rparr>))"
    by (rule sys_step.read) (use assms(2) run in \<open>simp_all add: sim_conn_def\<close>)
  moreover have "set_conn 0 (sim_conn\<lparr>c_phase := phase_after Continue\<rparr>) (s\<lparr>sys_bridge := p\<rparr>) = s\<lparr>sys_bridge := p\<rparr>"
  proof -
    have "(sys_conns s)(0 \<mapsto> sim_conn) = sys_conns s" using assms(2) by (simp add: fun_upd_idem)
    moreover have "sim_conn\<lparr>c_phase := phase_after Continue\<rparr> = sim_conn" by (simp add: sim_conn_def phase_after_def)
    ultimately show ?thesis by (simp add: set_conn_def)
  qed
  ultimately show "reach sim_env documented_bytes m config_default (Suc n) (s\<lparr>sys_bridge := p\<rparr>)"
    using reach.step [OF assms(1)] by simp
qed

section \<open>Subscriptions\<close>

lemma handle_subscribe_run:
  assumes "parse_subscribe B payload = Ok p"
    and "get_topic E (sub_topic_name p) (sub_type_name p) (sub_is_keyed p) (sub_key_descriptors p) s = (Ok t, s1)"
    and "make_qos E (sub_qos p) (world s1) = (h, w1)"
    and "rr_subscribe E B (pt_handle (br_participant s1)) t h (sub_qos p) sid (next_reader_id s1) (br_readers s1) w1 =
      (Ok rid, nid, reg, w2)"
  shows "handle_message E B sid MsgType.Subscribe req payload s =
    (Some [build_message OkMsg req []], s1\<lparr>next_reader_id := nid, br_readers := reg, world := drop_qos_handle E h w2\<rparr>)"
  using assms by (simp add: handle_message_def dispatch_def handle_subscribe_def bind_st_def lift_st_def map_err_st_def
      with_qos_def subscribe_reader_def return_st_def)

definition sim_sub :: "QosPolicy list \<Rightarrow> SubscribePayload" where
  "sim_sub ps = \<lparr>sub_topic_name = ''chat'', sub_type_name = ''Msg'', sub_qos = \<lparr>policies = ps\<rparr>,
     sub_is_keyed = False, sub_key_descriptors = \<lparr>kd_keys = []\<rparr>\<rparr>"

abbreviation sim_sub_bytes :: "QosPolicy list \<Rightarrow> bytes" where
  "sim_sub_bytes ps \<equiv> serialize_subscribe documented_bytes (sim_sub ps)"

lemma sim_sub_parses: "qos_ok \<lparr>policies = ps\<rparr> \<Longrightarrow> parse_subscribe documented_bytes (sim_sub_bytes ps) = Ok (sim_sub ps)"
  by (rule doc_bytes.subscribe_msg.mpar_mser) (simp add: subscribe_ok_def sim_sub_def string_ok_ascii key_descriptors_ok_def)

lemma length_sim_sub: "length (sim_sub_bytes []) < 1000" "length (sim_sub_bytes [Durability d]) < 1000"
  by (simp_all add: doc_bytes.subscribe_msg.mser_enc enc_subscribe_def sim_sub_def enc_qos_def enc_bool_def
      enc_key_descriptors_def enc_policy_def)

text \<open>The first SUBSCRIBE creates the topic and reader 1.\<close>

lemma sim_subscribes:
  obtains p where "handle_message sim_env documented_bytes 1 MsgType.Subscribe 3 (sim_sub_bytes []) (sys_bridge sim_opened) =
      (Some [build_message OkMsg 3 []], p)"
    and "pt_topics (br_participant p) (''chat'', ''Msg'') = Some sim_topic" and "next_reader_id p = 2" and "sim_next (world p) = 4"
    and "rr_readers (br_readers p) = [1 \<mapsto> \<lparr>r_reader_id = 1, r_handle = 3, r_topic = sim_topic,
       r_qos_normalized = normalize \<lparr>policies = []\<rparr>, r_subscribers = {1}\<rparr>]"
    and "rr_session_subscriptions (br_readers p) = [(1, ''chat'', ''Msg'') \<mapsto> 1]"
    and "rr_ok documented_bytes (br_readers p)" and "rr_tracked (br_readers p)"
proof -
  let ?s = "sys_bridge sim_opened"
  obtain s1 where t: "get_topic sim_env ''chat'' ''Msg'' False \<lparr>kd_keys = []\<rparr> ?s = (Ok sim_topic, s1)"
    and s1: "pt_handle (br_participant s1) = 1" "pt_topics (br_participant s1) (''chat'', ''Msg'') = Some sim_topic"
      "next_reader_id s1 = 1" "br_readers s1 = rr_new" "sim_next (world s1) = 3"
    by (simp add: get_topic_def get_or_create_topic_def create_opaque_sertype_def cstring_new_def as_bytes_def sim_opened_def
        register_session_def sim_bridge_def sim_start_def sim_env_simps sim_topic_def Let_def)
  from sim_first_subscribe [of "world s1" "\<lparr>policies = []\<rparr>" 1 1] s1(5) obtain reg w where
    sub: "rr_subscribe sim_env documented_bytes 1 sim_topic None \<lparr>policies = []\<rparr> 1 1 rr_new (world s1) = (Ok 1, 2, reg, w)"
    and reg: "rr_readers reg = [1 \<mapsto> \<lparr>r_reader_id = 1, r_handle = 3, r_topic = sim_topic,
       r_qos_normalized = normalize \<lparr>policies = []\<rparr>, r_subscribers = {1}\<rparr>]"
    by auto
  have more: "rr_session_subscriptions reg = [(1, ''chat'', ''Msg'') \<mapsto> 1] \<and> sim_next w = 4"
    using sub s1(5) by (simp add: rr_subscribe_def rr_subscribe_new_def dds_reader_new_def rr_new_def sim_env_simps Let_def
        sim_topic_def) (auto split: prod.splits)
  have none: "rr_readers rr_new 1 = None" by (simp add: rr_new_def)
  have "rr_tracked reg"
    by (rule rr_subscribe_tracked [OF rr_new_ok none sub rr_new_tracked]) (simp add: rr_new_def)
  moreover have "handle_message sim_env documented_bytes 1 MsgType.Subscribe 3 (sim_sub_bytes []) ?s =
      (Some [build_message OkMsg 3 []], s1\<lparr>next_reader_id := 2, br_readers := reg, world := w\<rparr>)"
    using handle_subscribe_run [OF sim_sub_parses, of "[]" sim_env ?s sim_topic s1 None "world s1" 1 1 2 reg w 3] t s1 sub
    by (simp add: sim_sub_def qos_ok_def make_qos_def from_qos_set_def drop_qos_handle_def)
  ultimately show ?thesis using that s1(2) reg more rr_subscribe_ok [OF rr_new_ok none sub] by simp
qed

text \<open>A second SUBSCRIBE with another QoS creates reader 2 and forgets reader 1.\<close>

lemma sim_subscribes_twice:
  obtains p1 p2 where "handle_message sim_env documented_bytes 1 MsgType.Subscribe 3 (sim_sub_bytes []) (sys_bridge sim_opened) =
      (Some [build_message OkMsg 3 []], p1)"
    and "handle_message sim_env documented_bytes 1 MsgType.Subscribe 5 (sim_sub_bytes [Durability 1]) p1 =
      (Some [build_message OkMsg 5 []], p2)"
    and "1 \<in> rr_owned (br_readers p2) 1" and "1 \<notin> rr_recorded (br_readers p2) 1"
proof -
  obtain p1 where first: "handle_message sim_env documented_bytes 1 MsgType.Subscribe 3 (sim_sub_bytes []) (sys_bridge sim_opened) =
      (Some [build_message OkMsg 3 []], p1)"
    and p1: "pt_topics (br_participant p1) (''chat'', ''Msg'') = Some sim_topic" "next_reader_id p1 = 2" "sim_next (world p1) = 4"
      "rr_readers (br_readers p1) = [1 \<mapsto> \<lparr>r_reader_id = 1, r_handle = 3, r_topic = sim_topic,
         r_qos_normalized = normalize \<lparr>policies = []\<rparr>, r_subscribers = {1}\<rparr>]"
      "rr_session_subscriptions (br_readers p1) = [(1, ''chat'', ''Msg'') \<mapsto> 1]"
      "rr_ok documented_bytes (br_readers p1)"
    by (rule sim_subscribes)
  let ?q = "\<lparr>policies = [Durability 1]\<rparr>" and ?r = "\<lparr>r_reader_id = 1, r_handle = 3, r_topic = sim_topic,
         r_qos_normalized = normalize \<lparr>policies = []\<rparr>, r_subscribers = {1 :: u64}\<rparr>"
  have qos: "qos_ok ?q" by (simp add: qos_ok_def)
  have topic: "get_topic sim_env ''chat'' ''Msg'' False \<lparr>kd_keys = []\<rparr> p1 = (Ok sim_topic, p1)"
    by (simp add: get_topic_def get_or_create_topic_def p1(1))
  obtain h where h: "make_qos sim_env ?q (world p1) = (h, world p1)"
    by (simp add: make_qos_def from_qos_set_def sim_env_simps)
  have key: "reader_key documented_bytes ?r \<noteq> reader_key_new documented_bytes ''chat'' ''Msg'' ?q"
    by (simp add: reader_key_def reader_key_new_def doc_bytes.serialize_qos_enc enc_qos_def normalize_def Let_def)
  have r: "rr_readers (br_readers p1) 1 = Some ?r" "rr_readers (br_readers p1) 2 = None" by (simp_all add: p1(4))
  have new: "rr_key_to_reader (br_readers p1) (reader_key_new documented_bytes ''chat'' ''Msg'' ?q) = None"
  proof (rule ccontr)
    assume "rr_key_to_reader (br_readers p1) (reader_key_new documented_bytes ''chat'' ''Msg'' ?q) \<noteq> None"
    then obtain rid where k: "rr_key_to_reader (br_readers p1) (reader_key_new documented_bytes ''chat'' ''Msg'' ?q) = Some rid" by blast
    from rr_okD(7) [OF p1(6) k] p1(4) key show False by (auto split: if_splits)
  qed
  obtain reg w where sub: "rr_subscribe sim_env documented_bytes (pt_handle (br_participant p1)) sim_topic h ?q 1 2 (br_readers p1) (world p1) =
      (Ok 2, 3, reg, w)"
    using new r(2) p1(3) by (simp add: rr_subscribe_def rr_subscribe_new_def dds_reader_new_def sim_env_simps sim_topic_def Let_def)
  from handle_subscribe_run [OF sim_sub_parses [OF qos], of sim_env p1 sim_topic p1 h "world p1" 1 2 3 reg w 5] topic h sub
  obtain p2 where second: "handle_message sim_env documented_bytes 1 MsgType.Subscribe 5 (sim_sub_bytes [Durability 1]) p1 =
      (Some [build_message OkMsg 5 []], p2)" and p2: "br_readers p2 = reg"
    by (simp add: sim_sub_def p1(2))
  have old: "rr_session_subscriptions (br_readers p1) (1, tp_topic_name sim_topic, tp_type_name sim_topic) = Some 1"
    by (simp add: p1(5) sim_topic_def)
  note orphan = resubscribe_orphans [OF p1(6) r(2) old r(1) _ sub]
  have "1 \<in> rr_owned reg 1" "1 \<notin> rr_recorded reg 1"
    using orphan key by (auto simp: rr_owned_def sim_topic_def)
  then show ?thesis by (intro that [OF first second]) (simp_all add: p2)
qed

text \<open>The client then hangs up.\<close>

lemma sim_reach_orphan:
  obtains s where "reach sim_env documented_bytes 64 config_default 7 s"
    and "sys_conns s 0 = Some (sim_conn\<lparr>c_phase := Draining, c_writer_alive := False, c_sink_failed := True\<rparr>)"
    and "1 \<in> rr_owned (br_readers (sys_bridge s)) 1" and "1 \<notin> rr_recorded (br_readers (sys_bridge s)) 1"
proof -
  obtain p1 p2 where run: "handle_message sim_env documented_bytes 1 MsgType.Subscribe 3 (sim_sub_bytes []) (sys_bridge sim_opened) =
      (Some [build_message OkMsg 3 []], p1)"
    "handle_message sim_env documented_bytes 1 MsgType.Subscribe 5 (sim_sub_bytes [Durability 1]) p1 =
      (Some [build_message OkMsg 5 []], p2)"
    and orphan: "1 \<in> rr_owned (br_readers p2) 1" "1 \<notin> rr_recorded (br_readers p2) 1"
    by (rule sim_subscribes_twice)
  have conn: "sys_conns sim_opened 0 = Some sim_conn" by (simp add: sim_opened_def)
  have r1: "reach sim_env documented_bytes 64 config_default (Suc 3) (sim_opened\<lparr>sys_bridge := p1\<rparr>)"
    by (rule sim_reach_frame(1) [OF sim_reach_opened conn run(1)]) (simp_all add: length_sim_sub)
  have r2: "reach sim_env documented_bytes 64 config_default (Suc (Suc 3)) (sim_opened\<lparr>sys_bridge := p1\<rparr>\<lparr>sys_bridge := p2\<rparr>)"
  proof (rule sim_reach_frame(1) [OF r1 _ _ _ length_sim_sub(2)])
    show "handle_message sim_env documented_bytes 1 MsgType.Subscribe 5 (sim_sub_bytes [Durability 1])
        (sys_bridge (sim_opened\<lparr>sys_bridge := p1\<rparr>)) = (Some [build_message OkMsg 5 []], p2)"
      using run(2) by simp
  qed (simp_all add: conn)
  let ?s = "sim_hang_up p2 (sim_opened\<lparr>sys_bridge := p2\<rparr>)"
  have "reach sim_env documented_bytes 64 config_default (Suc (Suc (Suc (Suc 3)))) ?s"
    using sim_reach_hang_up [OF r2] conn by simp
  moreover have "Suc (Suc (Suc (Suc 3))) = 7" by simp
  ultimately have "reach sim_env documented_bytes 64 config_default 7 ?s" by simp
  with orphan that [of ?s] show ?thesis by (simp add: sim_hang_up_def)
qed

end
