(* ===== verification/Bridge_Props.thy ===== *)
theory Bridge_Props
  imports Sim_Run
begin

text \<open>
  Properties of the handlers, the dispose notifications, the poll loop and the frame check. For
  the poll loop the theory first says, apart from the code, what a round should take from DDS
  and what a client reads from a notification.
\<close>

section \<open>Replies\<close>

text \<open>
  C2: whenever a client message is handled, the first message sent back is the reply: an OK,
  PONG or ERROR that carries the request's id. Everything after it is a DATA_DISPOSED
  notification with the reserved request id 0.
\<close>

theorem handle_message_reply:
  assumes "handle_message E B sid mt req payload s = (Some ms, s')"
  shows "\<exists>m notes h. ms = m # notes \<and> parse_header m = Ok h \<and> request_id h = req \<and>
    msg_type h \<in> {OkMsg, Pong, ErrorMsg} \<and>
    (\<forall>n \<in> set notes. \<exists>h'. parse_header n = Ok h' \<and> msg_type h' = DataDisposed \<and> request_id h' = 0)"
  using handle_message_shape [OF assms]
  by (auto simp: ok_shape_def make_error_response_def parse_build_message)

theorem handle_message_reply_witness:
  "\<exists>ms s'. handle_message sim_env documented_bytes 1 MsgType.Unsubscribe 7 [0] sim_bridge = (Some ms, s') \<and>
     (\<exists>m notes h. ms = m # notes \<and> parse_header m = Ok h \<and> request_id h = 7 \<and> msg_type h \<in> {OkMsg, Pong, ErrorMsg})"
proof -
  have "parse_unsubscribe documented_bytes [0] = Err (Truncated 4 1)"
    by (simp add: parse_unsubscribe_def read_string_def)
  then have "handle_message sim_env documented_bytes 1 MsgType.Unsubscribe 7 [0] sim_bridge =
      (Some [invalid_message documented_bytes 7 (Truncated 4 1)], sim_bridge)"
    by (simp add: handle_message_def dispatch_def handle_unsubscribe_def bind_st_lift)
  from this handle_message_reply [OF this] show ?thesis by blast
qed

text \<open>
  C3: every message the bridge sends is well typed. Whatever a client's frame holds, each message
  it is answered with, and each message the poll loop makes of a sample, parses as a header with
  the protocol's version, a type that only the server sends and the exact payload length, and
  its payload has the layout of that type: nothing after PONG, nothing or a writer id after OK,
  a known error code and exactly one string after ERROR, a complete string and timestamp
  before the data of the notifications.
\<close>

theorem server_messages_well_typed:
  assumes "bytes_laws B"
    and "process_binary_frame E B sid data max_payload_size s = (Some ms, s')"
    and "m \<in> set ms \<or> m = sample_to_message B sample"
  shows "server_message_ok m"
  using assms(3)
proof
  assume m: "m \<in> set ms"
  from assms(2) show ?thesis
  proof (cases rule: process_binary_frame_cases)
    case (handled h payload)
    from handle_message_shape [OF handled(5)] m assms(1) show ?thesis
      by (auto simp: ok_shape_def bytes_laws.serialized_payloads_ok bytes_laws.error_response_ok)
  qed (use m assms(1) in \<open>simp add: bytes_laws.error_response_ok\<close>)
qed (use assms(1) in \<open>simp add: bytes_laws.sample_message_ok\<close>)

text \<open>A frame that is too short, and the message for a sample without payload.\<close>

theorem server_messages_well_typed_witness:
  "(\<exists>m. process_binary_frame sim_env documented_bytes 1 [1, 2] 64 sim_bridge = (Some [m], sim_bridge) \<and> server_message_ok m) \<and>
   server_message_ok (sample_to_message documented_bytes
     \<lparr>rs_topic_name = ''t'', rs_instance_state = Disposed, rs_source_timestamp = 7, rs_data = []\<rparr>)"
proof -
  have "process_binary_frame sim_env documented_bytes 1 [1, 2] 64 sim_bridge =
      (Some [make_parse_error documented_bytes 0 ''message too short''], sim_bridge)"
    by (simp add: process_binary_frame_def HEADER_SIZE_def)
  from this server_messages_well_typed [OF doc_bytes.bytes_laws_axioms this] show ?thesis by auto
qed

section \<open>Panics\<close>

text \<open>
  C7: the only way a client message makes its task panic is to ask for a topic that does not
  exist yet, with a topic name without NUL byte and a type name with one; the shared state is
  then as before. (The panic is the \<open>expect\<close> in \<open>create_opaque_sertype\<close>; a NUL byte in the
  topic name is answered with an error instead.)
\<close>

theorem panic_only_from_nul_type:
  assumes "bytes_laws B" and "handle_message E B sid mt req payload s = (None, s')"
  shows "s' = s \<and> (\<exists>n ty. asks_topic B mt payload n ty \<and> pt_topics (br_participant s) (n, ty) = None \<and>
    0 \<notin> set (as_bytes n) \<and> 0 \<in> set (as_bytes ty))"
  using assms by (rule bytes_laws.handle_message_panic)

text \<open>A SUBSCRIBE with a NUL byte in its type name.\<close>

definition nul_subscribe :: SubscribePayload where
  "nul_subscribe = \<lparr>sub_topic_name = ''t'', sub_type_name = [CHR 0x00], sub_qos = \<lparr>policies = []\<rparr>,
     sub_is_keyed = False, sub_key_descriptors = \<lparr>kd_keys = []\<rparr>\<rparr>"

lemma nul_subscribe_panics:
  assumes "br_participant s = br_participant sim_bridge"
  shows "handle_message sim_env documented_bytes sid MsgType.Subscribe req (serialize_subscribe documented_bytes nul_subscribe) s =
   (None, s)"
proof -
  have "subscribe_ok nul_subscribe"
    by (simp add: subscribe_ok_def nul_subscribe_def string_ok_ascii qos_ok_def key_descriptors_ok_def)
  then have "parse_subscribe documented_bytes (serialize_subscribe documented_bytes nul_subscribe) = Ok nul_subscribe"
    using doc_bytes.subscribe_msg.mpar_mser by blast
  moreover have "get_or_create_topic sim_env ''t'' [CHR 0x00] b kd (br_participant sim_bridge) w = (Panic, br_participant sim_bridge, w)" for b kd w
    by (simp add: get_or_create_topic_Panic sim_bridge_def as_bytes_def)
  ultimately show ?thesis
    by (simp add: handle_message_def dispatch_def handle_subscribe_def bind_st_def lift_st_def map_err_st_def
        get_topic_def nul_subscribe_def flip: assms)
qed

theorem panic_only_from_nul_type_witness:
  "\<exists>n ty. asks_topic documented_bytes MsgType.Subscribe (serialize_subscribe documented_bytes nul_subscribe) n ty \<and>
     0 \<notin> set (as_bytes n) \<and> 0 \<in> set (as_bytes ty)"
  using panic_only_from_nul_type [OF doc_bytes.bytes_laws_axioms nul_subscribe_panics [OF refl]] by blast

section \<open>Isolation and ownership\<close>

text \<open>
  C5: handling a message of one session does not touch any other session: its writers, its
  recorded subscriptions, the readers it is subscribed to and its channel stay the same.
\<close>

theorem handle_message_isolation:
  assumes "bridge_inv B k s" and "handle_message E B sid mt req payload s = (ms, s')" and "t \<noteq> sid"
  shows "session_view t s' = session_view t s"
  using effect_isolation [OF assms(1) handle_message_effect [OF assms(2)] assms(3)] .

theorem handle_message_isolation_witness:
  "session_view 2 (snd (handle_message sim_env documented_bytes 1 MsgType.CreateWriter 7
     (serialize_create_writer documented_bytes \<lparr>cw_topic_name = ''t'', cw_type_name = ''T'', cw_qos = \<lparr>policies = []\<rparr>,
        cw_is_keyed = False, cw_key_descriptors = \<lparr>kd_keys = []\<rparr>\<rparr>) sim_bridge)) = session_view 2 sim_bridge"
  by (rule handle_message_isolation [OF sim_bridge_inv prod.collapse [symmetric]]) simp

text \<open>
  C6: a session cannot use or delete a writer of another session: WRITE, DISPOSE and
  WRITE_DISPOSE in writer-id mode and DELETE_WRITER are answered with the error code
  WRITER_NOT_FOUND, and nothing changes: nothing is written and the writer stays.
\<close>

theorem foreign_writer_refused:
  assumes "wr_writers (br_writers s) wid = Some (wr, owner)" and "owner \<noteq> sid"
    and "parse_write_mode B payload = Ok (WriterId wid key data)"
    and "parse_delete_writer payload' = Ok \<lparr>dw_writer_id = wid\<rparr>"
  shows "let refusal = (Some [make_error_response B req ErrorCode.WriterNotFound (dds_error_to_string (WriterOwnership wid))], s)
    in (\<forall>mt \<in> {MsgType.Write, MsgType.Dispose, MsgType.WriteDispose}. handle_message E B sid mt req payload s = refusal) \<and>
       handle_message E B sid MsgType.DeleteWriter req payload' s = refusal"
  using assms
  by (auto simp: handle_message_def dispatch_def handle_write_def handle_dispose_def handle_write_dispose_def
      handle_delete_writer_def parse_write_def parse_dispose_def parse_write_dispose_def bind_st_lift
      do_write_op_WriterId wr_get_def writer_error_def delete_writer_def wr_delete_def map_err_st_def
      bind_st_def [of "do_write_op E B sid req (WriterId wid key data) op" for op]
      bind_st_def [of "map_err_st (writer_error B req) (delete_writer E wid sid)"] Let_def
      simp del: dds_error_to_string.simps)

theorem foreign_writer_refused_witness:
  "handle_message sim_env documented_bytes 8 MsgType.DeleteWriter 3 (serialize_delete_writer documented_bytes \<lparr>dw_writer_id = 1\<rparr>)
     (sim_bridge\<lparr>br_writers := sim_writers\<rparr>) =
   (Some [make_error_response documented_bytes 3 ErrorCode.WriterNotFound (dds_error_to_string (WriterOwnership 1))],
    sim_bridge\<lparr>br_writers := sim_writers\<rparr>)"
proof -
  have "parse_write_mode documented_bytes (serialize_write_mode documented_bytes (WriterId 1 [] [])) = Ok (WriterId 1 [] [])"
    by (rule doc_bytes.write_mode_msg.mpar_mser) simp
  moreover have "parse_delete_writer (serialize_delete_writer documented_bytes \<lparr>dw_writer_id = 1\<rparr>) = Ok \<lparr>dw_writer_id = 1\<rparr>"
    by (rule doc_bytes.delete_writer_msg.mpar_mser) simp
  ultimately show ?thesis
    using foreign_writer_refused [of "sim_bridge\<lparr>br_writers := sim_writers\<rparr>" 1 sim_writer 7 8 documented_bytes]
    by (simp add: sim_writers_map Let_def)
qed

section \<open>Writers and writes\<close>

lemma new_writer_Ok:
  assumes "map_err_st g (new_writer E t qp nq) s = (Ok wr, s')"
  shows "w_writer_id wr = next_writer_id s \<and> w_topic wr = t \<and> w_qos_normalized wr = nq \<and> br_writers s' = br_writers s"
  using assms by (auto simp: map_err_st_def new_writer_def dds_writer_new_def split: prod.splits if_splits)

lemma handle_create_writer_Ok:
  assumes "handle_create_writer E B sid req payload s = (Ok ms, s')" and p: "participant_ok (br_participant s)"
  obtains cw wr where "parse_create_writer B payload = Ok cw"
    "ms = [build_message OkMsg req (le_bytes 4 (next_writer_id s))]"
    "wr_writers (br_writers s') = (wr_writers (br_writers s))(next_writer_id s \<mapsto> (wr, sid))"
    "w_writer_id wr = next_writer_id s" "w_qos_normalized wr = normalize (cw_qos cw)"
    "tp_topic_name (w_topic wr) = cw_topic_name cw" "tp_type_name (w_topic wr) = cw_type_name cw"
proof -
  from assms(1) obtain cw t s1 where cw: "parse_create_writer B payload = Ok cw"
    and t: "map_err_st (dds_failure B req) (get_topic E (cw_topic_name cw) (cw_type_name cw) (cw_is_keyed cw)
       (cw_key_descriptors cw)) s = (Ok t, s1)"
    and body: "with_qos E (cw_qos cw) (\<lambda>qos_ptr.
       bind_st (map_err_st (dds_failure B req) (new_writer E t qos_ptr (normalize (cw_qos cw)))) (\<lambda>writer.
       bind_st (register_writer E writer sid) (\<lambda>writer_id.
       return_st [build_message OkMsg req (le_bytes 4 writer_id)]))) s1 = (Ok ms, s')"
    unfolding handle_create_writer_def by (auto elim!: bind_st_cases simp: lift_st_def)
  from t obtain p' w where g: "get_or_create_topic E (cw_topic_name cw) (cw_type_name cw) (cw_is_keyed cw)
      (cw_key_descriptors cw) (br_participant s) (world s) = (Ok t, p', w)"
    and s1: "s1 = s\<lparr>br_participant := p', world := w\<rparr>"
    by (auto simp: map_err_st_def get_topic_def split: prod.splits)
  note names = get_or_create_topic_ok(4) [OF p g refl]
  obtain h w1 where h: "make_qos E (cw_qos cw) (world s1) = (h, w1)" by fastforce
  from body h obtain s4 where
    run: "bind_st (map_err_st (dds_failure B req) (new_writer E t h (normalize (cw_qos cw)))) (\<lambda>writer.
       bind_st (register_writer E writer sid) (\<lambda>writer_id.
       return_st [build_message OkMsg req (le_bytes 4 writer_id)])) (s1\<lparr>world := w1\<rparr>) = (Ok ms, s4)"
    and s': "br_writers s' = br_writers s4"
    by (auto simp: with_qos_def split: prod.splits)
  from run obtain wr s2 where n: "map_err_st (dds_failure B req) (new_writer E t h (normalize (cw_qos cw))) (s1\<lparr>world := w1\<rparr>) = (Ok wr, s2)"
    and r: "bind_st (register_writer E wr sid) (\<lambda>writer_id. return_st [build_message OkMsg req (le_bytes 4 writer_id)]) s2 =
      (Ok ms :: (bytes, bytes list) result, s4)"
    by (rule bind_st_cases) auto
  note wr = new_writer_Ok [OF n]
  from r obtain wid ws w3 where reg: "wr_register E wr sid (br_writers s2) (world s2) = (wid, ws, w3)"
    and "s4 = s2\<lparr>br_writers := ws, world := w3\<rparr>" and "ms = [build_message OkMsg req (le_bytes 4 wid)]"
    by (auto elim!: bind_st_cases simp: register_writer_def return_st_def split: prod.splits)
  with wr wr_register_simps(1,2) [OF reg] s' s1 names cw show ?thesis by (intro that [of cw wr]) simp_all
qed

text \<open>
  C22: a successful CREATE_WRITER answers with an OK whose payload is the new writer's id in
  four little-endian bytes; the id was free before, and now names a writer of the requesting
  session for the topic, type and QoS it asked for, in addition to all writers there were.
\<close>

theorem create_writer_returns_id:
  assumes "bridge_inv B k s" and "handle_create_writer E B sid req payload s = (Ok ms, s')"
  shows "\<exists>wid wr cw. parse_create_writer B payload = Ok cw \<and> ms = [build_message OkMsg req (le_bytes 4 wid)] \<and>
    wr_writers (br_writers s) wid = None \<and> wr_writers (br_writers s') = (wr_writers (br_writers s))(wid \<mapsto> (wr, sid)) \<and>
    w_writer_id wr = wid \<and> writer_matches (cw_topic_name cw) (cw_type_name cw) (cw_qos cw) wr"
  using assms(2) bridge_invD(1) [OF assms(1)]
proof (rule handle_create_writer_Ok)
  fix cw wr
  assume "parse_create_writer B payload = Ok cw" "ms = [build_message OkMsg req (le_bytes 4 (next_writer_id s))]"
    "wr_writers (br_writers s') = (wr_writers (br_writers s))(next_writer_id s \<mapsto> (wr, sid))"
    "w_writer_id wr = next_writer_id s" "w_qos_normalized wr = normalize (cw_qos cw)"
    "tp_topic_name (w_topic wr) = cw_topic_name cw" "tp_type_name (w_topic wr) = cw_type_name cw"
  then show ?thesis
    by (intro exI [of _ "next_writer_id s"] exI [of _ wr] exI [of _ cw])
      (simp add: fresh_writer_id [OF assms(1)] writer_matches_def)
qed

definition sim_cw :: CreateWriterPayload where
  "sim_cw = \<lparr>cw_topic_name = ''t'', cw_type_name = ''T'', cw_qos = \<lparr>policies = []\<rparr>,
     cw_is_keyed = False, cw_key_descriptors = \<lparr>kd_keys = []\<rparr>\<rparr>"

lemma sim_cw_fields: "cw_topic_name sim_cw = ''t''" "cw_type_name sim_cw = ''T''" "cw_qos sim_cw = \<lparr>policies = []\<rparr>"
  "cw_is_keyed sim_cw = False" "cw_key_descriptors sim_cw = \<lparr>kd_keys = []\<rparr>"
  by (simp_all add: sim_cw_def)

lemma sim_cw_parses:
  "parse_create_writer documented_bytes (serialize_create_writer documented_bytes sim_cw) = Ok sim_cw"
  by (rule doc_bytes.create_writer_msg.mpar_mser)
    (simp add: create_writer_ok_def sim_cw_def string_ok_ascii qos_ok_def key_descriptors_ok_def)

theorem create_writer_returns_id_witness:
  "\<exists>ms s' wid wr. handle_create_writer sim_env documented_bytes 7 3 (serialize_create_writer documented_bytes sim_cw) sim_bridge = (Ok ms, s') \<and>
     ms = [build_message OkMsg 3 (le_bytes 4 wid)] \<and> wr_writers (br_writers s') = [wid \<mapsto> (wr, 7)]"
proof -
  obtain ms s' where run: "handle_create_writer sim_env documented_bytes 7 3 (serialize_create_writer documented_bytes sim_cw) sim_bridge = (Ok ms, s')"
    by (simp add: handle_create_writer_def sim_cw_parses sim_cw_fields bind_st_def lift_st_def map_err_st_def get_topic_def
        get_or_create_topic_def create_opaque_sertype_def cstring_new_def as_bytes_def sim_bridge_def
        sim_start_def sim_env_simps with_qos_def make_qos_def from_qos_set_def new_writer_def dds_writer_new_def
        register_writer_def return_st_def split_beta Let_def)
  from create_writer_returns_id [OF sim_bridge_inv run] have "\<exists>wid wr. ms = [build_message OkMsg 3 (le_bytes 4 wid)] \<and>
      wr_writers (br_writers s') = (wr_writers (br_writers sim_bridge))(wid \<mapsto> (wr, 7))" by blast
  with run show ?thesis by (auto simp: sim_bridge_def wr_new_def)
qed

text \<open>
  C23: a write, dispose or write-dispose in topic-name mode either fails in DDS (error code
  DDS_ERROR) or succeeds, and then the session owns a writer for that topic, type and QoS;
  that the writer just created is missing (INTERNAL_ERROR) cannot happen. The one other outcome
  is the panic on a type name with a NUL byte, before anything has changed.
\<close>

theorem topic_write_finds_writer:
  assumes "bridge_inv B k s" and "Suc k < 2 ^ 32"
    and "do_write_op E B sid req (TopicName n ty q kd data) op s = (r, s')"
  shows "r = Panic \<and> s' = s \<and> 0 \<in> set (as_bytes ty) \<or>
    (\<exists>e. r = Err (make_error_response B req ErrorCode.DdsError (dds_error_to_string e))) \<or>
    r = Ok (build_message OkMsg req []) \<and>
      (\<exists>wid wr. wr_writers (br_writers s') wid = Some (wr, sid) \<and> writer_matches n ty q wr)"
proof (cases "r = Panic")
  case True
  from tripleD [OF do_write_op_panic assms(3) refl] True show ?thesis by (auto simp: panics_on_def)
next
  case ok: False
  show ?thesis
    using assms(3) unfolding do_write_op_TopicName
  proof (cases rule: bind_st_cases)
    case (ok u t)
    have inv: "bridge_inv B (Suc k) t" and found: "wr_find_by_topic sid n ty (normalize q) (br_writers t) \<noteq> None"
      using tripleD [OF topic_writer_inv [OF assms(2)] ok(1) assms(1)] by simp_all
    from tripleD [OF topic_write_inv ok(2)] inv found have out: "write_outcome B req r" by blast
    from ok(2) found have "br_writers s' = br_writers t"
      by (auto simp: topic_write_def dest!: execute_then_ok)
    moreover from found obtain wr where "wr_find_by_topic sid n ty (normalize q) (br_writers t) = Some wr" by blast
    ultimately have "\<exists>wid wr. wr_writers (br_writers s') wid = Some (wr, sid) \<and> writer_matches n ty q wr"
      using wr_find_by_topic_Some [OF bridge_invD(2) [OF inv]] by (fastforce simp: writer_matches_def)
    with out show ?thesis by (auto simp: write_outcome_def)
  next
    case (err e)
    then have "\<exists>e'. e = dds_failure B req e'"
      by (auto simp: topic_writer_def create_implicit_writer_def with_qos_def register_writer_def return_st_def
          elim!: bind_st_cases split: if_splits prod.splits simp: map_err_st_def)
        (metis map_err.simps result.distinct(1) result.distinct(5) result.exhaust result.inject(2))+
    with err show ?thesis by blast
  qed (use ok in simp)
qed

theorem topic_write_finds_writer_witness:
  "\<exists>s'. do_write_op sim_env documented_bytes 7 3 (TopicName ''t'' ''T'' \<lparr>policies = []\<rparr> \<lparr>kd_keys = []\<rparr> [1]) OpWrite sim_bridge =
       (Ok (build_message OkMsg 3 []), s') \<and>
     (\<exists>wid wr. wr_writers (br_writers s') wid = Some (wr, 7) \<and> writer_matches ''t'' ''T'' \<lparr>policies = []\<rparr> wr)"
proof -
  let ?m = "do_write_op sim_env documented_bytes 7 3 (TopicName ''t'' ''T'' \<lparr>policies = []\<rparr> \<lparr>kd_keys = []\<rparr> [1]) OpWrite"
  have ok: "fst (?m sim_bridge) = Ok (build_message OkMsg 3 [])"
    by (simp add: do_write_op_TopicName topic_writer_def create_implicit_writer_def topic_write_def execute_write_op_def
        writer_write_def wr_find_by_topic_def wr_register_def wr_new_def bind_st_def map_err_st_def get_topic_def
        get_or_create_topic_def create_opaque_sertype_def cstring_new_def as_bytes_def sim_bridge_def
        sim_start_def sim_env_simps with_qos_def make_qos_def from_qos_set_def new_writer_def dds_writer_new_def
        register_writer_def return_st_def split_beta Let_def normalize_def normalized_eq_def drop_qos_handle_def)
  then obtain s' where run: "?m sim_bridge = (Ok (build_message OkMsg 3 []), s')" by (cases "?m sim_bridge") auto
  have "Suc 1 < 2 ^ 32" by simp
  from run topic_write_finds_writer [OF sim_bridge_inv this run] show ?thesis by blast
qed

section \<open>Dispose notifications\<close>

abbreviation send_all :: "'w environment \<Rightarrow> bytes \<Rightarrow> Sender list \<Rightarrow> 'w \<Rightarrow> 'w" where
  "send_all E msg txs w \<equiv> fold (\<lambda>tx w. snd (try_send E tx msg w)) txs w"

lemma notify_subscribers_eq:
  "notify_subscribers E senders me msg sids acc w =
   (acc @ replicate (length (filter (\<lambda>s. s = me) sids)) msg,
    send_all E msg (List.map_filter senders (filter (\<lambda>s. s \<noteq> me) sids)) w)"
  by (induction sids arbitrary: acc w)
    (auto simp: List.map_filter_def replicate_app_Cons_same split: option.split prod.split)

lemma set_map_filter: "set (List.map_filter f xs) = {y. \<exists>x \<in> set xs. f x = Some y}"
  by (auto simp: List.map_filter_def image_iff) force

lemma length_filter_distinct: "distinct xs \<Longrightarrow> length (filter (\<lambda>s. s = me) xs) = (if me \<in> set xs then 1 else 0)"
  by (induction xs) auto

definition on_topic :: "string \<Rightarrow> string \<Rightarrow> DdsReader \<Rightarrow> bool" where
  "on_topic nm ty r \<longleftrightarrow> tp_topic_name (r_topic r) = nm \<and> tp_type_name (r_topic r) = ty"

context hash_iteration
begin

lemma notify_readers_eq:
  assumes "\<forall>r \<in> set rs. finite (r_subscribers r)"
  shows "\<exists>txs. notify_readers E senders me nm ty msg rs acc w =
      (acc @ replicate (length (filter (\<lambda>r. on_topic nm ty r \<and> me \<in> r_subscribers r) rs)) msg, send_all E msg txs w) \<and>
    set txs = {tx. \<exists>r \<in> set rs. on_topic nm ty r \<and> (\<exists>s \<in> r_subscribers r. s \<noteq> me \<and> senders s = Some tx)}"
  using assms
proof (induction rs arbitrary: acc w)
  case Nil
  show ?case by (auto intro: exI [of _ "[]"])
next
  case (Cons r rs)
  show ?case
  proof (cases "on_topic nm ty r")
    case False
    with Cons.IH [of acc w] Cons.prems show ?thesis by (auto simp: on_topic_def)
  next
    case True
    let ?ids = "iter_u64 E w (r_subscribers r)"
    let ?acc = "acc @ replicate (if me \<in> r_subscribers r then 1 else 0) msg"
    let ?txs = "List.map_filter senders (filter (\<lambda>s. s \<noteq> me) ?ids)"
    have ids: "distinct ?ids" "set ?ids = r_subscribers r" using Cons.prems by simp_all
    have step: "notify_readers E senders me nm ty msg (r # rs) acc w =
        notify_readers E senders me nm ty msg rs ?acc (send_all E msg ?txs w)"
      using True length_filter_distinct [OF ids(1), of me] ids(2)
      by (simp add: on_topic_def notify_subscribers_eq)
    from Cons.IH [of ?acc "send_all E msg ?txs w"] Cons.prems obtain txs where
      txs: "notify_readers E senders me nm ty msg rs ?acc (send_all E msg ?txs w) =
        (?acc @ replicate (length (filter (\<lambda>r. on_topic nm ty r \<and> me \<in> r_subscribers r) rs)) msg,
         send_all E msg txs (send_all E msg ?txs w))"
      "set txs = {tx. \<exists>r \<in> set rs. on_topic nm ty r \<and> (\<exists>s \<in> r_subscribers r. s \<noteq> me \<and> senders s = Some tx)}"
      by auto
    show ?thesis
    proof (intro exI [of _ "?txs @ txs"] conjI)
      show "notify_readers E senders me nm ty msg (r # rs) acc w =
          (acc @ replicate (length (filter (\<lambda>r. on_topic nm ty r \<and> me \<in> r_subscribers r) (r # rs))) msg,
           send_all E msg (?txs @ txs) w)"
        unfolding step txs(1) using True by simp
      show "set (?txs @ txs) = {tx. \<exists>x \<in> set (r # rs). on_topic nm ty x \<and>
          (\<exists>s \<in> r_subscribers x. s \<noteq> me \<and> senders s = Some tx)}"
        using True ids(2) txs(2) by (auto simp: set_map_filter)
    qed
  qed
qed

lemma rr_all_readers_props:
  assumes "rr_ok B reg"
  shows "set (rr_all_readers E reg w) = ran (rr_readers reg)" and "distinct (map r_reader_id (rr_all_readers E reg w))"
    and "length (filter P (rr_all_readers E reg w)) = card {rid. \<exists>r. rr_readers reg rid = Some r \<and> P r}"
proof -
  let ?ids = "iter_u64 E w (dom (rr_readers reg))"
  have ids: "distinct ?ids" "set ?ids = dom (rr_readers reg)" using rr_okD(1) [OF assms] by simp_all
  show s: "set (rr_all_readers E reg w) = ran (rr_readers reg)"
    by (auto simp: rr_all_readers_def set_map_filter ids(2) ran_def dom_def)
  have eq: "rr_all_readers E reg w = map (\<lambda>rid. the (rr_readers reg rid)) ?ids"
  proof -
    have "filter (\<lambda>x. rr_readers reg x \<noteq> None) ?ids = ?ids" using ids(2) by (auto intro!: filter_True)
    then show ?thesis unfolding rr_all_readers_def List.map_filter_def comp_def by (simp only:)
  qed
  moreover have "map r_reader_id (map (\<lambda>rid. the (rr_readers reg rid)) ?ids) = map id ?ids"
    unfolding map_map using ids(2) rr_okD(3) [OF assms] by (intro map_cong) (auto simp: dom_def)
  ultimately show d: "distinct (map r_reader_id (rr_all_readers E reg w))" using ids(1) by simp
  have "length (filter P (rr_all_readers E reg w)) = length (filter (\<lambda>rid. P (the (rr_readers reg rid))) ?ids)"
    unfolding eq by (simp add: filter_map comp_def)
  also have "\<dots> = card (set (filter (\<lambda>rid. P (the (rr_readers reg rid))) ?ids))"
    using ids(1) by (simp add: distinct_card del: set_filter)
  also have "set (filter (\<lambda>rid. P (the (rr_readers reg rid))) ?ids) = {rid. \<exists>r. rr_readers reg rid = Some r \<and> P r}"
    using ids(2) by auto
  finally show "length (filter P (rr_all_readers E reg w)) = card {rid. \<exists>r. rr_readers reg rid = Some r \<and> P r}" .
qed

lemma dispose_notification_eq:
  assumes ok: "rr_ok B (br_readers s)" and t: "dispose_target (br_writers s) mode = Some (nm, ty, key)"
  shows "\<exists>txs. resp_with_dispose_notification E B sid resp mode s =
      (Ok (resp # replicate (card {rid. \<exists>r. rr_readers (br_readers s) rid = Some r \<and> on_topic nm ty r \<and> sid \<in> r_subscribers r})
         (build_message DataDisposed 0 (serialize_data_disposed B \<lparr>dd_topic_name = nm, dd_source_timestamp = 0, dd_key_data = key\<rparr>))),
       s\<lparr>world := send_all E (build_message DataDisposed 0 (serialize_data_disposed B
          \<lparr>dd_topic_name = nm, dd_source_timestamp = 0, dd_key_data = key\<rparr>)) txs (world s)\<rparr>) \<and>
    set txs = {tx. \<exists>rid r. rr_readers (br_readers s) rid = Some r \<and> on_topic nm ty r \<and>
       (\<exists>t \<in> r_subscribers r. t \<noteq> sid \<and> br_session_senders s t = Some tx)}"
proof -
  let ?rs = "rr_all_readers E (br_readers s) (world s)"
  let ?msg = "build_message DataDisposed 0 (serialize_data_disposed B
          \<lparr>dd_topic_name = nm, dd_source_timestamp = 0, dd_key_data = key\<rparr>)"
  note all = rr_all_readers_props [OF ok, where w = "world s"]
  have "\<forall>r \<in> set ?rs. finite (r_subscribers r)" using all(1) rr_okD(4) [OF ok] by (auto simp: ran_def)
  from notify_readers_eq [OF this, of "br_session_senders s" sid nm ty ?msg "[resp]" "world s"]
  obtain txs where "notify_readers E (br_session_senders s) sid nm ty ?msg ?rs [resp] (world s) =
      ([resp] @ replicate (card {rid. \<exists>r. rr_readers (br_readers s) rid = Some r \<and> on_topic nm ty r \<and> sid \<in> r_subscribers r}) ?msg,
       send_all E ?msg txs (world s))"
    "set txs = {tx. \<exists>r \<in> set ?rs. on_topic nm ty r \<and> (\<exists>t \<in> r_subscribers r. t \<noteq> sid \<and> br_session_senders s t = Some tx)}"
    unfolding all(3) by blast
  with t show ?thesis
    by (intro exI [of _ txs]) (auto simp: resp_with_dispose_notification_def Let_def all(1) ran_def)
qed

end

text \<open>
  C19: after a successful dispose or write-dispose the reply is followed by one DATA_DISPOSED
  notification for each reader of that topic and type the requesting session is subscribed
  to, on the same channel; the same message is offered to the channels of exactly the other
  sessions subscribed to such a reader, and to nobody else.
\<close>

theorem dispose_notifies_subscribers:
  assumes "hash_iteration E" and "rr_ok B (br_readers s)" and "dispose_target (br_writers s) mode = Some (nm, ty, key)"
  shows "\<exists>txs msg. msg = build_message DataDisposed 0 (serialize_data_disposed B
        \<lparr>dd_topic_name = nm, dd_source_timestamp = 0, dd_key_data = key\<rparr>) \<and>
    resp_with_dispose_notification E B sid resp mode s =
      (Ok (resp # replicate (card {rid. \<exists>r. rr_readers (br_readers s) rid = Some r \<and> on_topic nm ty r \<and> sid \<in> r_subscribers r}) msg),
       s\<lparr>world := fold (\<lambda>tx w. snd (try_send E tx msg w)) txs (world s)\<rparr>) \<and>
    set txs = {tx. \<exists>rid r. rr_readers (br_readers s) rid = Some r \<and> on_topic nm ty r \<and>
       (\<exists>t \<in> r_subscribers r. t \<noteq> sid \<and> br_session_senders s t = Some tx)}"
  by (rule hash_iteration.dispose_notification_eq [OF assms, THEN exE], intro exI conjI, rule refl)
    (erule conjunct1, erule conjunct2)

theorem dispose_notifies_subscribers_witness:
  "\<exists>reg msg s'. rr_owned reg 7 = {1} \<and>
     resp_with_dispose_notification sim_env documented_bytes 7 [1] (TopicName ''chat'' ''Msg'' \<lparr>policies = []\<rparr> \<lparr>kd_keys = []\<rparr> [5])
       (sim_bridge\<lparr>br_readers := reg\<rparr>) = (Ok [[1], msg] :: (bytes, bytes list) result, s')"
proof -
  obtain reg w where sub: "rr_subscribe sim_env documented_bytes 1 sim_topic None \<lparr>policies = []\<rparr> 7 1 rr_new sim_start = (Ok 1, 1 + 1, reg, w)"
    and r: "rr_readers reg = [1 \<mapsto> \<lparr>r_reader_id = 1, r_handle = of_nat (sim_next sim_start), r_topic = sim_topic,
       r_qos_normalized = normalize \<lparr>policies = []\<rparr>, r_subscribers = {7}\<rparr>]"
    using sim_first_subscribe [of sim_start "\<lparr>policies = []\<rparr>" 7 1] by (auto simp: sim_start_def)
  have ok: "rr_ok documented_bytes reg"
    by (rule rr_subscribe_ok [OF rr_new_ok _ sub]) (simp add: rr_new_def)
  let ?s = "sim_bridge\<lparr>br_readers := reg\<rparr>" and ?m = "TopicName ''chat'' ''Msg'' \<lparr>policies = []\<rparr> \<lparr>kd_keys = []\<rparr> [5]"
  have "{rid. \<exists>x. rr_readers (br_readers ?s) rid = Some x \<and> on_topic ''chat'' ''Msg'' x \<and> 7 \<in> r_subscribers x} = {1}"
    by (auto simp: r on_topic_def sim_topic_def)
  then have card: "card {rid. \<exists>x. rr_readers (br_readers ?s) rid = Some x \<and> on_topic ''chat'' ''Msg'' x \<and> 7 \<in> r_subscribers x} = 1"
    by simp
  have ok': "rr_ok documented_bytes (br_readers ?s)" and target: "dispose_target (br_writers ?s) ?m = Some (''chat'', ''Msg'', [5])"
    using ok by (simp_all add: dispose_target_def)
  have "\<exists>msg s'. resp_with_dispose_notification sim_env documented_bytes 7 [1] ?m ?s = (Ok ([1] # replicate 1 msg) :: (bytes, bytes list) result, s')"
    using dispose_notifies_subscribers [OF sim.hash_iteration_axioms ok' target, of 7 "[1]"] unfolding card
    by (elim exE conjE) (intro exI)
  then have "\<exists>msg s'. resp_with_dispose_notification sim_env documented_bytes 7 [1] ?m ?s = (Ok [[1], msg] :: (bytes, bytes list) result, s')"
    by simp
  moreover have "rr_owned reg 7 = {1}" by (auto simp: rr_owned_def r)
  ultimately show ?thesis by blast
qed

section \<open>Polling\<close>

text \<open>
  What a round of polling should do, read off DDS: \<open>taken E h n w raws w'\<close> says that asking the
  reader entity \<open>h\<close> for a sample up to \<open>n\<close> times, until it has none, yields \<open>raws\<close>. A sample is
  worth forwarding if it has data or reports a disposed or unregistered instance.
\<close>

inductive taken :: "'w environment \<Rightarrow> dds_entity_t \<Rightarrow> nat \<Rightarrow> 'w \<Rightarrow> (SampleWrapper \<times> SampleInfo) list \<Rightarrow> 'w \<Rightarrow> bool"
  for E h where
  full: "taken E h 0 w [] w"
| empty: "dds_take E h w = ((c, x, i), w') \<Longrightarrow> sint c \<le> 0 \<Longrightarrow> taken E h (Suc n) w [] w'"
| sample: "dds_take E h w = ((c, x, i), v) \<Longrightarrow> 0 < sint c \<Longrightarrow> taken E h n v raws w' \<Longrightarrow>
    taken E h (Suc n) w ((x, i) # raws) w'"

definition forwarded :: "DdsReader \<Rightarrow> (SampleWrapper \<times> SampleInfo) list \<Rightarrow> ReceivedSample list" where
  "forwarded r raws = map (\<lambda>(x, i).
      \<lparr>rs_topic_name = tp_topic_name (r_topic r),
       rs_instance_state = (if si_instance_state i = DDS_IST_NOT_ALIVE_DISPOSED then Disposed
         else if si_instance_state i = DDS_IST_NOT_ALIVE_NO_WRITERS then NoWriters else Alive),
       rs_source_timestamp = si_source_timestamp i,
       rs_data = (case sw_data x of None \<Rightarrow> [] | Some d \<Rightarrow> take (sw_len x) d)\<rparr>)
     (filter (\<lambda>(x, i). si_valid_data i \<or>
        si_instance_state i \<in> {DDS_IST_NOT_ALIVE_DISPOSED, DDS_IST_NOT_ALIVE_NO_WRITERS}) raws)"

inductive polled :: "'w environment \<Rightarrow> ReaderRegistry \<Rightarrow> 'w \<Rightarrow> (u64 \<times> ReceivedSample list) list \<Rightarrow> 'w \<Rightarrow> bool"
  for E reg where
  finished: "polled E reg w [] w"
| reader: "rr_readers reg rid = Some r \<Longrightarrow> taken E (r_handle r) 256 w raws v \<Longrightarrow> polled E reg v batches w' \<Longrightarrow>
    polled E reg w ((rid, forwarded r raws) # batches) w'"

lemma instance_state_of_cases:
  "instance_state_of s = (if s = DDS_IST_NOT_ALIVE_DISPOSED then Disposed
     else if s = DDS_IST_NOT_ALIVE_NO_WRITERS then NoWriters else Alive)"
  by (simp add: instance_state_of_def DDS_IST_ALIVE_def DDS_IST_NOT_ALIVE_DISPOSED_def DDS_IST_NOT_ALIVE_NO_WRITERS_def)

lemma take_loop_taken:
  "take_loop E r n acc w = (out, w') \<Longrightarrow> \<exists>raws. taken E (r_handle r) n w raws w' \<and> out = acc @ forwarded r raws"
proof (induction n arbitrary: acc w)
  case 0
  then show ?case by (intro exI [of _ "[]"]) (auto simp: forwarded_def intro: taken.full)
next
  case (Suc n)
  obtain c smp info v where t: "dds_take E (r_handle r) w = ((c, smp, info), v)" by (metis surj_pair)
  show ?case
  proof (cases "sint c \<le> 0")
    case True
    with t Suc.prems show ?thesis by (intro exI [of _ "[]"]) (auto simp: forwarded_def intro: taken.empty)
  next
    case False
    have one: "take_loop E r (Suc n) acc w = take_loop E r n (acc @ forwarded r [(smp, info)]) v"
      using t False by (simp add: forwarded_def Let_def instance_state_of_cases sample_data_def split: option.split)
    from Suc.IH [OF Suc.prems [unfolded one]] obtain raws where
      "taken E (r_handle r) n v raws w'" "out = acc @ forwarded r ((smp, info) # raws)"
      by (auto simp: forwarded_def)
    with taken.sample [OF t _ this(1)] False show ?thesis
      by (intro exI [of _ "(smp, info) # raws"]) simp
  qed
qed

lemma take_samples_taken:
  "take_samples E n r w = (x, w') \<Longrightarrow> \<exists>raws. taken E (r_handle r) n w raws w' \<and> x = Ok (forwarded r raws)"
  by (auto simp: take_samples_def split: prod.splits dest!: take_loop_taken)

definition queued_for :: "(u64 \<rightharpoonup> DdsReader) \<Rightarrow> (u64 \<rightharpoonup> Sender) \<Rightarrow> u64 \<times> ReceivedSample list \<Rightarrow>
    ReceivedSample list \<times> (u64 \<times> Sender) list \<Rightarrow> bool" where
  "queued_for readers senders batch entry \<longleftrightarrow> fst entry = snd batch \<and> distinct (snd entry) \<and>
     set (snd entry) = {(sid, tx). senders sid = Some tx \<and>
       (\<exists>r. readers (fst batch) = Some r \<and> sid \<in> r_subscribers r)}"

lemma poll_readers_polled:
  assumes "hash_iteration E" and "rr_ok B reg" and "poll_readers E reg senders ids acc w = (pending, w')"
    and "set ids \<subseteq> dom (rr_readers reg)"
  shows "\<exists>batches new. pending = acc @ new \<and> map fst batches = ids \<and> polled E reg w batches w' \<and>
    list_all2 (queued_for (rr_readers reg) senders) (filter (\<lambda>(_, xs). xs \<noteq> []) batches) new"
  using assms(3,4)
proof (induction ids arbitrary: acc w)
  case Nil
  then show ?case by (intro exI [of _ "[]"]) (auto intro: polled.finished)
next
  case (Cons rid ids)
  from Cons.prems(2) obtain r where r: "rr_readers reg rid = Some r" by auto
  obtain x v where t: "take_samples E 256 r w = (x, v)" by fastforce
  from take_samples_taken [OF t] obtain raws where raws: "taken E (r_handle r) 256 w raws v" "x = Ok (forwarded r raws)" by blast
  let ?subs = "List.map_filter (\<lambda>sid. map_option (Pair sid) (senders sid)) (iter_u64 E v (r_subscribers r))"
  have it: "set (iter_u64 E v (r_subscribers r)) = r_subscribers r" "distinct (iter_u64 E v (r_subscribers r))"
    using assms(1) rr_okD(4) [OF assms(2) r] by (simp_all add: hash_iteration_def)
  then have "distinct ?subs" unfolding List.map_filter_def by (auto simp: distinct_map inj_on_def)
  moreover have "set ?subs = {(sid, tx). senders sid = Some tx \<and> sid \<in> r_subscribers r}"
    unfolding set_map_filter it(1) by auto
  ultimately have q: "queued_for (rr_readers reg) senders (rid, forwarded r raws) (forwarded r raws, ?subs)"
    by (simp add: queued_for_def r)
  let ?new = "if forwarded r raws = [] then [] else [(forwarded r raws, ?subs)]"
  have step: "poll_readers E reg senders (rid # ids) acc w = poll_readers E reg senders ids (acc @ ?new) v"
    using r t raws(2) by (simp add: rr_get_def rr_get_subscribers_def Let_def)
  have ids: "set ids \<subseteq> dom (rr_readers reg)" using Cons.prems(2) by simp
  from Cons.IH [OF Cons.prems(1) [unfolded step] ids] obtain batches new where rest: "pending = (acc @ ?new) @ new"
    "map fst batches = ids" "polled E reg v batches w'"
    "list_all2 (queued_for (rr_readers reg) senders) (filter (\<lambda>(_, xs). xs \<noteq> []) batches) new" by blast
  have "list_all2 (queued_for (rr_readers reg) senders)
      (filter (\<lambda>(_, xs). xs \<noteq> []) ((rid, forwarded r raws) # batches)) (?new @ new)"
    using q rest(4) by simp
  with rest(1,2) polled.reader [OF r raws(1) rest(3)] show ?case
    by (intro exI [of _ "(rid, forwarded r raws) # batches"] exI [of _ "?new @ new"]) simp
qed

text \<open>
  C20: one round of polling asks every reader of the registry, each exactly once, for up to 256
  samples until DDS has no more for it, and changes nothing but the world. What is queued is,
  in polling order, one entry for each reader that yielded a sample worth forwarding (one with
  data, or one that reports a disposed or unregistered instance), holding all of those samples
  in the order DDS gave them out, under that reader's topic, and the channels of exactly those
  subscribers of the reader that are connected, each once.
\<close>

theorem poll_collects_subscribers:
  assumes "hash_iteration E" and "rr_ok B (br_readers s)" and "poll_take E s = (pending, s')"
  shows "s' = s\<lparr>world := world s'\<rparr> \<and>
    (\<exists>batches. distinct (map fst batches) \<and> set (map fst batches) = dom (rr_readers (br_readers s)) \<and>
       polled E (br_readers s) (world s) batches (world s') \<and>
       list_all2 (queued_for (rr_readers (br_readers s)) (br_session_senders s))
         (filter (\<lambda>(_, xs). xs \<noteq> []) batches) pending)"
proof -
  let ?ids = "map r_reader_id (rr_all_readers E (br_readers s) (world s))"
  obtain w where p: "poll_readers E (br_readers s) (br_session_senders s) ?ids [] (world s) = (pending, w)"
    and s': "s' = s\<lparr>world := w\<rparr>"
    using assms(3) by (auto simp: poll_take_def Let_def split: prod.splits)
  note all = hash_iteration.rr_all_readers_props(1,2) [OF assms(1,2), where w = "world s"]
  have ids: "set ?ids = dom (rr_readers (br_readers s))" using all(1) rr_okD(3) [OF assms(2)]
    by (force simp: ran_def dom_def)
  from poll_readers_polled [OF assms(1,2) p] ids obtain batches where
    "map fst batches = ?ids" "polled E (br_readers s) (world s) batches w"
    "list_all2 (queued_for (rr_readers (br_readers s)) (br_session_senders s)) (filter (\<lambda>(_, xs). xs \<noteq> []) batches) pending"
    by auto
  moreover have "world s' = w" "s' = s\<lparr>world := world s'\<rparr>" using s' by simp_all
  ultimately show ?thesis using ids all(2) by (intro conjI exI [of _ batches]) (simp_all only:)
qed

lemma sim_subscribed:
  obtains reg w where "rr_ok documented_bytes reg" "rr_tracked reg"
    "rr_readers reg = [1 \<mapsto> \<lparr>r_reader_id = 1, r_handle = 1, r_topic = sim_topic,
       r_qos_normalized = normalize \<lparr>policies = []\<rparr>, r_subscribers = {7}\<rparr>]"
proof -
  obtain reg w where sub: "rr_subscribe sim_env documented_bytes 1 sim_topic None \<lparr>policies = []\<rparr> 7 1 rr_new sim_start = (Ok 1, 1 + 1, reg, w)"
    and r: "rr_readers reg = [1 \<mapsto> \<lparr>r_reader_id = 1, r_handle = of_nat (sim_next sim_start), r_topic = sim_topic,
       r_qos_normalized = normalize \<lparr>policies = []\<rparr>, r_subscribers = {7}\<rparr>]"
    using sim_first_subscribe [of sim_start "\<lparr>policies = []\<rparr>" 7 1] by (auto simp: sim_start_def)
  have none: "rr_readers rr_new 1 = None" by (simp add: rr_new_def)
  have "rr_tracked reg"
    by (rule rr_subscribe_tracked [OF rr_new_ok none sub rr_new_tracked]) (simp add: rr_new_def)
  with that r rr_subscribe_ok [OF rr_new_ok none sub] show ?thesis by (simp add: sim_start_def)
qed

definition sim_sample :: "dds_entity_t \<times> SampleWrapper \<times> SampleInfo" where
  "sim_sample = (1, \<lparr>sw_data = Some [65], sw_len = 1, sw_key_data = None, sw_key_len = 0\<rparr>,
     \<lparr>si_instance_state = DDS_IST_ALIVE, si_valid_data = True, si_source_timestamp = 4\<rparr>)"

theorem poll_collects_subscribers_witness:
  "\<exists>reg pending s' xs. poll_take sim_env (sim_bridge\<lparr>br_readers := reg, br_session_senders := [7 \<mapsto> 9],
       world := sim_start\<lparr>sim_inbox := [sim_sample]\<rparr>\<rparr>) = (pending, s') \<and>
     polled sim_env reg (sim_start\<lparr>sim_inbox := [sim_sample]\<rparr>) [(1, xs)] sim_start \<and>
     xs = [\<lparr>rs_topic_name = ''chat'', rs_instance_state = Alive, rs_source_timestamp = 4, rs_data = [65]\<rparr>] \<and>
     pending = [(xs, [(7, 9)])]"
proof -
  obtain reg :: ReaderRegistry where ok: "rr_ok documented_bytes reg"
    and r: "rr_readers reg = [1 \<mapsto> \<lparr>r_reader_id = 1, r_handle = 1, r_topic = sim_topic,
       r_qos_normalized = normalize \<lparr>policies = []\<rparr>, r_subscribers = {7}\<rparr>]"
    by (rule sim_subscribed)
  let ?s = "sim_bridge\<lparr>br_readers := reg, br_session_senders := [7 \<mapsto> 9], world := sim_start\<lparr>sim_inbox := [sim_sample]\<rparr>\<rparr>"
  let ?xs = "[\<lparr>rs_topic_name = ''chat'', rs_instance_state = Alive, rs_source_timestamp = 4, rs_data = [65]\<rparr>]"
  have "take_loop sim_env x (Suc 255) [] (sim_start\<lparr>sim_inbox := [sim_sample]\<rparr>) =
      ([\<lparr>rs_topic_name = tp_topic_name (r_topic x), rs_instance_state = Alive, rs_source_timestamp = 4, rs_data = [65]\<rparr>], sim_start)"
    if "r_handle x = 1" for x :: DdsReader
    using that by (simp add: sim_env_simps sim_take_def sim_sample_def sim_start_def List.extract_def Let_def
        instance_state_of_def sample_data_def numeral_eq_Suc)
  then have poll: "poll_take sim_env ?s = ([(?xs, [(7, 9)])], ?s\<lparr>world := sim_start\<rparr>)"
    by (simp add: poll_take_def rr_all_readers_def r sim_env_simps rr_get_def rr_get_subscribers_def take_samples_def
        List.map_filter_def Let_def sim_topic_def)
  from poll_collects_subscribers [OF sim.hash_iteration_axioms _ poll, of documented_bytes] ok obtain batches where
    b: "set (map fst batches) = {1}" "distinct (map fst batches)" "polled sim_env reg (sim_start\<lparr>sim_inbox := [sim_sample]\<rparr>) batches sim_start"
      "list_all2 (queued_for (rr_readers reg) [7 \<mapsto> 9]) (filter (\<lambda>(_, xs). xs \<noteq> []) batches) [(?xs, [(7, 9)])]"
    by (simp add: r del: set_map) blast
  have "length (map fst batches) = 1" using distinct_card [OF b(2)] b(1) by simp
  then obtain i ys where ys: "batches = [(i, ys)]" by (auto simp: length_Suc_conv)
  with b(1,4) have "i = 1" "ys = ?xs" by (simp_all add: queued_for_def split: if_splits)
  with ys b(3) poll show ?thesis by blast
qed

text \<open>
  A client of the protocol: it reads the header, takes the announced payload and parses it as
  the message type says. A notification with another version or request id is not accepted.
\<close>

definition client_receive :: "bytes_crate \<Rightarrow> bytes \<Rightarrow> ReceivedSample option" where
  "client_receive B m =
     (case parse_header m of
        Ok h \<Rightarrow>
          if version h \<noteq> VERSION \<or> request_id h \<noteq> 0 then None else
          let payload = take (unat (payload_length h)) (drop HEADER_SIZE m) in
          (case msg_type h of
             Data \<Rightarrow> (case parse_data B payload of
                 Ok d \<Rightarrow> Some \<lparr>rs_topic_name = dp_topic_name d, rs_instance_state = Alive,
                   rs_source_timestamp = dp_source_timestamp d, rs_data = dp_data d\<rparr>
               | _ \<Rightarrow> None)
           | DataDisposed \<Rightarrow> (case parse_data_disposed B payload of
                 Ok d \<Rightarrow> Some \<lparr>rs_topic_name = dd_topic_name d, rs_instance_state = Disposed,
                   rs_source_timestamp = dd_source_timestamp d, rs_data = dd_key_data d\<rparr>
               | _ \<Rightarrow> None)
           | DataNoWriters \<Rightarrow> (case parse_data_no_writers B payload of
                 Ok d \<Rightarrow> Some \<lparr>rs_topic_name = nw_topic_name d, rs_instance_state = NoWriters,
                   rs_source_timestamp = 0, rs_data = nw_key_data d\<rparr>
               | _ \<Rightarrow> None)
           | _ \<Rightarrow> None)
      | _ \<Rightarrow> None)"

text \<open>What a client can know of a sample: DATA_NO_WRITERS carries no timestamp.\<close>

definition as_received :: "ReceivedSample \<Rightarrow> ReceivedSample" where
  "as_received x = (if rs_instance_state x = NoWriters then x\<lparr>rs_source_timestamp := 0\<rparr> else x)"

definition sendable :: "ReceivedSample \<Rightarrow> bool" where
  "sendable x \<longleftrightarrow> string_ok (rs_topic_name x) \<and> length (rs_data x) + MAX_STRING_LENGTH + 12 < 2 ^ 32"

context bytes_laws
begin

lemma length_notifications:
  "length (serialize_data B p) = 12 + length (dp_topic_name p) + length (dp_data p)"
  "length (serialize_data_disposed B q) = 12 + length (dd_topic_name q) + length (dd_key_data q)"
  "length (serialize_data_no_writers B n) = 4 + length (nw_topic_name n) + length (nw_key_data n)"
  by (simp_all add: serialize_data_def serialize_data_disposed_def serialize_data_no_writers_def ser_encs Let_def)

lemma take_announced: "length bs < 2 ^ 32 \<Longrightarrow> take (unat (of_nat (length bs) :: u32)) bs = bs"
  by (simp only: unat_of_nat_u32 take_all)

lemma client_receive_sample:
  assumes "sendable x"
  shows "client_receive B (sample_to_message B x) = Some (as_received x)"
proof -
  have ok: "string_ok (rs_topic_name x)" "length (rs_topic_name x) + length (rs_data x) + 12 < 2 ^ 32"
    using assms by (auto simp: sendable_def string_ok_def)
  have "length (serialize_data B \<lparr>dp_topic_name = rs_topic_name x, dp_source_timestamp = rs_source_timestamp x, dp_data = rs_data x\<rparr>) < 2 ^ 32"
    "length (serialize_data_disposed B \<lparr>dd_topic_name = rs_topic_name x, dd_source_timestamp = rs_source_timestamp x, dd_key_data = rs_data x\<rparr>) < 2 ^ 32"
    "length (serialize_data_no_writers B \<lparr>nw_topic_name = rs_topic_name x, nw_key_data = rs_data x\<rparr>) < 2 ^ 32"
    using ok(2) by (simp_all add: length_notifications)
  note announced = this [THEN take_announced]
  show ?thesis
    using ok(1) by (cases "rs_instance_state x")
      (simp_all add: client_receive_def sample_to_message_def parse_build_message drop_build_message Let_def as_received_def
        announced data_msg.mpar_mser data_disposed_msg.mpar_mser data_no_writers_msg.mpar_mser)
qed

end

definition deliveries :: "(ReceivedSample \<Rightarrow> 'm) \<Rightarrow> pending \<Rightarrow> (Sender \<times> 'm) list" where
  "deliveries f pending =
     concat (map (\<lambda>(samples, subs). concat (map (\<lambda>x. map (\<lambda>(sid, tx). (tx, f x)) subs) samples)) pending)"

lemma send_to_all_eq: "send_to_all E msg subs w = fold (\<lambda>(tx, m) w. snd (try_send E tx m w)) (map (\<lambda>(sid, tx). (tx, msg)) subs) w"
  by (induction subs arbitrary: w) (auto split: prod.split)

lemma fan_out_samples_eq:
  "fan_out_samples E B subs samples w = fold (\<lambda>(tx, m) w. snd (try_send E tx m w))
     (concat (map (\<lambda>x. map (\<lambda>(sid, tx). (tx, sample_to_message B x)) subs) samples)) w"
  by (induction samples arbitrary: w) (auto simp: send_to_all_eq)

lemma fan_out_eq:
  "fan_out E B pending w = fold (\<lambda>(tx, m) w. snd (try_send E tx m w)) (deliveries (sample_to_message B) pending) w"
  by (induction pending arbitrary: w) (auto simp: deliveries_def fan_out_samples_eq)

lemma map_deliveries: "map (\<lambda>(tx, m). (tx, g m)) (deliveries f pending) = deliveries (\<lambda>x. g (f x)) pending"
  by (simp add: deliveries_def map_concat comp_def split_def)

lemma deliveries_cong:
  "(\<And>samples subs x. (samples, subs) \<in> set pending \<Longrightarrow> x \<in> set samples \<Longrightarrow> f x = g x) \<Longrightarrow>
   deliveries f pending = deliveries g pending"
  unfolding deliveries_def split_def
  by (intro arg_cong [where f = concat] map_cong refl) (auto intro!: arg_cong [where f = concat] map_cong)

text \<open>
  C21: what the clients get from the fan-out after a poll. The messages it offers to the
  subscribers' channels, read by a client of the protocol, are the queued samples themselves:
  topic, instance state, data and timestamp (which DATA_NO_WRITERS does not carry), each
  offered once to each subscriber queued with it, reader by reader and sample by sample in the
  order they were taken, whatever becomes of the earlier sends. Topic names must be valid
  strings and the data must leave the payload below 4 GiB, or its length would not fit the header.
\<close>

theorem fan_out_delivers_samples:
  assumes "bytes_laws B" and "\<forall>(samples, subs) \<in> set pending. \<forall>x \<in> set samples. sendable x"
  shows "\<exists>sent. (\<forall>E w. fan_out E B pending w = fold (\<lambda>(tx, m) w. snd (try_send E tx m w)) sent w) \<and>
    map (\<lambda>(tx, m). (tx, client_receive B m)) sent = deliveries (\<lambda>x. Some (as_received x)) pending"
proof (intro exI conjI allI)
  show "fan_out E B pending w = fold (\<lambda>(tx, m) w. snd (try_send E tx m w)) (deliveries (sample_to_message B) pending) w" for E w
    by (rule fan_out_eq)
  show "map (\<lambda>(tx, m). (tx, client_receive B m)) (deliveries (sample_to_message B) pending) =
      deliveries (\<lambda>x. Some (as_received x)) pending"
    unfolding map_deliveries using bytes_laws.client_receive_sample [OF assms(1)] assms(2) by (intro deliveries_cong) fast
qed

definition sim_queue :: pending where
  "sim_queue = [([\<lparr>rs_topic_name = ''a'', rs_instance_state = Alive, rs_source_timestamp = 4, rs_data = [65]\<rparr>,
       \<lparr>rs_topic_name = ''a'', rs_instance_state = Disposed, rs_source_timestamp = 5, rs_data = [1]\<rparr>], [(7, 9), (8, 10)]),
     ([\<lparr>rs_topic_name = ''b'', rs_instance_state = NoWriters, rs_source_timestamp = 6, rs_data = []\<rparr>], [(8, 10)])]"

lemma sim_log_sends:
  "sim_log (fold (\<lambda>(tx, m) w. snd (try_send sim_env tx m w)) ms w) = sim_log w @ map (\<lambda>(tx, m). SimSend tx m) ms"
  by (induction ms arbitrary: w) (simp_all add: sim_env_simps split_def)

theorem fan_out_delivers_samples_witness:
  "\<exists>sent. sim_log (fan_out sim_env documented_bytes sim_queue sim_start) = map (\<lambda>(tx, m). SimSend tx m) sent \<and>
     map (\<lambda>(tx, m). (tx, client_receive documented_bytes m)) sent =
     (let a = Some \<lparr>rs_topic_name = ''a'', rs_instance_state = Alive, rs_source_timestamp = 4, rs_data = [65]\<rparr>;
          b = Some \<lparr>rs_topic_name = ''a'', rs_instance_state = Disposed, rs_source_timestamp = 5, rs_data = [1]\<rparr>;
          c = Some \<lparr>rs_topic_name = ''b'', rs_instance_state = NoWriters, rs_source_timestamp = 0, rs_data = []\<rparr>
      in [(9, a), (10, a), (9, b), (10, b), (10, c)])"
proof -
  have "\<forall>(samples, subs) \<in> set sim_queue. \<forall>x \<in> set samples. sendable x"
    by (simp add: sim_queue_def sendable_def string_ok_ascii MAX_STRING_LENGTH_def)
  from fan_out_delivers_samples [OF doc_bytes.bytes_laws_axioms this] obtain sent where
    run: "\<forall>E w. fan_out E documented_bytes sim_queue w = fold (\<lambda>(tx, m) w. snd (try_send E tx m w)) sent (w :: sim_world)"
    and got: "map (\<lambda>(tx, m). (tx, client_receive documented_bytes m)) sent = deliveries (\<lambda>x. Some (as_received x)) sim_queue"
    by (elim exE conjE)
  have "sim_log (fan_out sim_env documented_bytes sim_queue sim_start) = map (\<lambda>(tx, m). SimSend tx m) sent"
    unfolding run [rule_format] sim_log_sends by (simp add: sim_start_def)
  moreover have "deliveries (\<lambda>x. Some (as_received x)) sim_queue =
     (let a = Some \<lparr>rs_topic_name = ''a'', rs_instance_state = Alive, rs_source_timestamp = 4, rs_data = [65]\<rparr>;
          b = Some \<lparr>rs_topic_name = ''a'', rs_instance_state = Disposed, rs_source_timestamp = 5, rs_data = [1]\<rparr>;
          c = Some \<lparr>rs_topic_name = ''b'', rs_instance_state = NoWriters, rs_source_timestamp = 0, rs_data = []\<rparr>
      in [(9, a), (10, a), (9, b), (10, b), (10, c)])"
    by (simp add: deliveries_def sim_queue_def as_received_def Let_def)
  ultimately show ?thesis using got by (intro exI [of _ sent]) (simp only: Let_def simp_thms)
qed

section \<open>Frames\<close>

text \<open>
  C12: a binary frame reaches a handler exactly if its header parses and is acceptable and the
  announced payload is present (extra bytes are ignored); the handler gets exactly that
  payload. Every other frame is answered with a single ERROR of code INVALID_MESSAGE and
  leaves the state alone.
\<close>

theorem frame_dispatch:
  "(\<forall>h. parse_header data = Ok h \<and> version h \<le> VERSION \<and> unat (payload_length h) \<le> mp \<and> request_id h \<noteq> 0 \<and>
      HEADER_SIZE + unat (payload_length h) \<le> length data \<longrightarrow>
      process_binary_frame E B sid data mp s =
        handle_message E B sid (msg_type h) (request_id h) (take (unat (payload_length h)) (drop HEADER_SIZE data)) s) \<and>
   ((\<nexists>h. parse_header data = Ok h \<and> version h \<le> VERSION \<and> unat (payload_length h) \<le> mp \<and> request_id h \<noteq> 0 \<and>
      HEADER_SIZE + unat (payload_length h) \<le> length data) \<longrightarrow>
      (\<exists>req msg. process_binary_frame E B sid data mp s = (Some [make_error_response B req InvalidMessage msg], s)))"
proof (intro conjI allI impI)
  fix h
  assume "parse_header data = Ok h \<and> version h \<le> VERSION \<and> unat (payload_length h) \<le> mp \<and> request_id h \<noteq> 0 \<and>
      HEADER_SIZE + unat (payload_length h) \<le> length data"
  then have "parse_header data = Ok h" "validate_client_header h VERSION mp = Ok ()"
    "HEADER_SIZE + unat (payload_length h) \<le> length data"
    by (auto simp: validate_client_header_def)
  then show "process_binary_frame E B sid data mp s =
        handle_message E B sid (msg_type h) (request_id h) (take (unat (payload_length h)) (drop HEADER_SIZE data)) s"
    by (simp add: process_binary_frame_def not_less Let_def)
next
  assume no: "\<nexists>h. parse_header data = Ok h \<and> version h \<le> VERSION \<and> unat (payload_length h) \<le> mp \<and> request_id h \<noteq> 0 \<and>
      HEADER_SIZE + unat (payload_length h) \<le> length data"
  obtain r s' where run: "process_binary_frame E B sid data mp s = (r, s')" by fastforce
  then show "\<exists>req msg. process_binary_frame E B sid data mp s = (Some [make_error_response B req InvalidMessage msg], s)"
  proof (cases rule: process_binary_frame_cases)
    case (handled h payload)
    with no have False by (auto simp: validate_client_header_def split: if_splits)
    then show ?thesis ..
  qed (use run in auto)
qed

theorem frame_dispatch_witness:
  "process_binary_frame sim_env documented_bytes 7 (build_message Ping 3 [8] @ [1, 2]) 100 sim_bridge =
   handle_message sim_env documented_bytes 7 Ping 3 [8] sim_bridge"
proof -
  let ?d = "build_message Ping 3 [8] @ [1, 2]"
  have p: "parse_header ?d = Ok \<lparr>version = VERSION, msg_type = Ping, request_id = 3, payload_length = 1\<rparr>"
    by (simp add: build_message_def parse_serialize_header Let_def)
  have "drop HEADER_SIZE ?d = [8, 1, 2]" by (simp add: build_message_def Let_def)
  with p frame_dispatch [of ?d 100 sim_env documented_bytes 7 sim_bridge] show ?thesis
    by (simp add: length_build_message)
qed

section \<open>Disconnecting\<close>

text \<open>
  C13: unregistering a session removes its writers, its subscriptions, its membership in every
  reader and its channel, and changes nothing for any other session, provided every
  membership in a reader has its recorded subscription.
\<close>

theorem unregister_removes_session:
  assumes "hash_iteration E" and "bridge_inv B k s" and "rr_tracked (br_readers s)"
  shows "session_view t (unregister_session E sid s) =
    (if t = sid then \<lparr>v_writers = Map.empty, v_subscriptions = Map.empty, v_readers = {}, v_sender = None\<rparr>
     else session_view t s)"
  using assms by (rule hash_iteration.unregister_session_view)

theorem unregister_removes_session_witness:
  "session_view 7 (unregister_session sim_env 7 (register_session 7 9 sim_bridge)) =
   \<lparr>v_writers = Map.empty, v_subscriptions = Map.empty, v_readers = {}, v_sender = None\<rparr>"
proof -
  have "bridge_inv documented_bytes 1 (register_session 7 9 sim_bridge)"
    unfolding register_session_inv by (rule sim_bridge_inv)
  moreover have "rr_tracked (br_readers (register_session 7 9 sim_bridge))"
    by (simp add: register_session_def sim_bridge_def rr_new_tracked)
  ultimately show ?thesis using unregister_removes_session [OF sim.hash_iteration_axioms, of _ 1 _ 7 7] by simp
qed

lemma effect_tracked:
  assumes inv: "bridge_inv B k s" and tr: "rr_tracked (br_readers s)" and "effect E B sid s s'"
    and once: "\<And>n ty. v_subscriptions (session_view sid s) (n, ty) \<noteq> None \<Longrightarrow>
      v_subscriptions (session_view sid s') (n, ty) = v_subscriptions (session_view sid s) (n, ty) \<or>
      v_subscriptions (session_view sid s') (n, ty) = None"
  shows "rr_tracked (br_readers s')"
  using assms(3)
proof (cases rule: effect.cases)
  case (subscribed ph t qp q w res n' rs w')
  have rs: "br_readers s' = rs" using subscribed(2) by (simp add: light_def)
  note ok = bridge_invD(3) [OF inv] and fresh = fresh_reader_id [OF inv]
  have "rr_tracked rs" if changed: "rs \<noteq> br_readers s"
  proof (rule rr_subscribe_tracked [OF ok fresh subscribed(1) tr])
    fix old assume old: "rr_session_subscriptions (br_readers s) (sid, tp_topic_name t, tp_type_name t) = Some old"
    from ok fresh subscribed(1)
    show "rr_key_to_reader (br_readers s) (reader_key_new B (tp_topic_name t) (tp_type_name t) q) = Some old"
    proof (cases rule: rr_subscribe_cases)
      case (joined rid r)
      have "rr_session_subscriptions rs (sid, tp_topic_name t, tp_type_name t) = Some rid"
        using rr_subscribe_key [OF ok fresh subscribed(1) [unfolded joined(1)]] by blast
      with once [of "tp_topic_name t" "tp_type_name t"] old rs joined(5,6) show ?thesis by (simp add: session_view_def)
    next
      case (created r h)
      have "rr_session_subscriptions rs (sid, tp_topic_name t, tp_type_name t) = Some (next_reader_id s)"
        using rr_subscribe_key [OF ok fresh subscribed(1) [unfolded created(1)]] by blast
      with once [of "tp_topic_name t" "tp_type_name t"] old rs have "old = next_reader_id s" by (simp add: session_view_def)
      with rr_okD(8) [OF ok old] fresh show ?thesis by auto
    next
      case (failed h)
      with changed show ?thesis by simp
    qed
  qed
  with rs tr show ?thesis by (cases "rs = br_readers s") simp_all
next
  case (unsubscribed n ty w found rs w')
  then show ?thesis using rr_unsubscribe_tracked [OF bridge_invD(3) [OF inv] tr unsubscribed(1)] by (simp add: light_def)
qed (use tr in \<open>auto simp: light_def\<close>)

text \<open>
  C16: that every membership in a reader has its recorded subscription is kept by every
  message, unless the message replaces one of the session's recorded subscriptions by one to
  another reader, as a repeated SUBSCRIBE with a different QoS does.
\<close>

theorem message_keeps_tracking:
  assumes "bridge_inv B k s" and "rr_tracked (br_readers s)" and "handle_message E B sid mt req payload s = (ms, s')"
    and "\<forall>n ty old new. v_subscriptions (session_view sid s) (n, ty) = Some old \<and>
      v_subscriptions (session_view sid s') (n, ty) = Some new \<longrightarrow> new = old"
  shows "rr_tracked (br_readers s')"
proof (rule effect_tracked [OF assms(1,2) handle_message_effect [OF assms(3)]])
  fix n ty assume "v_subscriptions (session_view sid s) (n, ty) \<noteq> None"
  then obtain old where "v_subscriptions (session_view sid s) (n, ty) = Some old" by blast
  with assms(4) show "v_subscriptions (session_view sid s') (n, ty) = v_subscriptions (session_view sid s) (n, ty) \<or>
      v_subscriptions (session_view sid s') (n, ty) = None"
    by (cases "v_subscriptions (session_view sid s') (n, ty)") auto
qed

text \<open>Here session 1 repeats its SUBSCRIBE with a default value spelled out, which is the same reader.\<close>

theorem message_keeps_tracking_witness:
  "\<exists>p p'. handle_message sim_env documented_bytes 1 MsgType.Subscribe 5 (sim_sub_bytes [Durability 0]) p =
      (Some [build_message OkMsg 5 []], p') \<and>
     rr_owned (br_readers p) 1 = {1} \<and> v_subscriptions (session_view 1 p) (''chat'', ''Msg'') = Some 1 \<and>
     v_subscriptions (session_view 1 p') (''chat'', ''Msg'') = Some 1 \<and> rr_tracked (br_readers p')"
proof -
  obtain p where run: "handle_message sim_env documented_bytes 1 MsgType.Subscribe 3 (sim_sub_bytes []) (sys_bridge sim_opened) =
      (Some [build_message OkMsg 3 []], p)"
    and p: "pt_topics (br_participant p) (''chat'', ''Msg'') = Some sim_topic"
      "rr_readers (br_readers p) = [1 \<mapsto> \<lparr>r_reader_id = 1, r_handle = 3, r_topic = sim_topic,
         r_qos_normalized = normalize \<lparr>policies = []\<rparr>, r_subscribers = {1}\<rparr>]"
      "rr_session_subscriptions (br_readers p) = [(1, ''chat'', ''Msg'') \<mapsto> 1]"
      "rr_ok documented_bytes (br_readers p)" "rr_tracked (br_readers p)"
    by (rule sim_subscribes)
  have "bridge_inv documented_bytes (Suc 3) (sys_bridge sim_opened)"
    using sim.reach_ok [OF sim_reach_opened [of 64]] by simp
  from handle_message_inv [OF this _ run] have inv: "bridge_inv documented_bytes (Suc (Suc 3)) p" by simp
  let ?q = "\<lparr>policies = [Durability 0]\<rparr>" and ?r = "\<lparr>r_reader_id = 1, r_handle = 3, r_topic = sim_topic,
         r_qos_normalized = normalize \<lparr>policies = []\<rparr>, r_subscribers = {1 :: u64}\<rparr>"
  have topic: "get_topic sim_env ''chat'' ''Msg'' False \<lparr>kd_keys = []\<rparr> p = (Ok sim_topic, p)"
    by (simp add: get_topic_def get_or_create_topic_def p(1))
  obtain h where h: "make_qos sim_env ?q (world p) = (h, world p)"
    by (simp add: make_qos_def from_qos_set_def sim_env_simps)
  have "reader_key documented_bytes ?r = reader_key_new documented_bytes ''chat'' ''Msg'' ?q"
    by (simp add: reader_key_def reader_key_new_def sim_topic_def normalize_def Let_def)
  then have key: "rr_key_to_reader (br_readers p) (reader_key_new documented_bytes ''chat'' ''Msg'' ?q) = Some 1"
    using rr_okD(6) [OF p(4), of 1 ?r] by (simp add: p(2))
  obtain reg where sub: "rr_subscribe sim_env documented_bytes (pt_handle (br_participant p)) sim_topic h ?q 1 (next_reader_id p)
      (br_readers p) (world p) = (Ok 1, next_reader_id p, reg, world p)"
    and reg: "rr_session_subscriptions reg = [(1, ''chat'', ''Msg'') \<mapsto> 1]"
    using key by (simp add: rr_subscribe_def sim_topic_def p(2,3) Let_def)
  from handle_subscribe_run [OF sim_sub_parses, of "[Durability 0]" sim_env p sim_topic p h "world p" 1 1 "next_reader_id p" reg "world p" 5]
    topic h sub
  obtain p' where again: "handle_message sim_env documented_bytes 1 MsgType.Subscribe 5 (sim_sub_bytes [Durability 0]) p =
      (Some [build_message OkMsg 5 []], p')" and p': "br_readers p' = reg"
    by (simp add: sim_sub_def qos_ok_def)
  have "rr_tracked (br_readers p')"
    by (rule message_keeps_tracking [OF inv p(5) again]) (simp add: session_view_def p' reg p(3))
  moreover have "rr_owned (br_readers p) 1 = {1}" by (auto simp: rr_owned_def p(2) split: if_splits)
  ultimately show ?thesis using again
    by (intro exI [of _ p] exI [of _ p'] conjI) (simp_all add: session_view_def p(3) reg p')
qed

end
