(* ===== verification/Hashing.thy ===== *)
theory Hashing
  imports Sertype
begin

text \<open>
  The two hash functions of \<open>src/dds/sertype.rs\<close>: MurmurHash3 (32 bit), which gives a keyed
  sample its bucket, and MD5, which gives keys of more than 16 bytes their key hash. Array
  reads of the input panic out of range, as slices do; the reads of the constant tables and
  of the 16 message words are in range by their index computation. RFC 1321 is the reference
  for MD5.
\<close>

section \<open>Rotation\<close>

text \<open>\<open>u32::rotate_left\<close> by less than 32 bits.\<close>

definition rotate_left :: "nat \<Rightarrow> u32 \<Rightarrow> u32" where
  "rotate_left n w = push_bit n w OR drop_bit (32 - n) w"

lemma rotate_left_word_rotl:
  assumes "n < 32"
  shows "rotate_left n w = word_rotl n w"
proof (rule bit_word_eqI)
  fix k assume "k < LENGTH(32)"
  then have k: "k < 32" by simp
  show "bit (rotate_left n w) k = bit (word_rotl n w) k"
  proof (cases "n \<le> k")
    case True
    then have "(k + 32 - n) mod 32 = k - n"
      using k by (metis Nat.add_diff_assoc2 add.commute less_imp_diff_less mod_add_self1 mod_less)
    with True k assms show ?thesis by (auto simp: rotate_left_def bit_simps dest: bit_imp_le_length)
  next
    case False
    then have "(k + 32 - n) mod 32 = 32 + k - n" by simp
    with False k assms show ?thesis by (auto simp: rotate_left_def bit_simps)
  qed
qed

section \<open>MurmurHash3\<close>

text \<open>\<open>u32::from_le_bytes([data[off], .., data[off + 3]])\<close>.\<close>

definition u32_at :: "bytes \<Rightarrow> nat \<Rightarrow> (unit, u32) result" where
  "u32_at data off =
     and_then (idx data off) (\<lambda>b0. and_then (idx data (off + 1)) (\<lambda>b1.
     and_then (idx data (off + 2)) (\<lambda>b2. and_then (idx data (off + 3)) (\<lambda>b3.
     Ok (from_le [b0, b1, b2, b3])))))"

definition mh3_scramble :: "u32 \<Rightarrow> u32" where
  "mh3_scramble k =
     (let k = k * 0xcc9e2d51;
          k = rotate_left 15 k
      in k * 0x1b873593)"

fun mh3_blocks :: "bytes \<Rightarrow> nat list \<Rightarrow> u32 \<Rightarrow> (unit, u32) result" where
  "mh3_blocks data [] h = Ok h"
| "mh3_blocks data (i # is) h =
     and_then (u32_at data (i * 4)) (\<lambda>k.
     let k = mh3_scramble k;
         h = h XOR k;
         h = rotate_left 13 h;
         h = h * 5 + 0xe6546b64
     in mh3_blocks data is h)"

definition mh3_tail :: "bytes \<Rightarrow> u32 \<Rightarrow> u32" where
  "mh3_tail tail h =
     (let k1 = 0 :: u32;
          k1 = (if length tail \<ge> 3 then k1 XOR push_bit 16 (ucast (tail ! 2)) else k1);
          k1 = (if length tail \<ge> 2 then k1 XOR push_bit 8 (ucast (tail ! 1)) else k1)
      in if tail \<noteq> [] then h XOR mh3_scramble (k1 XOR ucast (tail ! 0)) else h)"

definition mh3_finish :: "nat \<Rightarrow> u32 \<Rightarrow> u32" where
  "mh3_finish len h =
     (let h = h XOR of_nat len;
          h = h XOR drop_bit 16 h;
          h = h * 0x85ebca6b;
          h = h XOR drop_bit 13 h;
          h = h * 0xc2b2ae35
      in h XOR drop_bit 16 h)"

definition murmurhash3 :: "bytes \<Rightarrow> u32 \<Rightarrow> (unit, u32) result" where
  "murmurhash3 data seed =
     (let nblocks = length data div 4 in
      and_then (mh3_blocks data [0..<nblocks] seed) (\<lambda>h.
      and_then (slice_from data (nblocks * 4)) (\<lambda>tail.
      Ok (mh3_finish (length data) (mh3_tail tail h)))))"

section \<open>MD5\<close>

definition MD5_S :: "nat list" where
  "MD5_S =
     [7, 12, 17, 22, 7, 12, 17, 22, 7, 12, 17, 22, 7, 12, 17, 22,
      5, 9, 14, 20, 5, 9, 14, 20, 5, 9, 14, 20, 5, 9, 14, 20,
      4, 11, 16, 23, 4, 11, 16, 23, 4, 11, 16, 23, 4, 11, 16, 23,
      6, 10, 15, 21, 6, 10, 15, 21, 6, 10, 15, 21, 6, 10, 15, 21]"

definition MD5_K :: "u32 list" where
  "MD5_K =
     [0xd76aa478, 0xe8c7b756, 0x242070db, 0xc1bdceee,
      0xf57c0faf, 0x4787c62a, 0xa8304613, 0xfd469501,
      0x698098d8, 0x8b44f7af, 0xffff5bb1, 0x895cd7be,
      0x6b901122, 0xfd987193, 0xa679438e, 0x49b40821,
      0xf61e2562, 0xc040b340, 0x265e5a51, 0xe9b6c7aa,
      0xd62f105d, 0x02441453, 0xd8a1e681, 0xe7d3fbc8,
      0x21e1cde6, 0xc33707d6, 0xf4d50d87, 0x455a14ed,
      0xa9e3e905, 0xfcefa3f8, 0x676f02d9, 0x8d2a4c8a,
      0xfffa3942, 0x8771f681, 0x6d9d6122, 0xfde5380c,
      0xa4beea44, 0x4bdecfa9, 0xf6bb4b60, 0xbebfbc70,
      0x289b7ec6, 0xeaa127fa, 0xd4ef3085, 0x04881d05,
      0xd9d4d039, 0xe6db99e5, 0x1fa27cf8, 0xc4ac5665,
      0xf4292244, 0x432aff97, 0xab9423a7, 0xfc93a039,
      0x655b59c3, 0x8f0ccc92, 0xffeff47d, 0x85845dd1,
      0x6fa87e4f, 0xfe2ce6e0, 0xa3014314, 0x4e0811a1,
      0xf7537e82, 0xbd3af235, 0x2ad7d2bb, 0xeb86d391]"

text \<open>The padding loop \<open>while msg.len() % 64 != 56 { msg.push(0) }\<close>.\<close>

function md5_pad_loop :: "bytes \<Rightarrow> bytes" where
  "md5_pad_loop msg = (if length msg mod 64 \<noteq> 56 then md5_pad_loop (msg @ [0]) else msg)"
  by pat_completeness auto

text \<open>Every turn brings the length closer to the next multiple of 64 plus 56.\<close>

lemma pad_measure:
  assumes "n mod 64 \<noteq> (56 :: nat)"
  shows "(120 - Suc n mod 64) mod 64 < (120 - n mod 64) mod 64"
proof -
  have "n mod 64 < 64" by simp
  moreover have "Suc n mod 64 = (if n mod 64 = 63 then 0 else Suc (n mod 64))" by (simp add: mod_Suc)
  moreover have "(120 - m) mod 64 = (if m \<le> 56 then 56 - m else 120 - m)" if "m < 64" for m :: nat
    using that by (auto simp: mod_if)
  ultimately show ?thesis using assms by (auto split: if_splits)
qed

termination md5_pad_loop
  by (relation "measure (\<lambda>msg. (120 - length msg mod 64) mod 64)") (use pad_measure in auto)

declare md5_pad_loop.simps [simp del]

definition md5_pad :: "bytes \<Rightarrow> bytes" where
  "md5_pad data =
     (let orig_len_bits = (of_nat (length data) :: u64) * 8;
          msg = md5_pad_loop (data @ [0x80])
      in msg @ le_bytes 8 orig_len_bits)"

text \<open>\<open>msg.chunks(64)\<close>; the last chunk may be shorter.\<close>

function chunks64 :: "bytes \<Rightarrow> bytes list" where
  "chunks64 msg = (if msg = [] then [] else take 64 msg # chunks64 (drop 64 msg))"
  by pat_completeness auto

termination chunks64
  by (relation "measure length") auto

declare chunks64.simps [simp del]

text \<open>The array \<open>m\<close> of the 16 little-endian words of a chunk.\<close>

fun md5_words :: "bytes \<Rightarrow> nat list \<Rightarrow> (unit, u32 list) result" where
  "md5_words chunk [] = Ok []"
| "md5_words chunk (i # is) =
     and_then (u32_at chunk (i * 4)) (\<lambda>m_i. and_then (md5_words chunk is) (\<lambda>m. Ok (m_i # m)))"

type_synonym md5_state = "u32 \<times> u32 \<times> u32 \<times> u32"

definition md5_fg :: "nat \<Rightarrow> u32 \<Rightarrow> u32 \<Rightarrow> u32 \<Rightarrow> u32 \<times> nat" where
  "md5_fg i b c d =
     (if i \<le> 15 then ((b AND c) OR (NOT b AND d), i)
      else if i \<le> 31 then ((d AND b) OR (NOT d AND c), (5 * i + 1) mod 16)
      else if i \<le> 47 then (b XOR c XOR d, (3 * i + 5) mod 16)
      else (c XOR (b OR NOT d), (7 * i) mod 16))"

fun md5_round :: "u32 list \<Rightarrow> nat \<Rightarrow> md5_state \<Rightarrow> md5_state" where
  "md5_round m i (a, b, c, d) =
     (case md5_fg i b c d of (f, g) \<Rightarrow>
      let f = f + a + MD5_K ! i + m ! g
      in (d, b + rotate_left (MD5_S ! i) f, b, c))"

fun md5_rounds :: "u32 list \<Rightarrow> nat list \<Rightarrow> md5_state \<Rightarrow> md5_state" where
  "md5_rounds m [] s = s"
| "md5_rounds m (i # is) s = md5_rounds m is (md5_round m i s)"

text \<open>The body of the loop over the chunks, once the words of the chunk are read.\<close>

fun md5_compress :: "md5_state \<Rightarrow> u32 list \<Rightarrow> md5_state" where
  "md5_compress (a0, b0, c0, d0) m =
     (case md5_rounds m [0..<64] (a0, b0, c0, d0) of (a, b, c, d) \<Rightarrow>
      (a0 + a, b0 + b, c0 + c, d0 + d))"

fun md5_chunks :: "bytes list \<Rightarrow> md5_state \<Rightarrow> (unit, md5_state) result" where
  "md5_chunks [] s = Ok s"
| "md5_chunks (chunk # cs) s =
     and_then (map_ok (md5_compress s) (md5_words chunk [0..<16])) (md5_chunks cs)"

definition md5_hash :: "bytes \<Rightarrow> (unit, bytes) result" where
  "md5_hash data =
     and_then (md5_chunks (chunks64 (md5_pad data)) (0x67452301, 0xefcdab89, 0x98badcfe, 0x10325476)) (\<lambda>(a0, b0, c0, d0).
     Ok (le_bytes 4 a0 @ le_bytes 4 b0 @ le_bytes 4 c0 @ le_bytes 4 d0))"

section \<open>Totality\<close>

lemma u32_at_ok: "off + 4 \<le> length data \<Longrightarrow> u32_at data off = Ok (from_le (take 4 (drop off data)))"
proof -
  assume "off + 4 \<le> length data"
  then have "off < length data" "off + 1 < length data" "off + 2 < length data" "off + 3 < length data" by auto
  moreover from this have "take 4 (drop off data) = [data ! off, data ! (off + 1), data ! (off + 2), data ! (off + 3)]"
    by (intro nth_equalityI) (auto simp: nth_Cons' eval_nat_numeral less_Suc_eq)
  ultimately show ?thesis by (simp add: u32_at_def)
qed

text \<open>MurmurHash3 reads within its input, for every input.\<close>

lemma mh3_blocks_total:
  assumes "\<forall>i \<in> set is. i * 4 + 4 \<le> length data"
  shows "\<exists>h'. mh3_blocks data is h = Ok h'"
  using assms
proof (induction "is" arbitrary: h)
  case (Cons i "is")
  then show ?case by (simp add: u32_at_ok Let_def)
qed simp

lemma murmurhash3_total: "\<exists>h. murmurhash3 data seed = Ok h"
proof -
  have le: "i < length data div 4 \<Longrightarrow> i * 4 + 4 \<le> length data" for i by linarith
  obtain h where "mh3_blocks data [0..<length data div 4] seed = Ok h"
    using mh3_blocks_total [of "[0..<length data div 4]" data seed] le by auto
  moreover have "length data div 4 * 4 \<le> length data" by simp
  ultimately show ?thesis by (simp add: murmurhash3_def Let_def)
qed

lemma md5_words_ok:
  assumes "\<forall>i \<in> set is. i * 4 + 4 \<le> length chunk"
  shows "md5_words chunk is = Ok (map (\<lambda>i. from_le (take 4 (drop (i * 4) chunk))) is)"
  using assms by (induction "is") (simp_all add: u32_at_ok)

lemma md5_pad_loop_eq: "md5_pad_loop msg = msg @ replicate ((120 - length msg mod 64) mod 64) 0"
proof (induction msg rule: md5_pad_loop.induct)
  case (1 msg)
  show ?case
  proof (cases "length msg mod 64 = 56")
    case True
    then show ?thesis by (simp add: md5_pad_loop.simps [of msg])
  next
    case False
    let ?k = "\<lambda>n. (120 - n mod 64) mod (64 :: nat)"
    have "?k (length msg) = Suc (?k (Suc (length msg)))"
    proof -
      have "length msg mod 64 < 64" by simp
      moreover have "Suc (length msg) mod 64 = (if length msg mod 64 = 63 then 0 else Suc (length msg mod 64))"
        by (simp add: mod_Suc)
      moreover have "(120 - m) mod 64 = (if m \<le> 56 then 56 - m else 120 - m)" if "m < 64" for m :: nat
        using that by (auto simp: mod_if)
      ultimately show ?thesis using False by (auto split: if_splits)
    qed
    with 1 False show ?thesis by (simp add: md5_pad_loop.simps [of msg])
  qed
qed

lemma length_md5_pad: "length (md5_pad data) mod 64 = 0"
proof -
  have "(n + (120 - n mod 64) mod 64 + 8) mod 64 = (0 :: nat)" for n
  proof -
    have "(n + (120 - n mod 64) mod 64 + 8) mod 64 = (n mod 64 + (120 - n mod 64) + 8) mod 64"
      by (metis (no_types, lifting) mod_add_eq mod_add_left_eq mod_mod_trivial)
    also have "n mod 64 + (120 - n mod 64) + 8 = 128"
      using mod_less_divisor [of 64 n] by linarith
    finally show ?thesis by simp
  qed
  from this [of "Suc (length data)"] show ?thesis by (simp add: md5_pad_def md5_pad_loop_eq Let_def ac_simps)
qed

lemma chunks64_eq: "length msg = 64 * n \<Longrightarrow> chunks64 msg = map (\<lambda>i. take 64 (drop (64 * i) msg)) [0..<n]"
proof (induction n arbitrary: msg)
  case (Suc n)
  then have "msg \<noteq> []" and "length (drop 64 msg) = 64 * n" by auto
  note step = chunks64.simps [of msg] and IH = Suc.IH [OF this(2)]
  have "[0..<Suc n] = 0 # map Suc [0..<n]" by (simp add: upt_conv_Cons map_Suc_upt del: upt_Suc)
  with \<open>msg \<noteq> []\<close> show ?case unfolding step IH by (simp add: add.commute del: upt_Suc)
qed (simp add: chunks64.simps)

section \<open>RFC 1321\<close>

text \<open>
  The reference: the message is padded to a whole number of 64-byte blocks; four registers
  A, B, C, D (numbered 0 to 3) are updated by 64 operations \<open>[abcd k s i]\<close>, where the roles
  \<open>a, b, c, d\<close> move one register back with every operation, and \<open>k\<close>, \<open>s\<close> and the function
  of the round come from the tables of section 3.4. The table T is \<^const>\<open>MD5_K\<close>.
\<close>

definition rfc_F :: "u32 \<Rightarrow> u32 \<Rightarrow> u32 \<Rightarrow> u32" where "rfc_F x y z = (x AND y) OR (NOT x AND z)"
definition rfc_G :: "u32 \<Rightarrow> u32 \<Rightarrow> u32 \<Rightarrow> u32" where "rfc_G x y z = (x AND z) OR (y AND NOT z)"
definition rfc_H :: "u32 \<Rightarrow> u32 \<Rightarrow> u32 \<Rightarrow> u32" where "rfc_H x y z = x XOR y XOR z"
definition rfc_I :: "u32 \<Rightarrow> u32 \<Rightarrow> u32 \<Rightarrow> u32" where "rfc_I x y z = y XOR (x OR NOT z)"

definition rfc_k :: "nat list" where
  "rfc_k = [0, 1, 2, 3, 4, 5, 6, 7, 8, 9, 10, 11, 12, 13, 14, 15,
            1, 6, 11, 0, 5, 10, 15, 4, 9, 14, 3, 8, 13, 2, 7, 12,
            5, 8, 11, 14, 1, 4, 7, 10, 13, 0, 3, 6, 9, 12, 15, 2,
            0, 7, 14, 5, 12, 3, 10, 1, 8, 15, 6, 13, 4, 11, 2, 9]"

definition rfc_s :: "nat \<Rightarrow> nat" where
  "rfc_s i = [[7, 12, 17, 22], [5, 9, 14, 20], [4, 11, 16, 23], [6, 10, 15, 21]] ! (i div 16) ! (i mod 4)"

definition rfc_fun :: "nat \<Rightarrow> u32 \<Rightarrow> u32 \<Rightarrow> u32 \<Rightarrow> u32" where
  "rfc_fun i = [rfc_F, rfc_G, rfc_H, rfc_I] ! (i div 16)"

text \<open>Register number of role \<open>r\<close> (0 for \<open>a\<close>) in operation \<open>i\<close>.\<close>

definition rfc_reg :: "nat \<Rightarrow> nat \<Rightarrow> nat" where "rfc_reg i r = (3 * i + r) mod 4"

definition rfc_op :: "u32 list \<Rightarrow> nat \<Rightarrow> (nat \<Rightarrow> u32) \<Rightarrow> (nat \<Rightarrow> u32)" where
  "rfc_op X i v =
     (let a = rfc_reg i 0; b = rfc_reg i 1; c = rfc_reg i 2; d = rfc_reg i 3
      in v(a := v b + word_rotl (rfc_s i) (v a + rfc_fun i (v b) (v c) (v d) + X ! (rfc_k ! i) + MD5_K ! i)))"

definition rfc_block :: "bytes \<Rightarrow> (nat \<Rightarrow> u32) \<Rightarrow> (nat \<Rightarrow> u32)" where
  "rfc_block block v =
     (let X = map (\<lambda>j. from_le (take 4 (drop (j * 4) block))) [0..<16]
      in (\<lambda>r. v r + fold (rfc_op X) [0..<64] v r))"

definition rfc_padded :: "bytes \<Rightarrow> bytes" where
  "rfc_padded data = data @ [0x80] @ replicate ((119 - length data mod 64) mod 64) 0 @ le_bytes 8 (of_nat (8 * length data) :: u64)"

definition rfc_init :: "nat \<Rightarrow> u32" where
  "rfc_init r = [0x67452301, 0xefcdab89, 0x98badcfe, 0x10325476] ! r"

definition rfc1321_md5 :: "bytes \<Rightarrow> bytes" where
  "rfc1321_md5 data =
     (let M = rfc_padded data;
          v = fold (\<lambda>i. rfc_block (take 64 (drop (64 * i) M))) [0..<length M div 64] rfc_init
      in concat (map (\<lambda>r. le_bytes 4 (v r)) [0, 1, 2, 3]))"

text \<open>The state of the code after \<open>i\<close> operations is the registers in their roles.\<close>

definition roles :: "nat \<Rightarrow> (nat \<Rightarrow> u32) \<Rightarrow> md5_state" where
  "roles i v = (v (rfc_reg i 0), v (rfc_reg i 1), v (rfc_reg i 2), v (rfc_reg i 3))"

lemma md5_tables:
  assumes "i < 64"
  shows "md5_fg i b c d = (rfc_fun i b c d, rfc_k ! i)" and "MD5_S ! i = rfc_s i"
proof -
  have "list_all (\<lambda>i. snd (md5_fg i b c d) = rfc_k ! i) [0..<64]"
    by (simp add: upt_rec rfc_k_def md5_fg_def)
  moreover have "list_all (\<lambda>i. MD5_S ! i = rfc_s i) [0..<64]"
    by code_simp
  moreover have "fst (md5_fg i b c d) = rfc_fun i b c d"
  proof -
    consider "i div 16 = 0" "i \<le> 15" | "i div 16 = 1" "15 < i" "i \<le> 31" | "i div 16 = 2" "31 < i" "i \<le> 47"
      | "i div 16 = 3" "47 < i" using assms by linarith
    then show ?thesis
      by cases (auto simp: md5_fg_def rfc_fun_def rfc_F_def rfc_G_def rfc_H_def rfc_I_def and.commute)
  qed
  ultimately show "md5_fg i b c d = (rfc_fun i b c d, rfc_k ! i)" and "MD5_S ! i = rfc_s i"
    using assms by (auto simp: list_all_iff intro: prod_eqI)
qed

lemma rfc_s_less: "i < 64 \<Longrightarrow> rfc_s i < 32"
proof -
  have "list_all (\<lambda>i. rfc_s i < 32) [0..<64]" by code_simp
  then show "i < 64 \<Longrightarrow> rfc_s i < 32" by (simp add: list_all_iff)
qed

lemma rfc_reg_Suc: "rfc_reg (Suc i) 0 = rfc_reg i 3" "rfc_reg (Suc i) (Suc r) = rfc_reg i r"
  by (simp_all add: rfc_reg_def) presburger+

lemma md5_round_roles:
  assumes "i < 64"
  shows "md5_round m i (roles i v) = roles (Suc i) (rfc_op m i v)"
proof -
  have "rfc_reg i 0 \<noteq> rfc_reg i 1" "rfc_reg i 0 \<noteq> rfc_reg i 2" "rfc_reg i 0 \<noteq> rfc_reg i 3"
    by (simp_all add: rfc_reg_def) presburger+
  then show ?thesis
    using md5_tables [OF assms] rotate_left_word_rotl [OF rfc_s_less [OF assms]] rfc_reg_Suc(1) [of i]
      rfc_reg_Suc(2) [of i 0] rfc_reg_Suc(2) [of i 1] rfc_reg_Suc(2) [of i 2]
    by (simp add: roles_def rfc_op_def Let_def ac_simps numeral_2_eq_2 numeral_3_eq_3)
qed

lemma md5_rounds_roles: "n \<le> 64 \<Longrightarrow> md5_rounds m [0..<n] (roles 0 v) = roles n (fold (rfc_op m) [0..<n] v)"
proof (induction n)
  case (Suc n)
  have app: "md5_rounds m (is @ js) s = md5_rounds m js (md5_rounds m is s)" for "is" js s
    by (induction "is" arbitrary: s) simp_all
  from Suc show ?case by (simp add: app md5_round_roles)
qed simp

lemma roles_period: "roles 64 v = roles 0 v"
  by (simp add: roles_def rfc_reg_def numeral_2_eq_2)

lemma md5_compress_roles:
  "md5_compress (roles 0 v) (map (\<lambda>i. from_le (take 4 (drop (i * 4) chunk))) [0..<16]) = roles 0 (rfc_block chunk v)"
  using md5_rounds_roles [of 64 "map (\<lambda>i. from_le (take 4 (drop (i * 4) chunk))) [0..<16]" v]
  by (simp add: roles_period rfc_block_def Let_def) (simp add: roles_def)

lemma md5_chunks_roles:
  "\<forall>c \<in> set cs. length c = 64 \<Longrightarrow> md5_chunks cs (roles 0 v) = Ok (roles 0 (fold rfc_block cs v))"
proof (induction cs arbitrary: v)
  case (Cons c cs)
  then have "md5_words c [0..<16] = Ok (map (\<lambda>i. from_le (take 4 (drop (i * 4) c))) [0..<16])"
    by (intro md5_words_ok) auto
  with Cons show ?case by (simp add: md5_compress_roles)
qed simp

lemma md5_pad_eq: "md5_pad data = rfc_padded data"
proof -
  have "(120 - Suc n mod 64) mod 64 = (119 - n mod 64) mod (64 :: nat)" for n
    by (auto simp: mod_Suc)
  then show ?thesis by (simp add: md5_pad_def md5_pad_loop_eq rfc_padded_def Let_def mult.commute)
qed

lemma roles_0: "roles 0 v = (v 0, v 1, v 2, v 3)"
proof -
  have "rfc_reg 0 0 = 0" "rfc_reg 0 1 = 1" "rfc_reg 0 2 = 2" "rfc_reg 0 3 = 3"
    unfolding rfc_reg_def by simp_all
  then show ?thesis unfolding roles_def by simp
qed

lemma md5_hash_rfc: "md5_hash data = Ok (rfc1321_md5 data)"
proof -
  obtain n where n: "length (rfc_padded data) = 64 * n" using length_md5_pad [of data] by (auto simp: md5_pad_eq)
  define M where "M = rfc_padded data"
  define v where "v = fold (\<lambda>i. rfc_block (take 64 (drop (64 * i) M))) [0..<length M div 64] rfc_init"
  let ?cs = "map (\<lambda>i. take 64 (drop (64 * i) M)) [0..<n]"
  have "\<forall>c \<in> set ?cs. length c = 64" using n by (auto simp: M_def)
  note md5_chunks_roles [OF this, of rfc_init]
  moreover have "fold rfc_block ?cs rfc_init = v"
    using n by (simp add: v_def fold_map comp_def M_def)
  moreover have "roles 0 rfc_init = (0x67452301, 0xefcdab89, 0x98badcfe, 0x10325476)"
    by (simp add: roles_0 rfc_init_def numeral_2_eq_2 numeral_3_eq_3)
  ultimately have "md5_hash data = Ok (le_bytes 4 (v 0) @ le_bytes 4 (v 1) @ le_bytes 4 (v 2) @ le_bytes 4 (v 3))"
    by (simp only: md5_hash_def md5_pad_eq chunks64_eq [OF n] M_def roles_0 and_then.simps prod.case)
  then show ?thesis unfolding rfc1321_md5_def Let_def M_def [symmetric] v_def [symmetric] by simp
qed

text \<open>The test vector of the repository and of RFC 1321 for \<open>"abc"\<close>.\<close>

lemma md5_abc:
  "md5_hash [0x61, 0x62, 0x63] = Ok [0x90, 0x01, 0x50, 0x98, 0x3c, 0xd2, 0x4f, 0xb0, 0xd6, 0x96, 0x3f, 0x7d, 0x28, 0xe1, 0x7f, 0x72]"
  by code_simp

end
