(* ===== verification/Memory.thy ===== *)
theory Memory
  imports Effects Hashing
begin

text \<open>
  The memory that the serdata callbacks of \<open>src/dds/sertype.rs\<close> work on through raw pointers:
  byte buffers (a forgotten \<open>Vec<u8>\<close>), boxed serdata, sample wrappers and sertypes, each a map
  from addresses to live objects. Address 0 is the null pointer; address 1 stands for the
  non-null pointer of a vector without allocation. An access to something that is not live, a
  read past the end of a buffer, and a \<open>Vec::from_raw_parts\<close> with the wrong pointer or capacity
  are undefined behaviour, the outcome \<open>Err ()\<close>; proving a result \<open>Ok\<close> rules it out. Vectors
  made by \<open>vec![0; n]\<close> and \<open>to_vec\<close> have exactly the capacity they need.
\<close>

type_synonym ptr = nat

definition NULL :: ptr where "NULL = 0"
definition DANGLING :: ptr where "DANGLING = 1"

section \<open>Objects\<close>

datatype ddsi_serdata_kind = SDK_EMPTY | SDK_KEY | SDK_DATA

text \<open>The fields of the C struct that the callbacks use.\<close>

record ddsi_serdata =
  base_type :: ptr
  base_kind :: ddsi_serdata_kind
  base_hash :: u32
  base_refc :: u32

record OpaqueSerdata =
  od_base :: ddsi_serdata
  od_data :: ptr
  od_size :: nat
  od_capacity :: nat
  od_key_data :: ptr
  od_key_size :: nat
  od_key_capacity :: nat

text \<open>A \<open>SampleWrapper\<close> as it lies in memory.\<close>

record raw_sample =
  rw_data :: ptr
  rw_len :: nat
  rw_key_data :: ptr
  rw_key_len :: nat

record ddsrt_iovec =
  iov_base :: ptr
  iov_off :: nat
  iov_len :: nat

record heap =
  hp_next :: ptr
  hp_bufs :: "ptr \<rightharpoonup> bytes \<times> nat"   \<comment> \<open>contents and capacity\<close>
  hp_serdata :: "ptr \<rightharpoonup> OpaqueSerdata"
  hp_samples :: "ptr \<rightharpoonup> raw_sample"
  hp_sertypes :: "ptr \<rightharpoonup> OpaqueSertype"

type_synonym 'a mem = "(heap, unit, 'a) action"

section \<open>Accesses\<close>

definition deref :: "(heap \<Rightarrow> ptr \<rightharpoonup> 'a) \<Rightarrow> ptr \<Rightarrow> 'a mem" where
  "deref field p h = (case field h p of None \<Rightarrow> (Err (), h) | Some x \<Rightarrow> (Ok x, h))"

text \<open>Reading \<open>n\<close> bytes from offset \<open>off\<close> of a buffer; reading nothing needs no buffer.\<close>

definition read_at :: "ptr \<Rightarrow> nat \<Rightarrow> nat \<Rightarrow> bytes mem" where
  "read_at p off n h =
     (if n = 0 then (Ok [], h) else
      case hp_bufs h p of
        None \<Rightarrow> (Err (), h)
      | Some (bs, _) \<Rightarrow> if off + n \<le> length bs then (Ok (take n (drop off bs)), h) else (Err (), h))"

text \<open>\<open>slice::from_raw_parts(p, n)\<close>: the pointer must not be null even for an empty slice.\<close>

definition from_raw_parts :: "ptr \<Rightarrow> nat \<Rightarrow> bytes mem" where
  "from_raw_parts p n = (if p = NULL then lift_st (Err ()) else read_at p 0 n)"

definition write_at :: "bytes \<Rightarrow> nat \<Rightarrow> bytes \<Rightarrow> bytes" where
  "write_at buf off bs = take off buf @ bs @ drop (off + length bs) buf"

definition vec_into_raw :: "bytes \<Rightarrow> (ptr \<times> nat \<times> nat) mem" where
  "vec_into_raw v h =
     (if v = [] then (Ok (DANGLING, 0, 0), h)
      else (Ok (hp_next h, length v, length v),
            h\<lparr>hp_next := hp_next h + 1, hp_bufs := (hp_bufs h)(hp_next h \<mapsto> (v, length v))\<rparr>))"

text \<open>\<open>let _ = Vec::from_raw_parts(p, len, cap)\<close>: the vector is dropped at once.\<close>

definition drop_vec :: "ptr \<Rightarrow> nat \<Rightarrow> nat \<Rightarrow> unit mem" where
  "drop_vec p len cap h =
     (case hp_bufs h p of
        None \<Rightarrow> (Err (), h)
      | Some (bs, c) \<Rightarrow> if c = cap \<and> len \<le> cap then (Ok (), h\<lparr>hp_bufs := (hp_bufs h)(p := None)\<rparr>) else (Err (), h))"

definition box_serdata :: "OpaqueSerdata \<Rightarrow> ptr mem" where
  "box_serdata osd h =
     (Ok (hp_next h), h\<lparr>hp_next := hp_next h + 1, hp_serdata := (hp_serdata h)(hp_next h \<mapsto> osd)\<rparr>)"

definition drop_serdata :: "ptr \<Rightarrow> unit mem" where
  "drop_serdata p = bind_st (deref hp_serdata p) (\<lambda>_ h. (Ok (), h\<lparr>hp_serdata := (hp_serdata h)(p := None)\<rparr>))"

definition store_serdata :: "ptr \<Rightarrow> OpaqueSerdata \<Rightarrow> unit mem" where
  "store_serdata p osd h = (Ok (), h\<lparr>hp_serdata := (hp_serdata h)(p \<mapsto> osd)\<rparr>)"

definition store_sample :: "ptr \<Rightarrow> raw_sample \<Rightarrow> unit mem" where
  "store_sample p w h = (Ok (), h\<lparr>hp_samples := (hp_samples h)(p \<mapsto> w)\<rparr>)"

definition drop_sample :: "ptr \<Rightarrow> unit mem" where
  "drop_sample p = bind_st (deref hp_samples p) (\<lambda>_ h. (Ok (), h\<lparr>hp_samples := (hp_samples h)(p := None)\<rparr>))"

section \<open>Ownership\<close>

text \<open>A vector in raw parts: nothing, an empty vector, or a live buffer of exactly that capacity.\<close>

definition holds :: "heap \<Rightarrow> ptr \<Rightarrow> nat \<Rightarrow> nat \<Rightarrow> bytes \<Rightarrow> bool" where
  "holds h p n c bs \<longleftrightarrow>
     (p \<in> {NULL, DANGLING} \<and> n = 0 \<and> c = 0 \<and> bs = []) \<or>
     (p \<notin> {NULL, DANGLING} \<and> bs \<noteq> [] \<and> n = length bs \<and> c = length bs \<and> hp_bufs h p = Some (bs, length bs))"

definition buffers :: "OpaqueSerdata \<Rightarrow> ptr set" where
  "buffers d = {od_data d, od_key_data d} - {NULL, DANGLING}"

text \<open>The data and the key bytes of a serdata, and what makes it well formed.\<close>

definition serdata_ok :: "heap \<Rightarrow> OpaqueSerdata \<Rightarrow> bytes \<Rightarrow> bytes \<Rightarrow> bool" where
  "serdata_ok h d data key \<longleftrightarrow>
     od_data d \<noteq> NULL \<and> holds h (od_data d) (od_size d) (od_capacity d) data \<and>
     holds h (od_key_data d) (od_key_size d) (od_key_capacity d) key \<and>
     (od_data d = od_key_data d \<longrightarrow> od_data d = DANGLING) \<and>
     hp_sertypes h (base_type (od_base d)) \<noteq> None"

text \<open>
  Every address in use is below the next free one, every serdata is well formed, and no two of
  them share a buffer.
\<close>

definition heap_ok :: "heap \<Rightarrow> bool" where
  "heap_ok h \<longleftrightarrow>
     DANGLING < hp_next h \<and>
     (\<forall>p \<in> dom (hp_bufs h) \<union> dom (hp_serdata h) \<union> dom (hp_samples h) \<union> dom (hp_sertypes h).
        DANGLING < p \<and> p < hp_next h) \<and>
     (\<forall>p d. hp_serdata h p = Some d \<longrightarrow> (\<exists>data key. serdata_ok h d data key)) \<and>
     (\<forall>p q d e. hp_serdata h p = Some d \<and> hp_serdata h q = Some e \<and> p \<noteq> q \<longrightarrow> buffers d \<inter> buffers e = {})"

lemma heap_okD:
  assumes "heap_ok h"
  shows "DANGLING < hp_next h"
    and "hp_bufs h p = Some b \<Longrightarrow> DANGLING < p \<and> p < hp_next h"
    and "hp_serdata h p = Some d \<Longrightarrow> DANGLING < p \<and> p < hp_next h"
    and "hp_serdata h p = Some d \<Longrightarrow> \<exists>data key. serdata_ok h d data key"
    and "hp_serdata h p = Some d \<Longrightarrow> hp_serdata h q = Some e \<Longrightarrow> p \<noteq> q \<Longrightarrow> buffers d \<inter> buffers e = {}"
  using assms unfolding heap_ok_def by blast+

lemma heap_ok_live:
  "heap_ok h \<Longrightarrow> p \<in> dom (hp_bufs h) \<union> dom (hp_serdata h) \<union> dom (hp_samples h) \<union> dom (hp_sertypes h) \<Longrightarrow>
   DANGLING < p \<and> p < hp_next h"
  unfolding heap_ok_def by blast

lemma heap_okI:
  assumes "DANGLING < hp_next h"
    and "\<And>p. p \<in> dom (hp_bufs h) \<union> dom (hp_serdata h) \<union> dom (hp_samples h) \<union> dom (hp_sertypes h) \<Longrightarrow>
      DANGLING < p \<and> p < hp_next h"
    and "\<And>p d. hp_serdata h p = Some d \<Longrightarrow> \<exists>data key. serdata_ok h d data key"
    and "\<And>p q d e. hp_serdata h p = Some d \<Longrightarrow> hp_serdata h q = Some e \<Longrightarrow> p \<noteq> q \<Longrightarrow> buffers d \<inter> buffers e = {}"
  shows "heap_ok h"
  using assms unfolding heap_ok_def by blast

lemma heap_ok_fresh:
  assumes "heap_ok h"
  shows "hp_bufs h (hp_next h) = None" and "hp_serdata h (hp_next h) = None"
    and "hp_next h \<noteq> NULL" and "hp_next h \<noteq> DANGLING"
proof -
  show "hp_bufs h (hp_next h) = None" using heap_okD(2) [OF assms, of "hp_next h"] by (cases "hp_bufs h (hp_next h)") auto
  show "hp_serdata h (hp_next h) = None" using heap_okD(3) [OF assms, of "hp_next h"] by (cases "hp_serdata h (hp_next h)") auto
  show "hp_next h \<noteq> NULL" "hp_next h \<noteq> DANGLING" using heap_okD(1) [OF assms] by (auto simp: NULL_def DANGLING_def)
qed

lemma read_at_ok:
  "hp_bufs h p = Some (bs, c) \<Longrightarrow> off + n \<le> length bs \<Longrightarrow> read_at p off n h = (Ok (take n (drop off bs)), h)"
  by (simp add: read_at_def)

lemma holds_read: "holds h p n c bs \<Longrightarrow> p \<noteq> NULL \<Longrightarrow> from_raw_parts p n h = (Ok bs, h)"
  unfolding holds_def from_raw_parts_def read_at_def by (elim disjE conjE) simp_all

lemma holds_drop: "holds h p n c bs \<Longrightarrow> c > 0 \<Longrightarrow> drop_vec p n c h = (Ok (), h\<lparr>hp_bufs := (hp_bufs h)(p := None)\<rparr>)"
  unfolding holds_def drop_vec_def by (elim disjE conjE) simp_all

lemma holds_size: "holds h p n c bs \<Longrightarrow> n = length bs \<and> c = length bs"
  unfolding holds_def by (elim disjE conjE) simp_all

lemma holds_fun: "holds h p n c bs \<Longrightarrow> holds h p n c bs' \<Longrightarrow> bs = bs'"
  unfolding holds_def by (elim disjE conjE) simp_all

lemma holds_other: "holds h p n c bs \<Longrightarrow> hp_bufs h' p = hp_bufs h p \<Longrightarrow> holds h' p n c bs"
  by (simp add: holds_def)

lemma serdata_ok_update [simp]:
  "serdata_ok (h\<lparr>hp_serdata := m\<rparr>) d data key = serdata_ok h d data key"
  "serdata_ok (h\<lparr>hp_samples := ss\<rparr>) d data key = serdata_ok h d data key"
  "serdata_ok (h\<lparr>hp_next := n\<rparr>) d data key = serdata_ok h d data key"
  by (simp_all add: serdata_ok_def holds_def)

lemma bind_st_run: "m s = (Ok a, t) \<Longrightarrow> bind_st m f s = f a t"
  by (simp add: bind_st_def)

lemma deref_ok: "field h p = Some x \<Longrightarrow> deref field p h = (Ok x, h)"
  by (simp add: deref_def)

end
