(* ===== verification/Serdata.thy ===== *)
theory Serdata
  imports Memory
begin

text \<open>
  The callbacks of \<open>src/dds/sertype.rs\<close> that Cyclone DDS calls through its operation tables,
  and the fragment copy of \<open>helper.c\<close>, on the memory of theory \<open>Memory\<close>. What
  \<open>ddsi_serdata_init\<close> writes into the base of a serdata is a parameter \<open>I\<close> with its documented
  effect as a locale. Sums of \<open>usize\<close> values are taken not to overflow.
\<close>

section \<open>Sertype callbacks\<close>

text \<open>\<open>CStr::from_ptr(st.type_name).to_bytes()\<close>.\<close>

definition cstr_bytes :: "OpaqueSertype \<Rightarrow> bytes" where
  "cstr_bytes st = takeWhile (\<lambda>b. b \<noteq> 0) (as_bytes (st_type_name st))"

definition st_equal :: "ptr \<Rightarrow> ptr \<Rightarrow> bool mem" where
  "st_equal a b =
     bind_st (deref hp_sertypes a) (\<lambda>sa.
     bind_st (deref hp_sertypes b) (\<lambda>sb.
     return_st (cstr_bytes sa = cstr_bytes sb)))"

definition name_hash :: "bytes \<Rightarrow> u32" where
  "name_hash name = foldl (\<lambda>h b. h * 31 + ucast b) 0 name"

definition st_hash :: "ptr \<Rightarrow> u32 mem" where
  "st_hash st = bind_st (deref hp_sertypes st) (\<lambda>s. return_st (name_hash (cstr_bytes s)))"

definition st_free :: "ptr \<Rightarrow> unit mem" where
  "st_free st = bind_st (deref hp_sertypes st) (\<lambda>_ h. (Ok (), h\<lparr>hp_sertypes := (hp_sertypes h)(st := None)\<rparr>))"

section \<open>Releasing\<close>

definition sd_free :: "ptr \<Rightarrow> unit mem" where
  "sd_free sd =
     bind_st (deref hp_serdata sd) (\<lambda>osd.
     bind_st (if od_data osd \<noteq> NULL \<and> od_capacity osd > 0
              then drop_vec (od_data osd) (od_size osd) (od_capacity osd) else return_st ()) (\<lambda>_.
     bind_st (if od_key_data osd \<noteq> NULL \<and> od_key_capacity osd > 0
              then drop_vec (od_key_data osd) (od_key_size osd) (od_key_capacity osd) else return_st ()) (\<lambda>_.
     drop_serdata sd)))"

text \<open>The reference count wraps like the atomic it is.\<close>

definition set_refc :: "u32 \<Rightarrow> OpaqueSerdata \<Rightarrow> OpaqueSerdata" where
  "set_refc n osd = osd\<lparr>od_base := (od_base osd)\<lparr>base_refc := n\<rparr>\<rparr>"

definition serdata_ref :: "ptr \<Rightarrow> unit mem" where
  "serdata_ref sd =
     bind_st (deref hp_serdata sd) (\<lambda>osd. store_serdata sd (set_refc (base_refc (od_base osd) + 1) osd))"

definition serdata_unref :: "ptr \<Rightarrow> unit mem" where
  "serdata_unref sd =
     bind_st (deref hp_serdata sd) (\<lambda>osd.
     bind_st (store_serdata sd (set_refc (base_refc (od_base osd) - 1) osd)) (\<lambda>_.
     if base_refc (od_base osd) = 1 then sd_free sd else return_st ()))"

section \<open>Comparing\<close>

definition has_key :: "OpaqueSerdata \<Rightarrow> bool" where
  "has_key osd \<longleftrightarrow> od_key_data osd \<noteq> NULL \<and> od_key_size osd > 0"

definition sd_eqkey :: "ptr \<Rightarrow> ptr \<Rightarrow> bool mem" where
  "sd_eqkey a b =
     bind_st (deref hp_serdata a) (\<lambda>oa.
     bind_st (deref hp_serdata b) (\<lambda>ob.
     if has_key oa \<and> has_key ob then
       bind_st (from_raw_parts (od_key_data oa) (od_key_size oa)) (\<lambda>ka.
       bind_st (from_raw_parts (od_key_data ob) (od_key_size ob)) (\<lambda>kb.
       return_st (ka = kb)))
     else
       bind_st (deref hp_sertypes (base_type (od_base oa))) (\<lambda>st.
       if st_key_fields st = [] then return_st True
       else if od_data oa = NULL \<or> od_data ob = NULL then return_st (od_data oa = NULL \<and> od_data ob = NULL)
       else
         bind_st (from_raw_parts (od_data oa) (od_size oa)) (\<lambda>da.
         bind_st (from_raw_parts (od_data ob) (od_size ob)) (\<lambda>db.
         lift_st (keys_equal da db (st_key_fields st)))))))"

definition sd_size :: "ptr \<Rightarrow> u32 mem" where
  "sd_size sd = bind_st (deref hp_serdata sd) (\<lambda>osd. return_st (of_nat (od_size osd)))"

definition sd_get_keyhash :: "ptr \<Rightarrow> bool \<Rightarrow> bytes mem" where
  "sd_get_keyhash sd force_md5 =
     bind_st (deref hp_serdata sd) (\<lambda>osd.
     if has_key osd then
       bind_st (from_raw_parts (od_key_data osd) (od_key_size osd)) (\<lambda>key_bytes.
       if \<not> force_md5 \<and> length key_bytes \<le> 16
       then return_st (key_bytes @ replicate (16 - length key_bytes) 0)
       else lift_st (md5_hash key_bytes))
     else
       bind_st (deref hp_sertypes (base_type (od_base osd))) (\<lambda>st.
       if st_key_fields st = [] then return_st (replicate 16 0)
       else if od_data osd = NULL \<or> od_size osd = 0 then return_st (replicate 16 0)
       else
         bind_st (from_raw_parts (od_data osd) (od_size osd)) (\<lambda>data.
         bind_st (lift_st (hash_key_bytes data (st_key_fields st))) (\<lambda>hash.
         return_st (le_bytes 4 hash @ replicate 12 0)))))"

section \<open>Creating\<close>

text \<open>
  The common end of the constructors: box the parts, let \<open>ddsi_serdata_init\<close> fill in the base,
  set the hash.
\<close>

definition new_serdata ::
  "(ptr \<Rightarrow> ddsi_serdata_kind \<Rightarrow> ddsi_serdata) \<Rightarrow> ptr \<Rightarrow> ddsi_serdata_kind \<Rightarrow> ptr \<times> nat \<times> nat \<Rightarrow>
   ptr \<times> nat \<times> nat \<Rightarrow> u32 \<Rightarrow> ptr mem" where
  "new_serdata I st kind data key hash =
     (case data of (data_ptr, data_len, data_cap) \<Rightarrow> case key of (key_ptr, key_len, key_cap) \<Rightarrow>
      box_serdata \<lparr>od_base = (I st kind)\<lparr>base_hash := hash\<rparr>,
        od_data = data_ptr, od_size = data_len, od_capacity = data_cap,
        od_key_data = key_ptr, od_key_size = key_len, od_key_capacity = key_cap\<rparr>)"

text \<open>A fragment of a received message: the bytes from \<open>min\<close> up to \<open>maxp1\<close>.\<close>

record ddsi_rdata =
  frag_min :: nat
  frag_maxp1 :: nat
  frag_payload :: bytes

fun copy_fragchain :: "ddsi_rdata list \<Rightarrow> nat \<Rightarrow> nat \<Rightarrow> bytes \<Rightarrow> (unit, nat \<times> bytes) result" where
  "copy_fragchain [] n_bytes off buf = Ok (if off < n_bytes then off else n_bytes, buf)"
| "copy_fragchain (frag # frags) n_bytes off buf =
     (if frag_maxp1 frag > off then
        let start = (if off > frag_min frag then off - frag_min frag else 0);
            count = frag_maxp1 frag - off;
            count = (if off + count > n_bytes then n_bytes - off else count)
        in if start + count \<le> length (frag_payload frag) \<and> off + count \<le> length buf then
             let buf = write_at buf off (take count (drop start (frag_payload frag)));
                 off = frag_maxp1 frag
             in if off \<ge> n_bytes then Ok (if off < n_bytes then off else n_bytes, buf)
                else copy_fragchain frags n_bytes off buf
           else Err ()
      else copy_fragchain frags n_bytes off buf)"

definition copy_fragchain_to_buf :: "ddsi_rdata list \<Rightarrow> nat \<Rightarrow> bytes \<Rightarrow> (unit, nat \<times> bytes) result" where
  "copy_fragchain_to_buf fragchain n_bytes buf = copy_fragchain fragchain n_bytes 0 buf"

definition sd_from_ser ::
  "(ptr \<Rightarrow> ddsi_serdata_kind \<Rightarrow> ddsi_serdata) \<Rightarrow> ptr \<Rightarrow> ddsi_serdata_kind \<Rightarrow> ddsi_rdata list \<Rightarrow> nat \<Rightarrow> ptr mem" where
  "sd_from_ser I st kind fragchain n_bytes =
     bind_st (lift_st (copy_fragchain_to_buf fragchain n_bytes (replicate n_bytes 0))) (\<lambda>(_, buf).
     bind_st (vec_into_raw buf) (\<lambda>data.
     bind_st (st_hash st) (\<lambda>hash.
     new_serdata I st kind data (NULL, 0, 0) hash)))"

fun copy_iovs :: "ddsrt_iovec list \<Rightarrow> nat \<Rightarrow> nat \<Rightarrow> bytes \<Rightarrow> bytes mem" where
  "copy_iovs [] n_bytes off buf = return_st buf"
| "copy_iovs (io # iovs) n_bytes off buf =
     (let to_copy = min (iov_len io) (n_bytes - off) in
      if to_copy > 0 then
        bind_st (read_at (iov_base io) (iov_off io) to_copy) (\<lambda>bs.
        copy_iovs iovs n_bytes (off + to_copy) (write_at buf off bs))
      else copy_iovs iovs n_bytes off buf)"

definition sd_from_ser_iov ::
  "(ptr \<Rightarrow> ddsi_serdata_kind \<Rightarrow> ddsi_serdata) \<Rightarrow> ptr \<Rightarrow> ddsi_serdata_kind \<Rightarrow> ddsrt_iovec list \<Rightarrow> nat \<Rightarrow> ptr mem" where
  "sd_from_ser_iov I st kind iovs n_bytes =
     bind_st (copy_iovs iovs n_bytes 0 (replicate n_bytes 0)) (\<lambda>buf.
     bind_st (vec_into_raw buf) (\<lambda>data.
     bind_st (st_hash st) (\<lambda>hash.
     new_serdata I st kind data (NULL, 0, 0) hash)))"

definition sd_from_keyhash ::
  "(ptr \<Rightarrow> ddsi_serdata_kind \<Rightarrow> ddsi_serdata) \<Rightarrow> ptr \<Rightarrow> bytes \<Rightarrow> ptr mem" where
  "sd_from_keyhash I st kh =
     bind_st (vec_into_raw kh) (\<lambda>data.
     bind_st (st_hash st) (\<lambda>hash.
     new_serdata I st SDK_KEY data (NULL, 0, 0) hash))"

definition sd_from_sample ::
  "(ptr \<Rightarrow> ddsi_serdata_kind \<Rightarrow> ddsi_serdata) \<Rightarrow> ptr \<Rightarrow> ddsi_serdata_kind \<Rightarrow> ptr \<Rightarrow> ptr mem" where
  "sd_from_sample I st kind sample =
     bind_st (deref hp_samples sample) (\<lambda>wrapper.
     bind_st (from_raw_parts (rw_data wrapper) (rw_len wrapper)) (\<lambda>src.
     bind_st (vec_into_raw src) (\<lambda>data.
     bind_st (if rw_key_len wrapper > 0 \<and> rw_key_data wrapper \<noteq> NULL
              then bind_st (from_raw_parts (rw_key_data wrapper) (rw_key_len wrapper)) vec_into_raw
              else return_st (NULL, 0, 0)) (\<lambda>(key_ptr, key_len, key_cap).
     bind_st (st_hash st) (\<lambda>seed.
     bind_st (if key_len > 0
              then bind_st (from_raw_parts key_ptr key_len) (\<lambda>key_bytes. lift_st (murmurhash3 key_bytes seed))
              else return_st seed) (\<lambda>hash.
     new_serdata I st kind data (key_ptr, key_len, key_cap) hash))))))"

section \<open>Serializing\<close>

text \<open>The bytes of the caller's buffer after the call.\<close>

definition sd_to_ser :: "ptr \<Rightarrow> nat \<Rightarrow> nat \<Rightarrow> bytes \<Rightarrow> bytes mem" where
  "sd_to_ser sd off sz buf =
     bind_st (deref hp_serdata sd) (\<lambda>osd.
     if od_data osd \<noteq> NULL \<and> off + sz \<le> od_size osd \<and> sz > 0 then
       bind_st (read_at (od_data osd) off sz) (\<lambda>bs. return_st (write_at buf 0 bs))
     else if sz > 0 then return_st (write_at buf 0 (replicate sz 0))
     else return_st buf)"

text \<open>Out of range, a zeroed buffer is allocated and never freed.\<close>

definition sd_to_ser_ref :: "ptr \<Rightarrow> nat \<Rightarrow> nat \<Rightarrow> (ptr \<times> ddsrt_iovec) mem" where
  "sd_to_ser_ref sd off sz =
     bind_st (deref hp_serdata sd) (\<lambda>osd.
     bind_st (if od_data osd \<noteq> NULL \<and> off + sz \<le> od_size osd
              then return_st \<lparr>iov_base = od_data osd, iov_off = off, iov_len = sz\<rparr>
              else if sz > 0
              then bind_st (vec_into_raw (replicate sz 0)) (\<lambda>(buf, _, _). return_st \<lparr>iov_base = buf, iov_off = 0, iov_len = sz\<rparr>)
              else return_st \<lparr>iov_base = DANGLING, iov_off = 0, iov_len = 0\<rparr>) (\<lambda>ref.
     bind_st (serdata_ref sd) (\<lambda>_. return_st (sd, ref))))"

definition sd_to_ser_unref :: "ptr \<Rightarrow> ddsrt_iovec \<Rightarrow> unit mem" where
  "sd_to_ser_unref sd ref = serdata_unref sd"

definition sd_to_untyped :: "ptr \<Rightarrow> ptr mem" where
  "sd_to_untyped sd = bind_st (serdata_ref sd) (\<lambda>_. return_st sd)"

section \<open>Samples\<close>

definition sd_to_sample :: "ptr \<Rightarrow> ptr \<Rightarrow> bool mem" where
  "sd_to_sample sd sample =
     bind_st (deref hp_serdata sd) (\<lambda>osd.
     bind_st (deref hp_samples sample) (\<lambda>_.
     bind_st (if od_size osd > 0 \<and> od_data osd \<noteq> NULL then
                bind_st (read_at (od_data osd) 0 (od_size osd)) (\<lambda>bs.
                bind_st (vec_into_raw bs) (\<lambda>(buf, _, _). return_st buf))
              else return_st NULL) (\<lambda>data.
     bind_st (store_sample sample \<lparr>rw_data = data, rw_len = od_size osd, rw_key_data = NULL, rw_key_len = 0\<rparr>) (\<lambda>_.
     return_st True))))"

definition sd_untyped_to_sample :: "ptr \<Rightarrow> ptr \<Rightarrow> ptr \<Rightarrow> bool mem" where
  "sd_untyped_to_sample st sd sample = sd_to_sample sd sample"

definition free_sample_data :: "ptr \<Rightarrow> unit mem" where
  "free_sample_data wrapper =
     bind_st (deref hp_samples wrapper) (\<lambda>w.
     if rw_data w \<noteq> NULL \<and> rw_len w > 0 then
       bind_st (drop_vec (rw_data w) (rw_len w) (rw_len w)) (\<lambda>_.
       store_sample wrapper (w\<lparr>rw_data := NULL, rw_len := 0\<rparr>))
     else return_st ())"

text \<open>The two loops of \<open>st_free_samples\<close>; the flags are the two tests on \<open>op\<close>.\<close>

fun free_contents :: "ptr list \<Rightarrow> unit mem" where
  "free_contents [] = return_st ()"
| "free_contents (p # ps) =
     bind_st (deref hp_samples p) (\<lambda>sample.
     bind_st (if rw_data sample \<noteq> NULL \<and> rw_len sample > 0 then
                bind_st (drop_vec (rw_data sample) (rw_len sample) (rw_len sample)) (\<lambda>_.
                store_sample p (sample\<lparr>rw_data := NULL\<rparr>))
              else return_st ()) (\<lambda>_.
     free_contents ps))"

fun free_wrappers :: "ptr list \<Rightarrow> unit mem" where
  "free_wrappers [] = return_st ()"
| "free_wrappers (p # ps) = bind_st (drop_sample p) (\<lambda>_. free_wrappers ps)"

definition st_free_samples :: "ptr list \<Rightarrow> bool \<Rightarrow> bool \<Rightarrow> unit mem" where
  "st_free_samples ptrs contents_bit all_bit =
     bind_st (if contents_bit then free_contents ptrs else return_st ()) (\<lambda>_.
     if all_bit then free_wrappers ptrs else return_st ())"

text \<open>\<open>st_zero_samples\<close> and \<open>st_realloc_samples\<close> do nothing.\<close>

definition st_zero_samples :: "unit mem" where "st_zero_samples = return_st ()"
definition st_realloc_samples :: "unit mem" where "st_realloc_samples = return_st ()"

section \<open>The documented effect of \<open>ddsi_serdata_init\<close>\<close>

locale serdata_init =
  fixes I :: "ptr \<Rightarrow> ddsi_serdata_kind \<Rightarrow> ddsi_serdata"
  assumes init_type [simp]: "base_type (I st kind) = st"
    and init_kind [simp]: "base_kind (I st kind) = kind"
    and init_refc [simp]: "base_refc (I st kind) = 1"

definition documented_init :: "ptr \<Rightarrow> ddsi_serdata_kind \<Rightarrow> ddsi_serdata" where
  "documented_init st kind = \<lparr>base_type = st, base_kind = kind, base_hash = 0, base_refc = 1\<rparr>"

interpretation doc_init: serdata_init documented_init
  by unfold_locales (simp_all add: documented_init_def)

end
