(* ===== verification/Serdata_Mem.thy ===== *)
theory Serdata_Mem
  imports Serdata
begin

text \<open>
  Memory facts of the serdata callbacks: what a constructor adds to the memory, what releasing
  a serdata takes away, and that both keep the ownership invariant \<^const>\<open>heap_ok\<close>.
\<close>

section \<open>Creating\<close>

text \<open>The memory after creating serdata \<open>d\<close> at \<open>p\<close>: its box and its buffers are new, the rest stays.\<close>

definition created :: "heap \<Rightarrow> heap \<Rightarrow> ptr \<Rightarrow> OpaqueSerdata \<Rightarrow> bytes \<Rightarrow> bytes \<Rightarrow> bool" where
  "created h h' p d data key \<longleftrightarrow>
     heap_ok h' \<and> serdata_ok h' d data key \<and>
     hp_serdata h p = None \<and> hp_serdata h' = (hp_serdata h)(p \<mapsto> d) \<and>
     hp_bufs h = hp_bufs h' |` (- buffers d) \<and>
     hp_samples h' = hp_samples h \<and> hp_sertypes h' = hp_sertypes h"

text \<open>Memory that only gained a buffer.\<close>

definition grown :: "heap \<Rightarrow> heap \<Rightarrow> ptr \<Rightarrow> nat \<Rightarrow> nat \<Rightarrow> bytes \<Rightarrow> bool" where
  "grown h h' p n c bs \<longleftrightarrow>
     heap_ok h' \<and> holds h' p n c bs \<and> hp_bufs h = (hp_bufs h')(p := None) \<and>
     hp_serdata h' = hp_serdata h \<and> hp_samples h' = hp_samples h \<and> hp_sertypes h' = hp_sertypes h"

lemma serdata_ok_cong:
  assumes "serdata_ok h d data key" and "\<And>p. p \<in> buffers d \<Longrightarrow> hp_bufs h' p = hp_bufs h p"
    and "hp_sertypes h' = hp_sertypes h"
  shows "serdata_ok h' d data key"
  using assms(1,3) assms(2) [of "od_data d"] assms(2) [of "od_key_data d"]
  unfolding serdata_ok_def buffers_def holds_def by auto

lemma buffers_live: "serdata_ok h d data key \<Longrightarrow> buffers d \<subseteq> dom (hp_bufs h)"
  unfolding serdata_ok_def buffers_def holds_def by auto

lemma vec_into_raw_grown:
  assumes "heap_ok h"
  obtains p n c h' where "vec_into_raw v h = (Ok (p, n, c), h')" "grown h h' p n c v" "n = length v" "p \<noteq> NULL"
proof (cases "v = []")
  case True
  with assms have none: "hp_bufs h DANGLING = None"
    using heap_okD(2) [OF assms, of DANGLING] by (cases "hp_bufs h DANGLING") auto
  show thesis
    by (rule that [of DANGLING 0 0 h])
      (use assms True none in \<open>auto simp: vec_into_raw_def grown_def holds_def NULL_def DANGLING_def fun_eq_iff\<close>)
next
  case False
  let ?h = "h\<lparr>hp_next := hp_next h + 1, hp_bufs := (hp_bufs h)(hp_next h \<mapsto> (v, length v))\<rparr>"
  note fresh = heap_ok_fresh [OF assms]
  have "serdata_ok ?h d data key" if "serdata_ok h d data key" for d data key
    using that by (rule serdata_ok_cong) (use buffers_live [OF that] fresh(1) in auto)
  note keep = this
  have "heap_ok ?h"
  proof (rule heap_okI)
    show "DANGLING < hp_next ?h" using heap_okD(1) [OF assms] by simp
  next
    fix p assume "p \<in> dom (hp_bufs ?h) \<union> dom (hp_serdata ?h) \<union> dom (hp_samples ?h) \<union> dom (hp_sertypes ?h)"
    then consider "p = hp_next h" | "p \<in> dom (hp_bufs h) \<union> dom (hp_serdata h) \<union> dom (hp_samples h) \<union> dom (hp_sertypes h)"
      by auto
    then show "DANGLING < p \<and> p < hp_next ?h"
      by cases (use heap_okD(1) [OF assms] heap_ok_live [OF assms, of p] in simp_all)
  next
    fix p d assume "hp_serdata ?h p = Some d"
    then obtain data key where "serdata_ok h d data key" using heap_okD(4) [OF assms, of p d] by auto
    then show "\<exists>data key. serdata_ok ?h d data key" using keep by blast
  next
    fix p q d e assume "hp_serdata ?h p = Some d" "hp_serdata ?h q = Some e" "p \<noteq> q"
    then show "buffers d \<inter> buffers e = {}" using heap_okD(5) [OF assms, of p d q e] by simp
  qed
  moreover have "(hp_bufs h)(hp_next h := None) = hp_bufs h" using fresh(1) by (auto simp: fun_eq_iff)
  ultimately show thesis
    by (intro that [of "hp_next h" "length v" "length v" ?h])
      (use False fresh in \<open>auto simp: vec_into_raw_def grown_def holds_def\<close>)
qed

lemma heap_ok_none: "heap_ok h \<Longrightarrow> p \<in> {NULL, DANGLING} \<Longrightarrow> hp_bufs h p = None"
  using heap_okD(2) [of h p] by (cases "hp_bufs h p") (auto simp: NULL_def DANGLING_def)

lemma grown_null: "heap_ok h \<Longrightarrow> grown h h NULL 0 0 []"
  using heap_ok_none [of h NULL] by (auto simp: grown_def holds_def fun_eq_iff)

lemma box_created:
  assumes ok: "heap_ok h" and d: "serdata_ok h d data key"
    and new: "\<forall>q e. hp_serdata h q = Some e \<longrightarrow> buffers d \<inter> buffers e = {}"
  shows "\<exists>h'. box_serdata d h = (Ok (hp_next h), h') \<and> heap_ok h' \<and> serdata_ok h' d data key \<and>
    hp_serdata h (hp_next h) = None \<and> hp_serdata h' = (hp_serdata h)(hp_next h \<mapsto> d) \<and> hp_bufs h' = hp_bufs h \<and>
    hp_samples h' = hp_samples h \<and> hp_sertypes h' = hp_sertypes h"
proof -
  let ?h = "h\<lparr>hp_next := hp_next h + 1, hp_serdata := (hp_serdata h)(hp_next h \<mapsto> d)\<rparr>"
  have "heap_ok ?h"
  proof (rule heap_okI)
    show "DANGLING < hp_next ?h" using heap_okD(1) [OF ok] by simp
  next
    fix p assume "p \<in> dom (hp_bufs ?h) \<union> dom (hp_serdata ?h) \<union> dom (hp_samples ?h) \<union> dom (hp_sertypes ?h)"
    then consider "p = hp_next h" | "p \<in> dom (hp_bufs h) \<union> dom (hp_serdata h) \<union> dom (hp_samples h) \<union> dom (hp_sertypes h)"
      by auto
    then show "DANGLING < p \<and> p < hp_next ?h"
      by cases (use heap_okD(1) [OF ok] heap_ok_live [OF ok, of p] in simp_all)
  next
    fix p e assume e: "hp_serdata ?h p = Some e"
    have "\<exists>data key. serdata_ok h e data key"
    proof (cases "p = hp_next h")
      case True
      with e d show ?thesis by auto
    next
      case False
      with e show ?thesis by (intro heap_okD(4) [OF ok, of p]) simp
    qed
    then show "\<exists>data key. serdata_ok ?h e data key" by simp
  next
    fix p q e f assume e: "hp_serdata ?h p = Some e" "hp_serdata ?h q = Some f" "p \<noteq> q"
    show "buffers e \<inter> buffers f = {}"
    proof (cases "p = hp_next h")
      case True
      with e have "e = d" "hp_serdata h q = Some f" by simp_all
      then show ?thesis using new by simp
    next
      case p: False
      show ?thesis
      proof (cases "q = hp_next h")
        case True
        with e p have "f = d" "hp_serdata h p = Some e" by simp_all
        with new have "buffers f \<inter> buffers e = {}" by blast
        then show ?thesis by (simp add: Int_commute)
      next
        case False
        with e p show ?thesis by (intro heap_okD(5) [OF ok, of p e q f]) simp_all
      qed
    qed
  qed
  with d heap_ok_fresh(2) [OF ok] show ?thesis
    by (intro exI [of _ ?h]) (simp add: box_serdata_def)
qed

lemma new_serdata_created:
  assumes g1: "grown h h1 p n c data" and g2: "grown h1 h2 kp kn kc key" and null: "p \<noteq> NULL"
    and st: "hp_sertypes h st \<noteq> None" and I: "serdata_init I" and ok0: "heap_ok h"
  obtains q h' d where "new_serdata I st kind (p, n, c) (kp, kn, kc) hash h2 = (Ok q, h')"
    "created h h' q d data key" "base_type (od_base d) = st" "base_refc (od_base d) = 1" "base_hash (od_base d) = hash"
    "od_key_data d = kp"
proof -
  let ?d = "\<lparr>od_base = (I st kind)\<lparr>base_hash := hash\<rparr>, od_data = p, od_size = n, od_capacity = c,
    od_key_data = kp, od_key_size = kn, od_key_capacity = kc\<rparr>"
  have ok: "heap_ok h2" and key: "holds h2 kp kn kc key" and bufs: "hp_bufs h1 = (hp_bufs h2)(kp := None)"
    "hp_bufs h = (hp_bufs h1)(p := None)"
    and same: "hp_serdata h2 = hp_serdata h" "hp_samples h2 = hp_samples h" "hp_sertypes h2 = hp_sertypes h"
    using g1 g2 by (auto simp: grown_def)
  have data1: "holds h1 p n c data" and ok1: "heap_ok h1" using g1 by (simp_all add: grown_def)
  have sep: "p = kp \<longrightarrow> p = DANGLING"
  proof
    assume "p = kp"
    with bufs have "hp_bufs h1 p = None" by simp
    with data1 null show "p = DANGLING" by (auto simp: holds_def)
  qed
  with bufs data1 have "holds h2 p n c data" by (auto simp: holds_def)
  with key sep null st same I have d: "serdata_ok h2 ?d data key"
    by (simp add: serdata_ok_def serdata_init_def)
  have "buffers ?d \<inter> buffers e = {}" if "hp_serdata h2 q = Some e" for q e
  proof -
    have e: "hp_serdata h q = Some e" using that same by simp
    obtain data' key' where "serdata_ok h e data' key'" using heap_okD(4) [OF ok0 e] by blast
    note live = buffers_live [OF this]
    have "hp_bufs h b = None" if "b \<in> buffers ?d" for b
      using that bufs by (auto simp: buffers_def)
    with live show ?thesis by fastforce
  qed
  then have "\<forall>q e. hp_serdata h2 q = Some e \<longrightarrow> buffers ?d \<inter> buffers e = {}" by blast
  from box_created [OF ok d this] obtain h' where box: "box_serdata ?d h2 = (Ok (hp_next h2), h')" "heap_ok h'"
    "serdata_ok h' ?d data key" "hp_serdata h2 (hp_next h2) = None"
    "hp_serdata h' = (hp_serdata h2)(hp_next h2 \<mapsto> ?d)" "hp_bufs h' = hp_bufs h2"
    "hp_samples h' = hp_samples h2" "hp_sertypes h' = hp_sertypes h2" by blast
  have "hp_bufs h = hp_bufs h2 |` (- buffers ?d)"
    using bufs heap_ok_none [OF ok] by (auto simp: buffers_def restrict_map_def fun_eq_iff)
  with box same have "created h h' (hp_next h2) ?d data key" unfolding created_def by simp
  with box(1) show thesis
    by (intro that [of "hp_next h2" h' ?d]) (use I in \<open>simp_all add: new_serdata_def serdata_init_def\<close>)
qed

text \<open>The tail of the constructors without key bytes.\<close>

lemma st_hash_Ok: "st_hash st h = (Ok x, h') \<longleftrightarrow> (\<exists>s. hp_sertypes h st = Some s \<and> x = name_hash (cstr_bytes s) \<and> h' = h)"
  by (auto simp: st_hash_def bind_st_def deref_def return_st_def split: option.splits)

lemma keyless_created:
  assumes ok: "heap_ok h" and I: "serdata_init I"
    and run: "bind_st (vec_into_raw buf) (\<lambda>data. bind_st (st_hash st) (\<lambda>hash.
      new_serdata I st kind data (NULL, 0, 0) hash)) h = (Ok q, h')"
  obtains d s where "created h h' q d buf []" "base_type (od_base d) = st" "base_refc (od_base d) = 1"
    "hp_sertypes h st = Some s" "base_hash (od_base d) = name_hash (cstr_bytes s)" "\<not> has_key d"
proof -
  obtain p n c h1 where v: "vec_into_raw buf h = (Ok (p, n, c), h1)" "grown h h1 p n c buf" "p \<noteq> NULL"
    by (rule vec_into_raw_grown [OF ok])
  from run v(1) obtain hash h2 where hash: "st_hash st h1 = (Ok hash, h2)"
    and new: "new_serdata I st kind (p, n, c) (NULL, 0, 0) hash h2 = (Ok q, h')"
    by (auto elim!: bind_st_cases)
  then obtain s where s: "hp_sertypes h1 st = Some s" "hash = name_hash (cstr_bytes s)" "h2 = h1" by (auto simp: st_hash_Ok)
  have st: "hp_sertypes h st = Some s" and ok1: "heap_ok h1" using s(1) v(2) by (simp_all add: grown_def)
  from st have "hp_sertypes h st \<noteq> None" by simp
  from new_serdata_created [OF v(2) grown_null [OF ok1] v(3) this I ok, of kind hash] obtain q' h'' d where
    d: "new_serdata I st kind (p, n, c) (NULL, 0, 0) hash h1 = (Ok q', h'')"
    "created h h'' q' d buf []" "base_type (od_base d) = st" "base_refc (od_base d) = 1" "base_hash (od_base d) = hash"
    "od_key_data d = NULL" by blast
  with new s(3) have "q' = q" "h'' = h'" by simp_all
  with d s st show thesis by (intro that [of d s]) (simp_all add: has_key_def)
qed

text \<open>Reading does not change the memory, and what was readable stays so when memory grows.\<close>

lemma from_raw_parts_state: "from_raw_parts p n h = (r, h') \<Longrightarrow> h' = h"
  by (auto simp: from_raw_parts_def read_at_def lift_st_def split: if_splits option.splits prod.splits)

lemma from_raw_parts_grown:
  assumes "grown h h1 q m c bs'" and "from_raw_parts p n h = (Ok bs, h)"
  shows "from_raw_parts p n h1 = (Ok bs, h1)"
proof -
  have "hp_bufs h p = None \<or> hp_bufs h1 p = hp_bufs h p" using assms(1) by (auto simp: grown_def)
  with assms(2) show ?thesis
    by (auto simp: from_raw_parts_def read_at_def lift_st_def split: if_splits option.splits prod.splits)
qed

lemma from_raw_parts_length: "from_raw_parts p n h = (Ok bs, h') \<Longrightarrow> length bs = n"
  by (auto simp: from_raw_parts_def read_at_def lift_st_def split: if_splits option.splits prod.splits)

definition sample_key :: "heap \<Rightarrow> raw_sample \<Rightarrow> bytes \<Rightarrow> bool" where
  "sample_key h w key \<longleftrightarrow>
     (if rw_key_len w > 0 \<and> rw_key_data w \<noteq> NULL
      then from_raw_parts (rw_key_data w) (rw_key_len w) h = (Ok key, h) else key = [])"

definition bucket_hash :: "bytes \<Rightarrow> OpaqueSertype \<Rightarrow> u32" where
  "bucket_hash key s = (if key = [] then name_hash (cstr_bytes s)
     else (case murmurhash3 key (name_hash (cstr_bytes s)) of Ok x \<Rightarrow> x | _ \<Rightarrow> 0))"

lemma sd_from_sample_created:
  assumes ok: "heap_ok h" and I: "serdata_init I" and w: "hp_samples h smp = Some w"
    and data: "from_raw_parts (rw_data w) (rw_len w) h = (Ok data, h)" and key: "sample_key h w key"
    and st: "hp_sertypes h st = Some s"
  obtains q h' d where "sd_from_sample I st kind smp h = (Ok q, h')" "created h h' q d data key"
    "base_type (od_base d) = st" "base_refc (od_base d) = 1" "base_hash (od_base d) = bucket_hash key s"
    "has_key d \<longleftrightarrow> key \<noteq> []"
proof -
  obtain p n c h1 where v: "vec_into_raw data h = (Ok (p, n, c), h1)" "grown h h1 p n c data" "p \<noteq> NULL"
    by (rule vec_into_raw_grown [OF ok])
  have ok1: "heap_ok h1" and st1: "hp_sertypes h1 st = Some s" using v(2) st by (simp_all add: grown_def)
  obtain kp kn kc h2 where k: "(if rw_key_len w > 0 \<and> rw_key_data w \<noteq> NULL
      then bind_st (from_raw_parts (rw_key_data w) (rw_key_len w)) vec_into_raw else return_st (NULL, 0, 0)) h1 = (Ok (kp, kn, kc), h2)"
    and g2: "grown h1 h2 kp kn kc key" and kn: "kn = length key" and nn: "key \<noteq> [] \<Longrightarrow> kp \<noteq> NULL"
  proof (cases "rw_key_len w > 0 \<and> rw_key_data w \<noteq> NULL")
    case True
    with key have "from_raw_parts (rw_key_data w) (rw_key_len w) h1 = (Ok key, h1)"
      by (intro from_raw_parts_grown [OF v(2)]) (simp add: sample_key_def)
    moreover obtain kp kn kc h2 where "vec_into_raw key h1 = (Ok (kp, kn, kc), h2)" "grown h1 h2 kp kn kc key"
      "kn = length key" "kp \<noteq> NULL" by (rule vec_into_raw_grown [OF ok1])
    ultimately show thesis using True by (intro that) (simp_all add: bind_st_def)
  next
    case False
    with key grown_null [OF ok1] show thesis
      by (intro that [of NULL 0 0 h1]) (auto simp: sample_key_def return_st_def)
  qed
  have ok2: "heap_ok h2" and st2: "hp_sertypes h2 st = Some s" using g2 st1 by (simp_all add: grown_def)
  obtain x where x: "murmurhash3 key (name_hash (cstr_bytes s)) = Ok x" using murmurhash3_total by blast
  have hash: "(if kn > 0 then bind_st (from_raw_parts kp kn) (\<lambda>kb. lift_st (murmurhash3 kb (name_hash (cstr_bytes s))))
      else return_st (name_hash (cstr_bytes s))) h2 = (Ok (bucket_hash key s), h2)"
  proof (cases "key = []")
    case False
    have "holds h2 kp kn kc key" using g2 by (simp add: grown_def)
    from holds_read [OF this nn [OF False]] False kn x show ?thesis
      by (simp add: bind_st_def lift_st_def bucket_hash_def)
  qed (simp add: kn return_st_def bucket_hash_def)
  from st have "hp_sertypes h st \<noteq> None" by simp
  from new_serdata_created [OF v(2) g2 v(3) this I ok, of kind "bucket_hash key s"] obtain q h' d where
    d: "new_serdata I st kind (p, n, c) (kp, kn, kc) (bucket_hash key s) h2 = (Ok q, h')"
    "created h h' q d data key" "base_type (od_base d) = st" "base_refc (od_base d) = 1"
    "base_hash (od_base d) = bucket_hash key s" "od_key_data d = kp" by blast
  have seed: "st_hash st h2 = (Ok (name_hash (cstr_bytes s)), h2)" using st2 by (simp add: st_hash_Ok)
  have w': "deref hp_samples smp h = (Ok w, h)" by (rule deref_ok) (rule w)
  have "sd_from_sample I st kind smp h = (Ok q, h')"
    by (simp only: sd_from_sample_def bind_st_def w' data v(1) k seed hash d(1) prod.case result.case)
  moreover have "has_key d \<longleftrightarrow> key \<noteq> []"
    using d(2,6) nn unfolding has_key_def created_def serdata_ok_def by (auto dest: holds_size)
  ultimately show thesis using d by (intro that) simp_all
qed

section \<open>Releasing\<close>

lemma drop_vec_if:
  assumes "holds h p n c bs"
  shows "(if p \<noteq> NULL \<and> c > 0 then drop_vec p n c else return_st ()) h =
    (Ok (), h\<lparr>hp_bufs := hp_bufs h |` (- ({p} - {NULL, DANGLING}))\<rparr>)"
proof (cases "p \<in> {NULL, DANGLING}")
  case True
  with assms have "c = 0" by (auto simp: holds_def)
  with True show ?thesis by (auto simp: return_st_def restrict_map_def fun_eq_iff)
next
  case False
  with assms have "c > 0" by (auto simp: holds_def)
  moreover have "{p} - {NULL, DANGLING} = {p}" using False by auto
  moreover have "(hp_bufs h)(p := None) = hp_bufs h |` (- {p})" by (auto simp: restrict_map_def fun_eq_iff)
  ultimately show ?thesis using False holds_drop [OF assms] by simp
qed

lemma sd_free_ok:
  assumes p: "hp_serdata h p = Some d" and d: "serdata_ok h d data key"
  shows "sd_free p h = (Ok (), h\<lparr>hp_bufs := hp_bufs h |` (- buffers d), hp_serdata := (hp_serdata h)(p := None)\<rparr>)"
proof -
  let ?h1 = "h\<lparr>hp_bufs := hp_bufs h |` (- ({od_data d} - {NULL, DANGLING}))\<rparr>"
  have data: "holds h (od_data d) (od_size d) (od_capacity d) data"
    and key: "holds h (od_key_data d) (od_key_size d) (od_key_capacity d) key"
    and sep: "od_data d = od_key_data d \<longrightarrow> od_data d = DANGLING"
    using d by (simp_all add: serdata_ok_def)
  from key sep have "holds ?h1 (od_key_data d) (od_key_size d) (od_key_capacity d) key"
    by (auto simp: holds_def restrict_map_def)
  note one = drop_vec_if [OF data] and two = drop_vec_if [OF this]
  have "- ({od_data d} - {NULL, DANGLING}) \<inter> - ({od_key_data d} - {NULL, DANGLING}) = - buffers d"
    by (auto simp: buffers_def)
  then show ?thesis
    using p one two
    by (simp add: sd_free_def bind_st_def deref_def drop_serdata_def Int_commute)
qed

lemma heap_ok_free:
  assumes ok: "heap_ok h" and p: "hp_serdata h p = Some d"
  shows "heap_ok (h\<lparr>hp_bufs := hp_bufs h |` (- buffers d), hp_serdata := (hp_serdata h)(p := None)\<rparr>)" (is "heap_ok ?h")
proof -
  have "\<exists>data key. serdata_ok ?h e data key" if "hp_serdata ?h q = Some e" for q e
  proof -
    from that have q: "hp_serdata h q = Some e" "q \<noteq> p" by (auto split: if_splits)
    obtain data key where e: "serdata_ok h e data key" using heap_okD(4) [OF ok q(1)] by blast
    then have "serdata_ok ?h e data key"
      by (rule serdata_ok_cong) (use heap_okD(5) [OF ok q(1) p q(2)] in \<open>auto simp: restrict_map_def\<close>)
    then show ?thesis by blast
  qed
  note wf = this
  show ?thesis
  proof (rule heap_okI)
    show "DANGLING < hp_next ?h" using heap_okD(1) [OF ok] by simp
  next
    fix q assume "q \<in> dom (hp_bufs ?h) \<union> dom (hp_serdata ?h) \<union> dom (hp_samples ?h) \<union> dom (hp_sertypes ?h)"
    then have "q \<in> dom (hp_bufs h) \<union> dom (hp_serdata h) \<union> dom (hp_samples h) \<union> dom (hp_sertypes h)"
      by (auto simp: restrict_map_def split: if_splits)
    with heap_ok_live [OF ok, of q] show "DANGLING < q \<and> q < hp_next ?h" by simp
  next
    fix q r e f assume "hp_serdata ?h q = Some e" "hp_serdata ?h r = Some f" "q \<noteq> r"
    then show "buffers e \<inter> buffers f = {}" using heap_okD(5) [OF ok, of q e r f] by (simp split: if_splits)
  qed (rule wf)
qed

text \<open>Releasing a fresh serdata gives back exactly what creating it took.\<close>

lemma created_free:
  assumes "created h h' p d data key"
  shows "\<exists>h''. sd_free p h' = (Ok (), h'') \<and> hp_bufs h'' = hp_bufs h \<and> hp_serdata h'' = hp_serdata h \<and>
    hp_samples h'' = hp_samples h \<and> hp_sertypes h'' = hp_sertypes h"
proof -
  have p: "hp_serdata h' p = Some d" and d: "serdata_ok h' d data key" using assms by (auto simp: created_def)
  have "(hp_serdata h)(p := None) = hp_serdata h" using assms by (auto simp: created_def fun_eq_iff)
  with assms sd_free_ok [OF p d] show ?thesis by (simp add: created_def)
qed

section \<open>Reference counting\<close>

lemma buffers_set_refc [simp]: "buffers (set_refc n d) = buffers d"
  by (simp add: buffers_def set_refc_def)

lemma serdata_ok_set_refc [simp]: "serdata_ok h (set_refc n d) data key = serdata_ok h d data key"
  by (simp add: serdata_ok_def set_refc_def)

lemma set_refc_set_refc [simp]: "set_refc m (set_refc n d) = set_refc m d" "base_refc (od_base (set_refc n d)) = n"
  by (simp_all add: set_refc_def)

lemma serdata_ref_eq:
  "hp_serdata h p = Some d \<Longrightarrow>
   serdata_ref p h = (Ok (), h\<lparr>hp_serdata := (hp_serdata h)(p \<mapsto> set_refc (base_refc (od_base d) + 1) d)\<rparr>)"
  by (simp add: serdata_ref_def bind_st_def deref_def store_serdata_def)

lemma serdata_unref_more:
  "hp_serdata h p = Some d \<Longrightarrow> base_refc (od_base d) \<noteq> 1 \<Longrightarrow>
   serdata_unref p h = (Ok (), h\<lparr>hp_serdata := (hp_serdata h)(p \<mapsto> set_refc (base_refc (od_base d) - 1) d)\<rparr>)"
  by (simp add: serdata_unref_def bind_st_def deref_def store_serdata_def return_st_def)

lemma serdata_unref_last:
  assumes p: "hp_serdata h p = Some d" and one: "base_refc (od_base d) = 1" and d: "serdata_ok h d data key"
  shows "serdata_unref p h = (Ok (), h\<lparr>hp_bufs := hp_bufs h |` (- buffers d), hp_serdata := (hp_serdata h)(p := None)\<rparr>)"
proof -
  let ?d = "set_refc 0 d" and ?h = "h\<lparr>hp_serdata := (hp_serdata h)(p \<mapsto> set_refc 0 d)\<rparr>"
  have "serdata_ok ?h ?d data key" using d by simp
  from sd_free_ok [OF _ this, of p] p one show ?thesis
    by (simp add: serdata_unref_def bind_st_def deref_def store_serdata_def)
qed

end
