(* ===== verification/Serdata_Life.thy ===== *)
theory Serdata_Life
  imports Serdata_Mem
begin

text \<open>
  The life of a serdata: reassembling received data, its constructors with what they store,
  reading it back, reference counting, and the comparison of keys.
\<close>

section \<open>Whole life\<close>

text \<open>The same objects are live, with the same contents.\<close>

definition same_memory :: "heap \<Rightarrow> heap \<Rightarrow> bool" where
  "same_memory h h' \<longleftrightarrow> hp_bufs h' = hp_bufs h \<and> hp_serdata h' = hp_serdata h \<and>
     hp_samples h' = hp_samples h \<and> hp_sertypes h' = hp_sertypes h"

text \<open>
  A constructor ran without undefined behaviour and made a well-formed serdata with these bytes
  and one reference, on disjoint fresh memory; dropping that reference restores the memory.
\<close>

definition makes_serdata ::
  "(unit, ptr) result \<times> heap \<Rightarrow> heap \<Rightarrow> ptr \<Rightarrow> bytes \<Rightarrow> bytes \<Rightarrow> u32 \<Rightarrow> bool" where
  "makes_serdata r h st data key hash \<longleftrightarrow>
     (\<exists>p h' d. r = (Ok p, h') \<and> heap_ok h' \<and> hp_serdata h p = None \<and> hp_serdata h' = (hp_serdata h)(p \<mapsto> d) \<and>
        serdata_ok h' d data key \<and> base_type (od_base d) = st \<and> base_refc (od_base d) = 1 \<and> base_hash (od_base d) = hash \<and>
        (\<exists>h''. serdata_unref p h' = (Ok (), h'') \<and> same_memory h h''))"

lemma created_unref:
  assumes c: "created h h' p d data key" and one: "base_refc (od_base d) = 1"
  shows "\<exists>h''. serdata_unref p h' = (Ok (), h'') \<and> same_memory h h''"
proof -
  have p: "hp_serdata h' p = Some d" and d: "serdata_ok h' d data key" using c by (auto simp: created_def)
  have "(hp_serdata h)(p := None) = hp_serdata h" using c by (auto simp: created_def fun_eq_iff)
  with c serdata_unref_last [OF p one d] show ?thesis by (simp add: created_def same_memory_def)
qed

lemma created_makes:
  "created h h' p d data key \<Longrightarrow> base_type (od_base d) = st \<Longrightarrow> base_refc (od_base d) = 1 \<Longrightarrow>
   base_hash (od_base d) = hash \<Longrightarrow> makes_serdata (Ok p, h') h st data key hash"
  using created_unref [of h h' p d data key] unfolding makes_serdata_def created_def by blast

lemma keyless_runs:
  assumes ok: "heap_ok h" and I: "serdata_init I" and st: "hp_sertypes h st = Some s"
  shows "makes_serdata (bind_st (vec_into_raw buf) (\<lambda>data. bind_st (st_hash st) (\<lambda>hash.
      new_serdata I st kind data (NULL, 0, 0) hash)) h) h st buf [] (name_hash (cstr_bytes s))"
    (is "makes_serdata ?r _ _ _ _ _")
proof -
  obtain p n c h1 where v: "vec_into_raw buf h = (Ok (p, n, c), h1)" "grown h h1 p n c buf"
    by (rule vec_into_raw_grown [OF ok])
  then have "st_hash st h1 = (Ok (name_hash (cstr_bytes s)), h1)" using st by (simp add: st_hash_Ok grown_def)
  with v(1) have "\<exists>q h'. ?r = (Ok q, h')" by (simp add: bind_st_def new_serdata_def box_serdata_def)
  then obtain q h' where r: "?r = (Ok q, h')" by blast
  obtain d s' where d: "created h h' q d buf []" "base_type (od_base d) = st" "base_refc (od_base d) = 1"
    "hp_sertypes h st = Some s'" "base_hash (od_base d) = name_hash (cstr_bytes s')"
    by (rule keyless_created [OF ok I r])
  from d(4) st have "s' = s" by simp
  with d show ?thesis unfolding r by (intro created_makes) simp_all
qed

section \<open>Fragments\<close>

text \<open>A fragment carries the bytes of the message from \<open>min\<close> up to \<open>maxp1\<close>.\<close>

definition fragment_of :: "bytes \<Rightarrow> ddsi_rdata \<Rightarrow> bool" where
  "fragment_of msg f \<longleftrightarrow>
     frag_min f \<le> frag_maxp1 f \<and> frag_maxp1 f - frag_min f \<le> length (frag_payload f) \<and>
     take (frag_maxp1 f - frag_min f) (frag_payload f) = take (frag_maxp1 f - frag_min f) (drop (frag_min f) msg)"

text \<open>The chain covers the first \<open>n\<close> bytes without a gap; fragments may overlap.\<close>

fun gapless :: "ddsi_rdata list \<Rightarrow> nat \<Rightarrow> nat \<Rightarrow> bool" where
  "gapless [] n off \<longleftrightarrow> n \<le> off"
| "gapless (f # fs) n off \<longleftrightarrow> n \<le> off \<or> frag_min f \<le> off \<and> gapless fs n (max off (frag_maxp1 f))"

lemma gapless_done: "n \<le> off \<Longrightarrow> gapless fs n off"
  by (cases fs) simp_all

lemma fragment_bytes:
  assumes f: "fragment_of msg f" and off: "frag_min f \<le> off" "off + c \<le> frag_maxp1 f"
  shows "off - frag_min f + c \<le> length (frag_payload f)"
    and "take c (drop (off - frag_min f) (frag_payload f)) = take c (drop off msg)"
proof -
  let ?m = "frag_maxp1 f - frag_min f" and ?o = "off - frag_min f"
  have le: "?o + c \<le> ?m" using off by simp
  then show "?o + c \<le> length (frag_payload f)" using f by (simp add: fragment_of_def)
  have cut: "take c (drop ?o xs) = take c (drop ?o (take ?m xs))" for xs :: bytes
    using le by (simp add: drop_take take_take min_absorb1)
  have "take c (drop ?o (frag_payload f)) = take c (drop ?o (take ?m (drop (frag_min f) msg)))"
    using f unfolding cut [of "frag_payload f"] by (simp add: fragment_of_def)
  also have "\<dots> = take c (drop off msg)"
    using off unfolding cut [symmetric] by simp
  finally show "take c (drop ?o (frag_payload f)) = take c (drop off msg)" .
qed

lemma write_at_take:
  assumes "take off buf = take off msg" and "off + c \<le> length buf" and "off + c \<le> length msg"
  shows "length (write_at buf off (take c (drop off msg))) = length buf"
    and "take (off + c) (write_at buf off (take c (drop off msg))) = take (off + c) msg"
proof -
  have "min c (length msg - off) = c" using assms(3) by linarith
  then have len: "length (take c (drop off msg)) = c" by simp
  from assms(2) len show "length (write_at buf off (take c (drop off msg))) = length buf"
    by (simp add: write_at_def)
  have "take (off + c) (write_at buf off (take c (drop off msg))) = take off buf @ take c (drop off msg)"
    using assms(2) len by (simp add: write_at_def)
  then show "take (off + c) (write_at buf off (take c (drop off msg))) = take (off + c) msg"
    using assms(1) by (simp add: take_add)
qed

lemma copy_fragchain_msg:
  assumes "gapless frags n off" and "\<forall>f \<in> set frags. fragment_of msg f" and "n \<le> length msg"
    and "length buf = n" and "off \<le> n" and "take off buf = take off msg"
  shows "copy_fragchain frags n off buf = Ok (n, take n msg)"
  using assms
proof (induction frags arbitrary: off buf)
  case Nil
  then show ?case by simp
next
  case (Cons f fs)
  have f: "fragment_of msg f" using Cons.prems(2) by simp
  show ?case
  proof (cases "frag_maxp1 f > off")
    case False
    then have "gapless fs n off" using Cons.prems(1) gapless_done by (auto simp: max_def)
    with False Cons show ?thesis by simp
  next
    case more: True
    show ?thesis
    proof (cases "off < n")
      case False
      with Cons.prems have "off = n" "buf = take n msg" by simp_all
      moreover have "frag_min f < off \<longrightarrow> off - frag_min f \<le> length (frag_payload f)"
        using f more by (auto simp: fragment_of_def)
      ultimately show ?thesis using more Cons.prems(3,4) by (simp add: Let_def write_at_def)
    next
      case True
      let ?c = "min (frag_maxp1 f) n - off"
      let ?buf = "write_at buf off (take ?c (drop off msg))"
      have min: "frag_min f \<le> off" and rest: "gapless fs n (frag_maxp1 f)"
        using Cons.prems(1) True more by (auto simp: max_def)
      have c: "off + ?c = min (frag_maxp1 f) n" using True more by simp
      have bytes: "off - frag_min f + ?c \<le> length (frag_payload f)"
        "take ?c (drop (off - frag_min f) (frag_payload f)) = take ?c (drop off msg)"
        using fragment_bytes [OF f min, of ?c] c by simp_all
      have buf: "length ?buf = n" "take (min (frag_maxp1 f) n) ?buf = take (min (frag_maxp1 f) n) msg"
        using write_at_take [of off buf msg ?c] Cons.prems(3,4,6) c by simp_all
      have start: "(if off > frag_min f then off - frag_min f else 0) = off - frag_min f" by simp
      have count: "(if off + (frag_maxp1 f - off) > n then n - off else frag_maxp1 f - off) = ?c"
        using more by auto
      have fits: "off - frag_min f + ?c \<le> length (frag_payload f) \<and> off + ?c \<le> length buf"
        using bytes(1) Cons.prems(4) unfolding c by simp
      have run: "copy_fragchain (f # fs) n off buf =
        (if frag_maxp1 f \<ge> n then Ok (n, ?buf) else copy_fragchain fs n (frag_maxp1 f) ?buf)"
        unfolding copy_fragchain.simps Let_def start count bytes(2) if_P [OF more] if_P [OF fits] by simp
      show ?thesis
      proof (cases "frag_maxp1 f \<ge> n")
        case True
        with buf run show ?thesis by (simp add: min_absorb2)
      next
        case False
        with buf Cons.IH [OF rest, of ?buf] Cons.prems(2,3) show ?thesis
          unfolding run by (simp add: min_absorb1)
      qed
    qed
  qed
qed

section \<open>I/O vectors\<close>

lemma write_at_append:
  assumes "off + length a + length b \<le> length buf"
  shows "write_at (write_at buf off a) (off + length a) b = write_at buf off (a @ b)"
  using assms by (simp add: write_at_def ac_simps)

lemma read_at_prefix:
  assumes "read_at p off n h = (Ok bs, h)" and "m \<le> n"
  shows "read_at p off m h = (Ok (take m bs), h)" and "length bs = n"
  using assms by (auto simp: read_at_def min_def split: if_splits option.splits prod.splits)

lemma copy_iovs_eq:
  assumes "list_all2 (\<lambda>io bs. read_at (iov_base io) (iov_off io) (iov_len io) h = (Ok bs, h)) iovs parts"
    and "length buf = n" and "off \<le> n"
  shows "copy_iovs iovs n off buf h = (Ok (write_at buf off (take (n - off) (concat parts))), h)"
  using assms
proof (induction iovs parts arbitrary: off buf rule: list_all2_induct)
  case Nil
  then show ?case by (simp add: return_st_def write_at_def)
next
  case (Cons io iovs bs parts)
  let ?c = "min (iov_len io) (n - off)"
  have bs: "read_at (iov_base io) (iov_off io) ?c h = (Ok (take ?c bs), h)" "length bs = iov_len io"
    using read_at_prefix [OF Cons.hyps(1), of ?c] by simp_all
  have len: "length (take ?c bs) = ?c" using bs(2) by simp
  have cut: "take (n - off) (bs @ xs) = take ?c bs @ take (n - (off + ?c)) xs" for xs :: bytes
    using bs(2) by (auto simp: min_def)
  show ?case
  proof (cases "?c > 0")
    case True
    have "length (write_at buf off (take ?c bs)) = n" using Cons.prems len by (simp add: write_at_def)
    moreover have "off + ?c \<le> n" using Cons.prems(2) by simp
    ultimately have "copy_iovs iovs n (off + ?c) (write_at buf off (take ?c bs)) h =
      (Ok (write_at (write_at buf off (take ?c bs)) (off + ?c) (take (n - (off + ?c)) (concat parts))), h)"
      by (rule Cons.IH)
    also have "write_at (write_at buf off (take ?c bs)) (off + ?c) (take (n - (off + ?c)) (concat parts)) =
      write_at buf off (take (n - off) (concat (bs # parts)))"
    proof -
      let ?b = "take (n - (off + ?c)) (concat parts)"
      have "off + length (take ?c bs) + length ?b \<le> length buf"
        using Cons.prems(1) \<open>off + ?c \<le> n\<close> unfolding len by simp
      from write_at_append [OF this] show ?thesis unfolding concat.simps cut len .
    qed
    finally show ?thesis using True bs(1) by (simp add: bind_st_def Let_def)
  next
    case False
    then have zero: "?c = 0" by linarith
    have "take (n - off) (concat (bs # parts)) = take (n - off) (concat parts)"
      using cut [of "concat parts"] unfolding zero by simp
    with Cons.IH [OF Cons.prems] zero show ?thesis by (simp add: Let_def)
  qed
qed

section \<open>Reading a sample back\<close>

lemma heap_ok_store_sample:
  assumes ok: "heap_ok h" and out: "hp_samples h out \<noteq> None"
  shows "heap_ok (h\<lparr>hp_samples := (hp_samples h)(out \<mapsto> w)\<rparr>)"
proof (rule heap_okI)
  fix p assume "p \<in> dom (hp_bufs (h\<lparr>hp_samples := (hp_samples h)(out \<mapsto> w)\<rparr>)) \<union>
    dom (hp_serdata (h\<lparr>hp_samples := (hp_samples h)(out \<mapsto> w)\<rparr>)) \<union>
    dom (hp_samples (h\<lparr>hp_samples := (hp_samples h)(out \<mapsto> w)\<rparr>)) \<union>
    dom (hp_sertypes (h\<lparr>hp_samples := (hp_samples h)(out \<mapsto> w)\<rparr>))"
  then have "p \<in> dom (hp_bufs h) \<union> dom (hp_serdata h) \<union> dom (hp_samples h) \<union> dom (hp_sertypes h)"
    using out by auto
  from heap_ok_live [OF ok this] show "DANGLING < p \<and> p < hp_next (h\<lparr>hp_samples := (hp_samples h)(out \<mapsto> w)\<rparr>)" by simp
qed (use heap_okD(1,4,5) [OF ok] in \<open>simp_all\<close>)

lemma sd_to_sample_ok:
  assumes ok: "heap_ok h" and p: "hp_serdata h p = Some d" and d: "serdata_ok h d data key"
    and out: "hp_samples h out \<noteq> None"
  obtains h' w where "sd_to_sample p out h = (Ok True, h')" "heap_ok h'" "rw_len w = length data"
    "rw_key_data w = NULL" "rw_key_len w = 0" "read_at (rw_data w) 0 (rw_len w) h' = (Ok data, h')"
    "hp_samples h' = (hp_samples h)(out \<mapsto> w)" "hp_serdata h' = hp_serdata h" "hp_sertypes h' = hp_sertypes h"
    "\<exists>h''. free_sample_data out h' = (Ok (), h'') \<and> hp_bufs h'' = hp_bufs h \<and> hp_serdata h'' = hp_serdata h \<and>
      hp_sertypes h'' = hp_sertypes h \<and> hp_samples h'' = (hp_samples h)(out \<mapsto> w\<lparr>rw_data := NULL, rw_len := 0\<rparr>)"
proof -
  from out obtain w0 where w0: "hp_samples h out = Some w0" by auto
  have data: "holds h (od_data d) (od_size d) (od_capacity d) data" and null: "od_data d \<noteq> NULL"
    using d by (simp_all add: serdata_ok_def)
  have size: "od_size d = length data" using holds_size [OF data] by simp
  show thesis
  proof (cases "data = []")
    case True
    let ?w = "\<lparr>rw_data = NULL, rw_len = 0, rw_key_data = NULL, rw_key_len = 0\<rparr>"
    have run: "sd_to_sample p out h = (Ok True, h\<lparr>hp_samples := (hp_samples h)(out \<mapsto> ?w)\<rparr>)"
      using p w0 size True by (simp add: sd_to_sample_def bind_st_def deref_def return_st_def store_sample_def)
    show thesis
      by (rule that [OF run heap_ok_store_sample [OF ok out], of ?w])
        (simp_all add: True read_at_def free_sample_data_def bind_st_def deref_def return_st_def)
  next
    case False
    obtain b n c h1 where v: "vec_into_raw data h = (Ok (b, n, c), h1)" "grown h h1 b n c data" "b \<noteq> NULL"
      by (rule vec_into_raw_grown [OF ok])
    let ?w = "\<lparr>rw_data = b, rw_len = length data, rw_key_data = NULL, rw_key_len = 0\<rparr>"
    let ?h = "h1\<lparr>hp_samples := (hp_samples h1)(out \<mapsto> ?w)\<rparr>"
    have h1: "heap_ok h1" "holds h1 b n c data" "hp_bufs h = (hp_bufs h1)(b := None)" "hp_serdata h1 = hp_serdata h"
      "hp_samples h1 = hp_samples h" "hp_sertypes h1 = hp_sertypes h" using v(2) by (simp_all add: grown_def)
    from h1(2) v(3) False have b: "hp_bufs h1 b = Some (data, length data)" by (auto simp: holds_def)
    have "read_at (od_data d) 0 (od_size d) h = (Ok data, h)"
      using holds_read [OF data null] null by (simp add: from_raw_parts_def)
    with p w0 size False null v(1) have run: "sd_to_sample p out h = (Ok True, ?h)"
      by (simp add: sd_to_sample_def bind_st_def deref_def return_st_def store_sample_def)
    have "heap_ok ?h" using h1(1) by (rule heap_ok_store_sample) (use out h1(5) in simp)
    moreover have "\<exists>h''. free_sample_data out ?h = (Ok (), h'') \<and> hp_bufs h'' = hp_bufs h \<and> hp_serdata h'' = hp_serdata h \<and>
      hp_sertypes h'' = hp_sertypes h \<and> hp_samples h'' = (hp_samples h)(out \<mapsto> ?w\<lparr>rw_data := NULL, rw_len := 0\<rparr>)"
      using False b h1(3-6) v(3)
      by (simp add: free_sample_data_def bind_st_def deref_def drop_vec_def store_sample_def)
    ultimately show thesis
      by (intro that [OF run, of ?w]) (use False b h1(4-6) in \<open>simp_all add: read_at_def\<close>)
  qed
qed

section \<open>Many references\<close>

fun repeat_st :: "nat \<Rightarrow> ('s, 'e, unit) action \<Rightarrow> ('s, 'e, unit) action" where
  "repeat_st 0 m = return_st ()"
| "repeat_st (Suc n) m = bind_st m (\<lambda>_. repeat_st n m)"

lemma unref_many:
  assumes "hp_serdata h p = Some d" and "unat (base_refc (od_base d)) = n + m" and "0 < m"
  shows "repeat_st n (serdata_unref p) h = (Ok (), h\<lparr>hp_serdata := (hp_serdata h)(p \<mapsto> set_refc (of_nat m) d)\<rparr>)"
  using assms
proof (induction n arbitrary: h d)
  case 0
  then have "(of_nat (unat (base_refc (od_base d))) :: u32) = of_nat m" by simp
  then have "base_refc (od_base d) = of_nat m" by simp
  then have "set_refc (of_nat m) d = d" by (simp add: set_refc_def)
  moreover have "(hp_serdata h)(p \<mapsto> d) = hp_serdata h" using 0 by (auto simp: fun_eq_iff)
  ultimately show ?case by (simp add: return_st_def)
next
  case (Suc n)
  let ?r = "base_refc (od_base d)"
  have ne: "?r \<noteq> 1" and pos: "?r \<noteq> 0" using Suc.prems(2,3) by auto
  have "unat (?r - 1) = n + m" using Suc.prems(2) pos by (simp add: unat_minus_one)
  with Suc.IH [of "h\<lparr>hp_serdata := (hp_serdata h)(p \<mapsto> set_refc (?r - 1) d)\<rparr>" "set_refc (?r - 1) d"] Suc.prems(3)
  show ?case using serdata_unref_more [OF Suc.prems(1) ne] by (simp add: bind_st_def cong: if_cong)
qed

section \<open>Keys\<close>

lemma has_key_iff: "serdata_ok h d data key \<Longrightarrow> has_key d \<longleftrightarrow> key \<noteq> []"
  unfolding serdata_ok_def has_key_def holds_def by auto

definition same_key :: "OpaqueSertype \<Rightarrow> bytes \<times> bytes \<Rightarrow> bytes \<times> bytes \<Rightarrow> bool" where
  "same_key s = (\<lambda>(xa, ka) (xb, kb).
     if ka \<noteq> [] \<and> kb \<noteq> [] then ka = kb
     else map (key_part xa) (st_key_fields s) = map (key_part xb) (st_key_fields s))"

text \<open>The key hash as a function of the bytes.\<close>

definition keyhash_of :: "OpaqueSertype \<Rightarrow> bool \<Rightarrow> bytes \<times> bytes \<Rightarrow> bytes" where
  "keyhash_of s force_md5 = (\<lambda>(x, k).
     if k \<noteq> [] then (if \<not> force_md5 \<and> length k \<le> 16 then k @ replicate (16 - length k) 0 else rfc1321_md5 k)
     else if st_key_fields s = [] \<or> x = [] then replicate 16 0
     else le_bytes 4 (foldl fnv1a_bytes 2166136261 (map (key_part x) (st_key_fields s))) @ replicate 12 0)"

lemma sd_eqkey_eq:
  assumes "hp_serdata h a = Some da" "serdata_ok h da xa ka" and "hp_serdata h b = Some db" "serdata_ok h db xb kb"
    and "hp_sertypes h (base_type (od_base da)) = Some s"
  shows "sd_eqkey a b h = (Ok (same_key s (xa, ka) (xb, kb)), h)"
proof -
  have keys: "has_key da \<longleftrightarrow> ka \<noteq> []" "has_key db \<longleftrightarrow> kb \<noteq> []" using assms(2,4) has_key_iff by blast+
  have null: "od_data da \<noteq> NULL" "od_data db \<noteq> NULL" using assms(2,4) by (simp_all add: serdata_ok_def)
  have data: "from_raw_parts (od_data da) (od_size da) h = (Ok xa, h)" "from_raw_parts (od_data db) (od_size db) h = (Ok xb, h)"
    using assms(2,4) null by (auto simp: serdata_ok_def intro: holds_read)
  have key: "from_raw_parts (od_key_data da) (od_key_size da) h = (Ok ka, h)" if "ka \<noteq> []"
    using assms(2) keys(1) that by (auto simp: serdata_ok_def has_key_def intro: holds_read)
  have key': "from_raw_parts (od_key_data db) (od_key_size db) h = (Ok kb, h)" if "kb \<noteq> []"
    using assms(4) keys(2) that by (auto simp: serdata_ok_def has_key_def intro: holds_read)
  show ?thesis
  proof (cases "ka \<noteq> [] \<and> kb \<noteq> []")
    case True
    with key key' keys assms(1,3) show ?thesis
      by (simp add: sd_eqkey_def bind_st_def deref_def return_st_def same_key_def)
  next
    case False
    with data keys null assms(1,3,5) show ?thesis
      by (auto simp: sd_eqkey_def bind_st_def deref_def return_st_def lift_st_def keys_equal_iff same_key_def simp del: map_eq_conv)
  qed
qed

lemma sd_get_keyhash_eq:
  assumes "hp_serdata h a = Some d" "serdata_ok h d x k" and "hp_sertypes h (base_type (od_base d)) = Some s"
  shows "sd_get_keyhash a force_md5 h = (Ok (keyhash_of s force_md5 (x, k)), h)"
proof -
  have keys: "has_key d \<longleftrightarrow> k \<noteq> []" using assms(2) has_key_iff by blast
  have null: "od_data d \<noteq> NULL" using assms(2) by (simp add: serdata_ok_def)
  have data: "from_raw_parts (od_data d) (od_size d) h = (Ok x, h)" "od_size d = length x"
    using assms(2) null holds_size by (auto simp: serdata_ok_def intro: holds_read)
  show ?thesis
  proof (cases "k = []")
    case True
    with data keys null assms(1,3) show ?thesis
      by (auto simp: sd_get_keyhash_def bind_st_def deref_def return_st_def lift_st_def hash_key_bytes_def hash_key_fields_eq keyhash_of_def)
  next
    case False
    with keys assms(2) have "from_raw_parts (od_key_data d) (od_key_size d) h = (Ok k, h)"
      by (auto simp: serdata_ok_def has_key_def intro: holds_read)
    with False keys assms(1) show ?thesis
      by (auto simp: sd_get_keyhash_def bind_st_def deref_def return_st_def lift_st_def md5_hash_rfc keyhash_of_def)
  qed
qed

end
