(* ===== verification/Serdata_Props.thy ===== *)
theory Serdata_Props
  imports Serdata_Life
begin

text \<open>
  Properties of the hash functions and of the serdata callbacks of \<open>src/dds/sertype.rs\<close>, each with
  a witness on a concrete memory.
\<close>

section \<open>A concrete memory\<close>

text \<open>
  One keyed sertype at 2; the client's payload and key bytes at 3 and 4; their sample wrapper
  at 5 and an empty wrapper for a read at 6.
\<close>

definition demo_sertype :: OpaqueSertype where
  "demo_sertype = \<lparr>st_type_name = ''T'', st_typekind_no_key = False, st_allowed_data_representation = 5,
     st_key_fields = [\<lparr>kf_offset = 4, kf_size = 4, kf_type_hint = Int32\<rparr>]\<rparr>"

definition demo_payload :: bytes where "demo_payload = [0, 1, 0, 0, 42, 0, 0, 0, 7]"
definition demo_key :: bytes where "demo_key = [42, 0, 0, 0]"

definition demo_heap :: heap where
  "demo_heap = \<lparr>hp_next = 7, hp_bufs = [3 \<mapsto> (demo_payload, 9), 4 \<mapsto> (demo_key, 4)], hp_serdata = Map.empty,
     hp_samples = [5 \<mapsto> \<lparr>rw_data = 3, rw_len = 9, rw_key_data = 4, rw_key_len = 4\<rparr>,
       6 \<mapsto> \<lparr>rw_data = NULL, rw_len = 0, rw_key_data = NULL, rw_key_len = 0\<rparr>],
     hp_sertypes = [2 \<mapsto> demo_sertype]\<rparr>"

lemma demo_heap_ok: "heap_ok demo_heap"
  by (rule heap_okI) (auto simp: demo_heap_def DANGLING_def split: if_splits)

lemma demo_heap_simps:
  "hp_sertypes demo_heap 2 = Some demo_sertype"
  "hp_samples demo_heap 5 = Some \<lparr>rw_data = 3, rw_len = 9, rw_key_data = 4, rw_key_len = 4\<rparr>"
  "hp_samples demo_heap 6 = Some \<lparr>rw_data = NULL, rw_len = 0, rw_key_data = NULL, rw_key_len = 0\<rparr>"
  "read_at 3 0 9 demo_heap = (Ok demo_payload, demo_heap)"
  "read_at 4 0 4 demo_heap = (Ok demo_key, demo_heap)"
  by (simp_all add: demo_heap_def read_at_def demo_payload_def demo_key_def)

section \<open>Hashes\<close>

text \<open>
  C31: the MD5 routine computes the RFC 1321 digest of every input: its padding loop ends, no
  array access panics, and the 64 unified rounds on rotating variables are the four rounds of
  the standard on fixed registers.
\<close>

theorem md5_hash_rfc1321: "md5_hash data = Ok (rfc1321_md5 data)"
  by (rule md5_hash_rfc)

section \<open>Samples\<close>

text \<open>
  C26: a sample handed to DDS and read back gives the same payload bytes, without key bytes. The
  serdata between them owns fresh copies of payload and key, carries the hash of its key and one
  reference; freeing the read sample and dropping the reference leave the memory as it was, so
  every buffer is freed exactly once with the capacity it was allocated with.
\<close>

theorem sample_roundtrip:
  assumes I: "serdata_init I" and ok: "heap_ok h" and st: "hp_sertypes h st = Some s" and w: "hp_samples h smp = Some w"
    and data: "from_raw_parts (rw_data w) (rw_len w) h = (Ok data, h)" and key: "sample_key h w key"
    and out: "hp_samples h out \<noteq> None"
  shows "makes_serdata (sd_from_sample I st kind smp h) h st data key (bucket_hash key s) \<and>
    (\<exists>p h1 h2 w2 h3 h4. sd_from_sample I st kind smp h = (Ok p, h1) \<and> sd_to_sample p out h1 = (Ok True, h2) \<and>
      hp_samples h2 = (hp_samples h)(out \<mapsto> w2) \<and> read_at (rw_data w2) 0 (rw_len w2) h2 = (Ok data, h2) \<and>
      rw_len w2 = length data \<and> rw_key_data w2 = NULL \<and> rw_key_len w2 = 0 \<and>
      free_sample_data out h2 = (Ok (), h3) \<and> serdata_unref p h3 = (Ok (), h4) \<and>
      same_memory (h\<lparr>hp_samples := (hp_samples h)(out \<mapsto> w2\<lparr>rw_data := NULL, rw_len := 0\<rparr>)\<rparr>) h4)"
proof -
  obtain p h1 d where run: "sd_from_sample I st kind smp h = (Ok p, h1)" and c: "created h h1 p d data key"
    and base: "base_type (od_base d) = st" "base_refc (od_base d) = 1" "base_hash (od_base d) = bucket_hash key s"
    by (rule sd_from_sample_created [OF ok I w data key st])
  have h1: "heap_ok h1" "hp_serdata h1 p = Some d" "serdata_ok h1 d data key" "hp_samples h1 out \<noteq> None"
    using c out by (simp_all add: created_def)
  obtain h2 w2 h3 where two: "sd_to_sample p out h1 = (Ok True, h2)" "heap_ok h2" "rw_len w2 = length data"
    "rw_key_data w2 = NULL" "rw_key_len w2 = 0" "read_at (rw_data w2) 0 (rw_len w2) h2 = (Ok data, h2)"
    "hp_samples h2 = (hp_samples h1)(out \<mapsto> w2)"
    and three: "free_sample_data out h2 = (Ok (), h3)" "hp_bufs h3 = hp_bufs h1" "hp_serdata h3 = hp_serdata h1"
    "hp_sertypes h3 = hp_sertypes h1" "hp_samples h3 = (hp_samples h1)(out \<mapsto> w2\<lparr>rw_data := NULL, rw_len := 0\<rparr>)"
    by (rule sd_to_sample_ok [OF h1]) blast
  have d: "serdata_ok h3 d data key" using h1(3) by (rule serdata_ok_cong) (simp_all add: three)
  have p: "hp_serdata h3 p = Some d" using h1(2) three(3) by simp
  have "(hp_serdata h)(p := None) = hp_serdata h" using c by (auto simp: created_def fun_eq_iff)
  then have "\<exists>h4. serdata_unref p h3 = (Ok (), h4) \<and>
    same_memory (h\<lparr>hp_samples := (hp_samples h)(out \<mapsto> w2\<lparr>rw_data := NULL, rw_len := 0\<rparr>)\<rparr>) h4"
    using serdata_unref_last [OF p base(2) d] three(2-5) c by (simp add: same_memory_def created_def)
  moreover have "makes_serdata (sd_from_sample I st kind smp h) h st data key (bucket_hash key s)"
    unfolding run using c base by (rule created_makes)
  moreover have "hp_samples h1 = hp_samples h" using c by (simp add: created_def)
  ultimately show ?thesis using run two three(1) by (intro conjI) (assumption, force)
qed

theorem sample_roundtrip_witness:
  "makes_serdata (sd_from_sample documented_init 2 SDK_DATA 5 demo_heap) demo_heap 2 demo_payload demo_key
     (bucket_hash demo_key demo_sertype) \<and>
   demo_payload \<noteq> [] \<and> demo_key \<noteq> []"
  using sample_roundtrip [OF doc_init.serdata_init_axioms demo_heap_ok demo_heap_simps(1,2), of demo_payload demo_key 6 SDK_DATA]
  by (simp add: demo_heap_simps from_raw_parts_def sample_key_def NULL_def demo_payload_def demo_key_def)

section \<open>Received data\<close>

text \<open>A received message is a serdata with its bytes and without key bytes, on fresh memory.\<close>

lemma sd_from_ser_created:
  assumes I: "serdata_init I" and ok: "heap_ok h" and st: "hp_sertypes h st = Some s"
    and frags: "\<forall>f \<in> set frags. fragment_of msg f" "gapless frags n 0" "n \<le> length msg"
  obtains q h' d where "sd_from_ser I st kind frags n h = (Ok q, h')" "created h h' q d (take n msg) []"
    "base_type (od_base d) = st" "base_refc (od_base d) = 1" "base_hash (od_base d) = name_hash (cstr_bytes s)"
proof -
  have "copy_fragchain_to_buf frags n (replicate n 0) = Ok (n, take n msg)"
    unfolding copy_fragchain_to_buf_def using frags by (intro copy_fragchain_msg) simp_all
  then have run: "sd_from_ser I st kind frags n h = bind_st (vec_into_raw (take n msg)) (\<lambda>data. bind_st (st_hash st) (\<lambda>hash.
      new_serdata I st kind data (NULL, 0, 0) hash)) h"
    by (simp add: sd_from_ser_def bind_st_lift)
  obtain q h' where "sd_from_ser I st kind frags n h = (Ok q, h')"
    using keyless_runs [OF ok I st, of "take n msg" kind] run by (auto simp: makes_serdata_def)
  moreover from this run obtain d s' where "created h h' q d (take n msg) []" "base_type (od_base d) = st"
    "base_refc (od_base d) = 1" "hp_sertypes h st = Some s'" "base_hash (od_base d) = name_hash (cstr_bytes s')"
    using keyless_created [OF ok I, of "take n msg" st kind q h'] by metis
  ultimately show thesis using that st by simp
qed

text \<open>What is created does not touch the serdata there are.\<close>

lemma serdata_ok_created:
  assumes c: "created h h' p d x k" and e: "serdata_ok h e data key"
  shows "serdata_ok h' e data key"
  using e
proof (rule serdata_ok_cong)
  have bufs: "hp_bufs h = hp_bufs h' |` (- buffers d)" using c by (simp add: created_def)
  fix r assume "r \<in> buffers e"
  with buffers_live [OF e] have "r \<in> dom (hp_bufs h)" by blast
  then show "hp_bufs h' r = hp_bufs h r" unfolding bufs by (auto simp: restrict_map_def split: if_splits)
qed (use c in \<open>simp add: created_def\<close>)

text \<open>
  C27: data received in fragments, in I/O vectors or as a key hash becomes a serdata with exactly
  the bytes of the message: a chain of fragments that covers the message without a gap is
  reassembled whatever the overlaps and the surplus at its end, I/O vectors are concatenated and
  cut to size. The serdata has no key bytes, the type's name hash and one reference, and dropping
  it leaves the memory as it was.
\<close>

theorem received_serdata:
  assumes I: "serdata_init I" and ok: "heap_ok h" and st: "hp_sertypes h st = Some s"
    and frags: "\<forall>f \<in> set frags. fragment_of msg f" "gapless frags n 0" "n \<le> length msg"
    and iovs: "list_all2 (\<lambda>io bs. read_at (iov_base io) (iov_off io) (iov_len io) h = (Ok bs, h)) iovs parts"
      "m \<le> length (concat parts)"
  shows "makes_serdata (sd_from_ser I st kind frags n h) h st (take n msg) [] (name_hash (cstr_bytes s)) \<and>
    makes_serdata (sd_from_ser_iov I st kind iovs m h) h st (take m (concat parts)) [] (name_hash (cstr_bytes s)) \<and>
    makes_serdata (sd_from_keyhash I st kh h) h st kh [] (name_hash (cstr_bytes s))"
proof (intro conjI)
  show "makes_serdata (sd_from_ser I st kind frags n h) h st (take n msg) [] (name_hash (cstr_bytes s))"
    by (rule sd_from_ser_created [OF I ok st frags, where kind = kind]) (simp add: created_makes)
  have "copy_iovs iovs m 0 (replicate m 0) h = (Ok (take m (concat parts)), h)"
    using copy_iovs_eq [OF iovs(1), of "replicate m 0" m 0] iovs(2) by (simp add: write_at_def)
  note copied = bind_st_run [of "copy_iovs iovs m 0 (replicate m 0)" h _ h, OF this]
  show "makes_serdata (sd_from_ser_iov I st kind iovs m h) h st (take m (concat parts)) [] (name_hash (cstr_bytes s))"
    unfolding sd_from_ser_iov_def copied by (rule keyless_runs [OF ok I st])
  show "makes_serdata (sd_from_keyhash I st kh h) h st kh [] (name_hash (cstr_bytes s))"
    unfolding sd_from_keyhash_def by (rule keyless_runs [OF ok I st])
qed

theorem received_serdata_witness:
  "makes_serdata (sd_from_ser documented_init 2 SDK_DATA
     [\<lparr>frag_min = 0, frag_maxp1 = 5, frag_payload = [1, 2, 3, 4, 5]\<rparr>, \<lparr>frag_min = 3, frag_maxp1 = 8, frag_payload = [4, 5, 6, 7, 8]\<rparr>]
     7 demo_heap) demo_heap 2 [1, 2, 3, 4, 5, 6, 7] [] (name_hash (cstr_bytes demo_sertype)) \<and>
   makes_serdata (sd_from_ser_iov documented_init 2 SDK_DATA
     [\<lparr>iov_base = 4, iov_off = 0, iov_len = 4\<rparr>, \<lparr>iov_base = 3, iov_off = 0, iov_len = 9\<rparr>]
     6 demo_heap) demo_heap 2 [42, 0, 0, 0, 0, 1] [] (name_hash (cstr_bytes demo_sertype))"
  using received_serdata [OF doc_init.serdata_init_axioms demo_heap_ok demo_heap_simps(1),
      of "[\<lparr>frag_min = 0, frag_maxp1 = 5, frag_payload = [1, 2, 3, 4, 5]\<rparr>, \<lparr>frag_min = 3, frag_maxp1 = 8, frag_payload = [4, 5, 6, 7, 8]\<rparr>]"
        "[1, 2, 3, 4, 5, 6, 7, 8]" 7 "[\<lparr>iov_base = 4, iov_off = 0, iov_len = 4\<rparr>, \<lparr>iov_base = 3, iov_off = 0, iov_len = 9\<rparr>]"
        "[demo_key, demo_payload]" 6 SDK_DATA "[]"]
  by (simp add: demo_heap_simps fragment_of_def demo_payload_def demo_key_def)

section \<open>References\<close>

text \<open>
  C28: bytes that Cyclone takes a reference to stay valid until it gives it back. After
  \<open>to_ser_ref\<close> every other reference may be dropped; the I/O vector still reads the requested
  bytes, and the matching \<open>to_ser_unref\<close> frees the serdata and its buffers.
\<close>

theorem reference_keeps_bytes:
  assumes ok: "heap_ok h" and p: "hp_serdata h p = Some d" and d: "serdata_ok h d data key"
    and refs: "unat (base_refc (od_base d)) = n" "0 < n" "n < 2 ^ 32 - 1" and range: "off + sz \<le> length data"
  shows "\<exists>ref h1 h2. sd_to_ser_ref p off sz h = (Ok (p, ref), h1) \<and> iov_len ref = sz \<and>
    repeat_st n (serdata_unref p) h1 = (Ok (), h2) \<and>
    read_at (iov_base ref) (iov_off ref) sz h2 = (Ok (take sz (drop off data)), h2) \<and>
    (\<exists>h3. sd_to_ser_unref p ref h2 = (Ok (), h3) \<and> heap_ok h3 \<and>
      hp_serdata h3 = (hp_serdata h)(p := None) \<and> hp_bufs h3 = hp_bufs h |` (- buffers d))"
proof -
  let ?ref = "\<lparr>iov_base = od_data d, iov_off = off, iov_len = sz\<rparr>"
  let ?r = "base_refc (od_base d)" and ?d = "\<lambda>r. set_refc r d" and ?h = "\<lambda>d. h\<lparr>hp_serdata := (hp_serdata h)(p \<mapsto> d)\<rparr>"
  have data: "holds h (od_data d) (od_size d) (od_capacity d) data" and null: "od_data d \<noteq> NULL"
    using d by (simp_all add: serdata_ok_def)
  have one: "sd_to_ser_ref p off sz h = (Ok (p, ?ref), ?h (?d (?r + 1)))"
    using p null range holds_size [OF data] serdata_ref_eq [OF p]
    by (simp add: sd_to_ser_ref_def bind_st_def deref_def return_st_def)
  have "unat (?r + 1) = n + 1" using refs unat_word_ariths(1) [of ?r 1] by simp
  then have two: "repeat_st n (serdata_unref p) (?h (?d (?r + 1))) = (Ok (), ?h (?d 1))"
    using unref_many [of "?h (?d (?r + 1))" p "?d (?r + 1)" n 1] by simp
  have read: "read_at (od_data d) off sz (?h (?d 1)) = (Ok (take sz (drop off data)), ?h (?d 1))"
    using data null range by (auto simp: holds_def read_at_def)
  have "serdata_ok (?h (?d 1)) (?d 1) data key" using d by simp
  from serdata_unref_last [of "?h (?d 1)" p, OF _ _ this]
  have "sd_to_ser_unref p ?ref (?h (?d 1)) =
    (Ok (), h\<lparr>hp_bufs := hp_bufs h |` (- buffers d), hp_serdata := (hp_serdata h)(p := None)\<rparr>)"
    by (simp add: sd_to_ser_unref_def)
  with one two read heap_ok_free [OF ok p] show ?thesis by auto
qed

definition demo_serdata :: OpaqueSerdata where
  "demo_serdata = \<lparr>od_base = \<lparr>base_type = 2, base_kind = SDK_DATA, base_hash = 5, base_refc = 2\<rparr>, od_data = 3, od_size = 9,
     od_capacity = 9, od_key_data = 4, od_key_size = 4, od_key_capacity = 4\<rparr>"

definition demo_full :: heap where
  "demo_full = demo_heap\<lparr>hp_samples := Map.empty, hp_serdata := [5 \<mapsto> demo_serdata]\<rparr>"

lemma demo_serdata_ok: "serdata_ok demo_full demo_serdata demo_payload demo_key"
  by (simp add: serdata_ok_def holds_def demo_full_def demo_heap_def demo_serdata_def demo_payload_def demo_key_def NULL_def DANGLING_def)

lemma demo_full_ok: "heap_ok demo_full"
proof (rule heap_okI)
  fix p d assume "hp_serdata demo_full p = Some d"
  then have "d = demo_serdata" by (simp add: demo_full_def split: if_splits)
  then show "\<exists>data key. serdata_ok demo_full d data key" using demo_serdata_ok by blast
qed (auto simp: demo_full_def demo_heap_def DANGLING_def split: if_splits)

theorem reference_keeps_bytes_witness:
  "\<exists>ref h1 h2. sd_to_ser_ref 5 4 4 demo_full = (Ok (5, ref), h1) \<and> repeat_st 2 (serdata_unref 5) h1 = (Ok (), h2) \<and>
     read_at (iov_base ref) (iov_off ref) 4 h2 = (Ok [42, 0, 0, 0], h2)"
proof -
  have "hp_serdata demo_full 5 = Some demo_serdata" by (simp add: demo_full_def)
  from reference_keeps_bytes [OF demo_full_ok this demo_serdata_ok, of 2 4 4] show ?thesis
    by (simp add: demo_serdata_def demo_payload_def) blast
qed

section \<open>Keys\<close>

text \<open>
  C29: two serdata of one type compare equal exactly if their key bytes are equal, when both have
  key bytes, and otherwise if the parts of their payloads that the key descriptors name are
  equal; neither comparing nor hashing reads out of bounds or panics. The 16-byte key hash is the
  key bytes padded with zeros when they fit and MD5 is not forced, and their MD5 digest otherwise;
  without key bytes it is zero for a type without keys or an empty payload, and else the FNV-1a
  hash of the parts of the payload that the key descriptors name, padded with zeros. So serdata
  that compare equal have the same key hash, provided both or neither have key bytes and a payload.
\<close>

theorem eqkey_keyhash:
  assumes a: "hp_serdata h a = Some da" "serdata_ok h da xa ka" and b: "hp_serdata h b = Some db" "serdata_ok h db xb kb"
    and st: "base_type (od_base da) = st" "base_type (od_base db) = st" "hp_sertypes h st = Some s"
  shows "sd_eqkey a b h = (Ok (same_key s (xa, ka) (xb, kb)), h) \<and>
    sd_get_keyhash a md5 h = (Ok
      (if ka \<noteq> [] then (if \<not> md5 \<and> length ka \<le> 16 then ka @ replicate (16 - length ka) 0 else rfc1321_md5 ka)
       else if st_key_fields s = [] \<or> xa = [] then replicate 16 0
       else le_bytes 4 (foldl fnv1a_bytes 2166136261 (map (key_part xa) (st_key_fields s))) @ replicate 12 0), h) \<and>
    (\<exists>kha khb. sd_get_keyhash a md5 h = (Ok kha, h) \<and> sd_get_keyhash b md5 h = (Ok khb, h) \<and>
      length kha = 16 \<and> length khb = 16 \<and>
      (same_key s (xa, ka) (xb, kb) \<longrightarrow> (ka = []) = (kb = []) \<longrightarrow> (xa = []) = (xb = []) \<longrightarrow> kha = khb))"
proof -
  have "keyhash_of s md5 (xa, ka) = keyhash_of s md5 (xb, kb)"
    if "same_key s (xa, ka) (xb, kb)" "(ka = []) = (kb = [])" "(xa = []) = (xb = [])"
    using that by (auto simp: same_key_def keyhash_of_def simp del: map_eq_conv)
  moreover have "length (keyhash_of s md5 (x, k)) = 16" for x k
    by (simp add: keyhash_of_def rfc1321_md5_def Let_def)
  ultimately show ?thesis
    using sd_eqkey_eq [OF a b, of s] sd_get_keyhash_eq [OF a, of s md5] sd_get_keyhash_eq [OF b, of s md5] st
    by (simp add: keyhash_of_def)
qed

theorem eqkey_keyhash_witness:
  "sd_eqkey 5 5 demo_full = (Ok True, demo_full) \<and>
   sd_get_keyhash 5 False demo_full = (Ok [42, 0, 0, 0, 0, 0, 0, 0, 0, 0, 0, 0, 0, 0, 0, 0], demo_full)"
proof -
  have "hp_serdata demo_full 5 = Some demo_serdata" "hp_sertypes demo_full 2 = Some demo_sertype"
    by (simp_all add: demo_full_def demo_heap_simps)
  with eqkey_keyhash [OF this(1) demo_serdata_ok this(1) demo_serdata_ok, of 2 demo_sertype False] show ?thesis
    by (simp add: demo_serdata_def same_key_def demo_key_def numeral_eq_Suc)
qed

text \<open>
  C30: the same sample as a client of the bridge writes it, with key bytes, and as it is received
  from the network compares equal, but everything a table finds instances by is computed from
  different data. The hash of the first is the MurmurHash3 of its key seeded with the type name's
  hash, that of the second the type name's hash alone; the key hash of the first holds the key bytes
  or their MD5 digest, that of the second the FNV-1a hash of the payload's key parts, or zeros.
  This holds for every sample, type and memory.
\<close>

theorem written_and_received_differ:
  assumes I: "serdata_init I" and ok: "heap_ok h" and st: "hp_sertypes h st = Some s" and w: "hp_samples h smp = Some w"
    and data: "from_raw_parts (rw_data w) (rw_len w) h = (Ok data, h)" and key: "sample_key h w key" "key \<noteq> []"
    and frags: "\<forall>f \<in> set frags. fragment_of data f" "gapless frags (length data) 0"
  shows "\<exists>p h1 q h2 a b. sd_from_sample I st kind smp h = (Ok p, h1) \<and>
    sd_from_ser I st kind frags (length data) h1 = (Ok q, h2) \<and>
    hp_serdata h2 p = Some a \<and> hp_serdata h2 q = Some b \<and>
    sd_eqkey p q h2 = (Ok True, h2) \<and>
    murmurhash3 key (name_hash (cstr_bytes s)) = Ok (base_hash (od_base a)) \<and>
    base_hash (od_base b) = name_hash (cstr_bytes s) \<and>
    sd_get_keyhash p md5 h2 = (Ok (if \<not> md5 \<and> length key \<le> 16 then key @ replicate (16 - length key) 0 else rfc1321_md5 key), h2) \<and>
    sd_get_keyhash q md5 h2 = (Ok (if st_key_fields s = [] \<or> data = [] then replicate 16 0
      else le_bytes 4 (foldl fnv1a_bytes 2166136261 (map (key_part data) (st_key_fields s))) @ replicate 12 0), h2)"
proof -
  obtain p h1 a where p: "sd_from_sample I st kind smp h = (Ok p, h1)" and a: "created h h1 p a data key"
    "base_type (od_base a) = st" "base_hash (od_base a) = bucket_hash key s"
    by (rule sd_from_sample_created [OF ok I w data key(1) st]) blast
  from a have h1: "heap_ok h1" "hp_sertypes h1 st = Some s" "hp_serdata h1 p = Some a" "serdata_ok h1 a data key"
    using st by (auto simp: created_def)
  obtain q h2 b where q: "sd_from_ser I st kind frags (length data) h1 = (Ok q, h2)" and b: "created h1 h2 q b data []"
    "base_type (od_base b) = st" "base_hash (od_base b) = name_hash (cstr_bytes s)"
    by (rule sd_from_ser_created [OF I h1(1,2) frags order_refl]) simp
  from b h1(3) have h2: "hp_serdata h2 p = Some a" "hp_serdata h2 q = Some b" "serdata_ok h2 b data []" "hp_sertypes h2 st = Some s"
    using h1(2) by (auto simp: created_def)
  have a2: "serdata_ok h2 a data key" by (rule serdata_ok_created [OF b(1) h1(4)])
  obtain x where x: "murmurhash3 key (name_hash (cstr_bytes s)) = Ok x" using murmurhash3_total by blast
  note run = sd_eqkey_eq [OF h2(1) a2 h2(2,3), of s] sd_get_keyhash_eq [OF h2(1) a2, of s md5] sd_get_keyhash_eq [OF h2(2,3), of s md5]
  show ?thesis
    by (intro exI [of _ p] exI [of _ h1] exI [of _ q] exI [of _ h2] exI [of _ a] exI [of _ b])
      (use p q h2 run a b x key(2) in \<open>simp add: keyhash_of_def same_key_def bucket_hash_def\<close>)
qed

text \<open>On a concrete sample neither the hashes nor the key hashes of the two agree.\<close>

theorem written_and_received_differ_witness:
  "\<exists>p h1 q h2 a b kha khb. sd_from_sample documented_init 2 SDK_DATA 5 demo_heap = (Ok p, h1) \<and>
     sd_from_ser documented_init 2 SDK_DATA [\<lparr>frag_min = 0, frag_maxp1 = 9, frag_payload = demo_payload\<rparr>] 9 h1 = (Ok q, h2) \<and>
     hp_serdata h2 p = Some a \<and> hp_serdata h2 q = Some b \<and> sd_eqkey p q h2 = (Ok True, h2) \<and>
     base_hash (od_base a) \<noteq> base_hash (od_base b) \<and>
     sd_get_keyhash p False h2 = (Ok kha, h2) \<and> sd_get_keyhash q False h2 = (Ok khb, h2) \<and> kha \<noteq> khb"
proof -
  let ?fs = "[\<lparr>frag_min = 0, frag_maxp1 = 9, frag_payload = demo_payload\<rparr>]"
  have key: "sample_key demo_heap \<lparr>rw_data = 3, rw_len = 9, rw_key_data = 4, rw_key_len = 4\<rparr> demo_key" "demo_key \<noteq> []"
    and data: "from_raw_parts 3 9 demo_heap = (Ok demo_payload, demo_heap)" and len: "length demo_payload = 9"
    by (simp_all add: demo_heap_simps from_raw_parts_def sample_key_def NULL_def demo_payload_def demo_key_def)
  have frags: "\<forall>f \<in> set ?fs. fragment_of demo_payload f" "gapless ?fs (length demo_payload) 0"
    by (simp_all add: fragment_of_def len)
  have hash: "murmurhash3 demo_key (name_hash (cstr_bytes demo_sertype)) \<noteq> Ok (name_hash (cstr_bytes demo_sertype))"
    by code_simp
  have keyhash: "demo_key @ replicate (16 - length demo_key) 0 \<noteq>
      le_bytes 4 (foldl fnv1a_bytes 2166136261 (map (key_part demo_payload) (st_key_fields demo_sertype))) @ replicate 12 0"
    by code_simp
  have short: "length demo_key \<le> 16" "st_key_fields demo_sertype \<noteq> []" "demo_payload \<noteq> []"
    by (simp_all add: demo_key_def demo_sertype_def demo_payload_def)
  from written_and_received_differ [OF doc_init.serdata_init_axioms demo_heap_ok demo_heap_simps(1,2) _ key frags,
      of SDK_DATA False] data len hash keyhash short
  show ?thesis by (simp only: raw_sample.simps if_True if_False simp_thms) metis
qed

end
