(* ===== verification/Config_Props.thy ===== *)
theory Config_Props
  imports Config
begin

text \<open>
  The decimals that \<open>str::parse\<close> accepts for unsigned integers, and where each setting of the
  configuration comes from.
\<close>

section \<open>Decimals\<close>

definition digits_of :: "string \<Rightarrow> string" where
  "digits_of s = (if s \<noteq> [] \<and> hd s = CHR ''+'' then tl s else s)"

definition decimal_from :: "nat \<Rightarrow> string \<Rightarrow> nat" where
  "decimal_from = foldl (\<lambda>acc c. acc * 10 + (of_char c - 48))"

definition is_decimal :: "nat \<Rightarrow> string \<Rightarrow> bool" where
  "is_decimal mx s \<longleftrightarrow> digits_of s \<noteq> [] \<and> list_all (\<lambda>c. digit c \<noteq> None) (digits_of s) \<and> decimal_from 0 (digits_of s) \<le> mx"

lemma digit_Some: "digit c = Some d \<longleftrightarrow> 48 \<le> (of_char c :: nat) \<and> (of_char c :: nat) \<le> 57 \<and> d = of_char c - 48"
  by (auto simp: digit_def Let_def)

lemma decimal_from_ge: "acc \<le> decimal_from acc s"
proof (induction s arbitrary: acc)
  case (Cons c s)
  have "acc \<le> acc * 10 + (of_char c - 48)" by simp
  also have "\<dots> \<le> decimal_from (acc * 10 + (of_char c - 48)) s" by (rule Cons.IH)
  finally show ?case by (simp add: decimal_from_def)
qed (simp add: decimal_from_def)

text \<open>The overflow check after each digit is the check of the whole number.\<close>

lemma parse_digits_exact:
  "acc \<le> mx \<Longrightarrow> parse_digits mx acc s =
     (if list_all (\<lambda>c. digit c \<noteq> None) s \<and> decimal_from acc s \<le> mx then Some (decimal_from acc s) else None)"
proof (induction s arbitrary: acc)
  case (Cons c s)
  show ?case
  proof (cases "digit c")
    case (Some d)
    then have d: "d = of_char c - 48" by (simp add: digit_Some)
    have "acc * 10 + d \<le> decimal_from (acc * 10 + d) s" by (rule decimal_from_ge)
    with Some d Cons.IH [of "acc * 10 + d"] show ?thesis by (auto simp: decimal_from_def)
  qed simp
qed (simp add: decimal_from_def)

lemma parse_uint_digits: "parse_uint mx s = (if digits_of s = [] then None else parse_digits mx 0 (digits_of s))"
  by (cases s) (simp_all add: parse_uint_def digits_of_def del: parse_digits.simps)

lemma parse_uint_exact: "parse_uint mx s = (if is_decimal mx s then Some (decimal_from 0 (digits_of s)) else None)"
  unfolding parse_uint_digits parse_digits_exact [OF le0] is_decimal_def by simp

section \<open>Precedence\<close>

definition env_number :: "(string \<Rightarrow> 'n option) \<Rightarrow> host \<Rightarrow> string \<Rightarrow> 'n \<Rightarrow> 'n" where
  "env_number parse H var old = (case env_var H var of None \<Rightarrow> old | Some v \<Rightarrow> (case parse v of None \<Rightarrow> old | Some n \<Rightarrow> n))"

text \<open>The settings that a file or the defaults \<open>c\<close>, the environment and the flags give together.\<close>

definition settings :: "host \<Rightarrow> string list \<Rightarrow> Config \<Rightarrow> Config" where
  "settings H args c =
     \<lparr>cfg_websocket = (cfg_websocket c)\<lparr>
        ws_addr := (case env_var H ''DDS_BRIDGE_WS_ADDR'' of None \<Rightarrow> ws_addr (cfg_websocket c) | Some a \<Rightarrow> a),
        ws_port := env_number parse_u16 H ''DDS_BRIDGE_WS_PORT'' (ws_port (cfg_websocket c))\<rparr>,
      cfg_dds = \<lparr>dds_domain_id = env_number parse_u32 H ''DDS_BRIDGE_DDS_DOMAIN'' (dds_domain_id (cfg_dds c)),
        dds_cyclonedds_uri = (case env_var H ''CYCLONEDDS_URI'' of None \<Rightarrow> dds_cyclonedds_uri (cfg_dds c) | Some u \<Rightarrow> Some u)\<rparr>,
      cfg_bridge = cfg_bridge c,
      cfg_logging = \<lparr>log_level = (if ''-v'' \<notin> set (tl args) \<and> ''-vv'' \<notin> set (tl args) then log_level (cfg_logging c)
        else if hd (filter (\<lambda>a. a = ''-v'' \<or> a = ''-vv'') (tl args)) = ''-vv'' then ''trace'' else ''debug'')\<rparr>\<rparr>"

lemma verbosity_of_exact:
  "verbosity_of args = (if ''-v'' \<notin> set args \<and> ''-vv'' \<notin> set args then None
     else Some (if hd (filter (\<lambda>a. a = ''-v'' \<or> a = ''-vv'') args) = ''-vv'' then ''trace'' else ''debug''))"
  by (induction args) auto

lemma parse_u16_None: "parse_u16 v = None \<longleftrightarrow> \<not> is_decimal 65535 v"
  by (simp add: parse_u16_def parse_uint_exact)

lemma parse_u32_None: "parse_u32 v = None \<longleftrightarrow> \<not> is_decimal 4294967295 v"
  by (simp add: parse_u32_def parse_uint_exact)

lemma apply_env_overrides_exact:
  "apply_env_overrides H c =
     (case env_var H ''DDS_BRIDGE_WS_PORT'' of
        Some v \<Rightarrow> if parse_u16 v = None then Err (InvalidEnvVar ''DDS_BRIDGE_WS_PORT'' v) else
          (case env_var H ''DDS_BRIDGE_DDS_DOMAIN'' of
             Some u \<Rightarrow> if parse_u32 u = None then Err (InvalidEnvVar ''DDS_BRIDGE_DDS_DOMAIN'' u) else Ok (settings H [] c)
           | None \<Rightarrow> Ok (settings H [] c))
      | None \<Rightarrow>
          (case env_var H ''DDS_BRIDGE_DDS_DOMAIN'' of
             Some u \<Rightarrow> if parse_u32 u = None then Err (InvalidEnvVar ''DDS_BRIDGE_DDS_DOMAIN'' u) else Ok (settings H [] c)
           | None \<Rightarrow> Ok (settings H [] c)))"
  by (simp add: apply_env_overrides_def settings_def env_number_def Let_def split: option.split)

text \<open>The configuration before the environment and the flags: the file's or the defaults.\<close>

definition base_settings :: "host \<Rightarrow> string list \<Rightarrow> (ConfigError, Config) result" where
  "base_settings H args =
     (case config_path args of
        None \<Rightarrow> Ok config_default
      | Some path \<Rightarrow>
         (case read_to_string H path of
            Inl e \<Rightarrow> Err (FileRead path e)
          | Inr contents \<Rightarrow> (case toml_from_str H contents of Inl e \<Rightarrow> Err (Parse e) | Inr c \<Rightarrow> Ok c)))"

text \<open>
  C38: every setting comes from where the documentation says. The base is the file named after
  \<open>--config\<close>, or the defaults without that flag; the address, the port, the domain and the Cyclone
  URI are the environment's where it sets them and the base's otherwise, and the log level is that
  of the first verbosity flag. Loading fails exactly if the file cannot be read, or it is not well
  formed, or a port or domain variable is set to something that is not an unsigned decimal in
  range, with an error that names the file or the variable; the first failure in this order counts.
\<close>

theorem settings_precedence:
  "load_config_from_args H args =
    (case base_settings H args of
       Ok c \<Rightarrow>
         (case env_var H ''DDS_BRIDGE_WS_PORT'' of
            Some v \<Rightarrow> if \<not> is_decimal 65535 v then Err (InvalidEnvVar ''DDS_BRIDGE_WS_PORT'' v) else
              (case env_var H ''DDS_BRIDGE_DDS_DOMAIN'' of
                 Some u \<Rightarrow> if \<not> is_decimal 4294967295 u then Err (InvalidEnvVar ''DDS_BRIDGE_DDS_DOMAIN'' u) else Ok (settings H args c)
               | None \<Rightarrow> Ok (settings H args c))
          | None \<Rightarrow>
              (case env_var H ''DDS_BRIDGE_DDS_DOMAIN'' of
                 Some u \<Rightarrow> if \<not> is_decimal 4294967295 u then Err (InvalidEnvVar ''DDS_BRIDGE_DDS_DOMAIN'' u) else Ok (settings H args c)
               | None \<Rightarrow> Ok (settings H args c)))
     | Err e \<Rightarrow> Err e
     | Panic \<Rightarrow> Panic)"
proof -
  have load: "(case config_path args of Some path \<Rightarrow> config_load H path | None \<Rightarrow> from_defaults H) =
      and_then (base_settings H args) (apply_env_overrides H)"
    by (simp add: base_settings_def config_load_def from_defaults_def split: option.split sum.split)
  have "(case parse_verbosity args of None \<Rightarrow> settings H [] c
      | Some level \<Rightarrow> (settings H [] c)\<lparr>cfg_logging := (cfg_logging (settings H [] c))\<lparr>log_level := level\<rparr>\<rparr>) = settings H args c" for c
    by (simp add: parse_verbosity_def verbosity_of_exact settings_def drop_Suc)
  with load show ?thesis
    by (cases "base_settings H args")
      (simp_all add: load_config_from_args_def apply_env_overrides_exact parse_u16_None parse_u32_None split: option.split)
qed

theorem settings_precedence_witness:
  "load_config_from_args \<lparr>env_var = [''DDS_BRIDGE_WS_PORT'' \<mapsto> ''+8080''], read_to_string = \<lambda>_. Inl ''none'', toml_from_str = \<lambda>_. Inl ''none''\<rparr>
     [''bridge'', ''-v''] =
   Ok (config_default\<lparr>cfg_websocket := websocket_config_default\<lparr>ws_port := 8080\<rparr>, cfg_logging := \<lparr>log_level = ''debug''\<rparr>\<rparr>) \<and>
   load_config_from_args \<lparr>env_var = [''DDS_BRIDGE_WS_PORT'' \<mapsto> ''65536''], read_to_string = \<lambda>_. Inl ''none'', toml_from_str = \<lambda>_. Inl ''none''\<rparr> [] =
   Err (InvalidEnvVar ''DDS_BRIDGE_WS_PORT'' ''65536'') \<and>
   load_config_from_args \<lparr>env_var = [''DDS_BRIDGE_WS_PORT'' \<mapsto> ''65536''], read_to_string = \<lambda>_. Inl ''none'', toml_from_str = \<lambda>_. Inl ''none''\<rparr>
     [''bridge'', ''--config'', ''b.toml''] = Err (FileRead ''b.toml'' ''none'')"
proof -
  let ?H = "\<lambda>port. \<lparr>env_var = [''DDS_BRIDGE_WS_PORT'' \<mapsto> port], read_to_string = \<lambda>_. Inl ''none'', toml_from_str = \<lambda>_. Inl ''none''\<rparr>"
  have evals: "is_decimal 65535 ''+8080''" "\<not> is_decimal 65535 ''65536''" "parse_u16 ''+8080'' = Some 8080"
    by (simp_all add: parse_u16_def parse_uint_exact is_decimal_def digits_of_def decimal_from_def digit_def Let_def)
  have "load_config_from_args (?H ''+8080'') [''bridge'', ''-v''] = Ok (settings (?H ''+8080'') [''bridge'', ''-v''] config_default)"
    by (subst settings_precedence) (simp add: base_settings_def evals(1))
  moreover have "settings (?H ''+8080'') [''bridge'', ''-v''] config_default =
      config_default\<lparr>cfg_websocket := websocket_config_default\<lparr>ws_port := 8080\<rparr>, cfg_logging := \<lparr>log_level = ''debug''\<rparr>\<rparr>"
    by (simp add: settings_def env_number_def config_default_def dds_config_default_def logging_config_default_def evals(3))
  moreover have "load_config_from_args (?H ''65536'') [] = Err (InvalidEnvVar ''DDS_BRIDGE_WS_PORT'' ''65536'')"
    by (subst settings_precedence) (simp add: base_settings_def evals(2))
  moreover have "load_config_from_args (?H ''65536'') [''bridge'', ''--config'', ''b.toml''] = Err (FileRead ''b.toml'' ''none'')"
    by (subst settings_precedence) (simp add: base_settings_def)
  ultimately show ?thesis by simp
qed

end
