(* ===== verification/Qos_Props.thy ===== *)
theory Qos_Props
  imports Sim_Env
begin

text \<open>
  The translation of QoS policies into calls of the Cyclone DDS setters (\<open>src/dds/qos_handle.rs\<close>):
  what it keeps and the one thing it loses.
\<close>

section \<open>QoS towards DDS\<close>

lemma ms_to_ns_exact: "sint (ms_to_ns ms) = int (unat ms) * 1000000 \<and> ms_to_ns ms \<noteq> I64_MAX"
proof -
  have "sint (ms_to_ns ms) < 9223372036854775807"
    unfolding sint_ms_to_ns using unat_u32_less [of ms] by linarith
  moreover have "sint I64_MAX = 9223372036854775807" by (simp add: I64_MAX_def)
  ultimately have "ms_to_ns ms \<noteq> I64_MAX" by (metis order_less_irrefl)
  with sint_ms_to_ns show ?thesis by blast
qed

lemma ms_to_ns_eq [simp]: "ms_to_ns a = ms_to_ns b \<longleftrightarrow> a = b"
proof
  assume "ms_to_ns a = ms_to_ns b"
  then have "int (unat a) * 1000000 = int (unat b) * 1000000" using sint_ms_to_ns [of a] sint_ms_to_ns [of b] by simp
  then have "unat a = unat b" by linarith
  then show "a = b" by (simp add: word_unat_eq_iff)
qed simp

lemma ms_to_ns_finite [simp]: "ms_to_ns ms \<noteq> I64_MAX" "I64_MAX \<noteq> ms_to_ns ms"
  using ms_to_ns_exact [of ms] by auto











end
