(* ===== verification/Startup.thy ===== *)
theory Startup
  imports Sim_Env
begin

text \<open>
  \<open>main\<close> of \<open>src/main.rs\<close>: the health probe, loading the settings, creating the bridge and
  starting the server; and the health probe against the server's accept loop.
\<close>

section \<open>Starting\<close>

text \<open>
  \<open>Up p serving\<close>: the poll loop runs on the bridge state \<open>p\<close>; the accept loop runs as well if
  the address could be bound. If not, \<open>ws::server::start\<close> returns its error, which is logged,
  and \<open>main\<close> goes on waiting for the shutdown signal. (\<open>create_bridge\<close> does not panic.)
\<close>

datatype 'w started = Exit int | Up "'w process" bool

definition listen_addr :: "Config \<Rightarrow> string" where
  "listen_addr config = ws_addr (cfg_websocket config) @ '':'' @ fmt_dec (unat (ws_port (cfg_websocket config)))"

definition main_start ::
  "host \<Rightarrow> tcp \<Rightarrow> 'w environment \<Rightarrow> (string \<Rightarrow> bool) \<Rightarrow> string list \<Rightarrow> 'w \<Rightarrow> 'w started \<times> 'w" where
  "main_start H T E bind_ok args w =
     (if length args > 1 \<and> args ! 1 = ''healthcheck'' then (Exit (run_healthcheck H T args), w)
      else case load_config_from_args H args of
        Ok config \<Rightarrow>
          (case create_bridge E config w of
             (Ok bridge_handle, w) \<Rightarrow> (Up bridge_handle (bind_ok (listen_addr config)), w)
           | (_, w) \<Rightarrow> (Exit 1, w))
      | _ \<Rightarrow> (Exit 1, w))"

text \<open>A process that is up is in an initial state of the step relation.\<close>

lemma main_start_reach:
  assumes "main_start H T E bind_ok args w = (Up p serving, w')"
  obtains config where "load_config_from_args H args = Ok config"
    "reach E B (ws_max_connections (cfg_websocket config)) config 0 (sys_init p)"
proof -
  from assms obtain config where "load_config_from_args H args = Ok config" "create_bridge E config w = (Ok p, w')"
    by (auto simp: main_start_def split: if_splits result.splits prod.splits)
  with reach.start that show thesis by metis
qed

section \<open>Shutting down\<close>

text \<open>
  After the shutdown signal and the end of the accept loop \<open>main\<close> returns and the runtime drops
  its tasks wherever they wait; the last handle drops the \<open>BridgeInner\<close>. No session is
  unregistered. Its fields are dropped in the order of their declaration: the participant, then
  the writers, then the readers; \<open>ws\<close> and \<open>rs\<close> are the orders in which the two hash maps are
  dropped.
\<close>

definition drop_bridge :: "'w environment \<Rightarrow> u32 list \<Rightarrow> u64 list \<Rightarrow> 'w process \<Rightarrow> 'w" where
  "drop_bridge E ws rs p =
     (let w = drop_participant E (br_participant p) (world p);
          w = fold (\<lambda>wid. drop_entry E (wr_writers (br_writers p) wid)) ws w
      in fold (\<lambda>rid w. case rr_readers (br_readers p) rid of None \<Rightarrow> w | Some reader \<Rightarrow> drop_reader E reader w) rs w)"

text \<open>Every entity is deleted once, the participant (in Cyclone, with all its children) first.\<close>

lemma drop_bridge_deletes:
  assumes "set ws = dom (wr_writers (br_writers p))" and "set rs = dom (rr_readers (br_readers p))"
  shows "drop_bridge E ws rs p =
    fold (dds_delete E) (pt_handle (br_participant p) # map (\<lambda>wid. w_handle (fst (the (wr_writers (br_writers p) wid)))) ws @
      map (\<lambda>rid. r_handle (the (rr_readers (br_readers p) rid))) rs) (world p)"
proof -
  let ?w = "dds_delete E (pt_handle (br_participant p)) (world p)"
  have "fold (\<lambda>wid. drop_entry E (wr_writers (br_writers p) wid)) ws ?w =
      fold (\<lambda>wid. dds_delete E (w_handle (fst (the (wr_writers (br_writers p) wid))))) ws ?w"
    by (rule fold_cong) (use assms(1) in \<open>auto simp: drop_entry_def drop_writer_def\<close>)
  moreover have "fold (\<lambda>rid w. case rr_readers (br_readers p) rid of None \<Rightarrow> w | Some reader \<Rightarrow> drop_reader E reader w) rs w =
      fold (\<lambda>rid. dds_delete E (r_handle (the (rr_readers (br_readers p) rid)))) rs w" for w
    by (rule fold_cong) (use assms(2) in \<open>auto simp: drop_reader_def fun_eq_iff\<close>)
  ultimately show ?thesis
    by (simp add: drop_bridge_def drop_participant_def Let_def fold_map comp_def)
qed

section \<open>Health probe\<close>

definition health_request :: "string \<Rightarrow> string" where
  "health_request host = ''GET /health HTTP/1.1'' @ CRLF @ ''Host: '' @ host @ CRLF @ ''Connection: close'' @ CRLF @ CRLF"

lemma as_bytes_append: "as_bytes (s @ t) = as_bytes s @ as_bytes t"
  by (simp add: as_bytes_def)

lemma health_request_peek: "take 11 (as_bytes (health_request host)) = as_bytes ''GET /health''"
  by (simp add: health_request_def as_bytes_def)

lemma probe_recognized:
  "on_accept current max_connections (Some (take 11 (as_bytes (health_request host)))) =
    (if current < max_connections then Health HEALTH_RESPONSE else Reject)"
proof -
  have "length (as_bytes ''GET /health'') = 11" "take 11 (as_bytes ''GET /health'') = as_bytes ''GET /health''"
    by (simp_all add: as_bytes_def)
  then show ?thesis by (simp add: on_accept_def health_request_peek)
qed

lemma health_response_ok: "starts_with ''HTTP/1.1 200'' HEALTH_RESPONSE"
  by (simp add: starts_with_def HEALTH_RESPONSE_def)

text \<open>What \<open>run_healthcheck\<close> connects to; without a valid configuration it uses the defaults.\<close>

definition probe_config :: "host \<Rightarrow> string list \<Rightarrow> WebSocketConfig" where
  "probe_config H args = cfg_websocket (case load_config_from_args H args of Ok c \<Rightarrow> c | _ \<Rightarrow> config_default)"

definition probe_host :: "host \<Rightarrow> string list \<Rightarrow> string" where
  "probe_host H args = (let a = ws_addr (probe_config H args) in if a = ''0.0.0.0'' then ''127.0.0.1'' else a)"

definition probe_addr :: "host \<Rightarrow> string list \<Rightarrow> string" where
  "probe_addr H args = probe_host H args @ '':'' @ fmt_dec (unat (ws_port (probe_config H args)))"

text \<open>
  What the probe may read from a server with \<open>current\<close> connections. If the accept loop is held by
  a client that sends nothing, the read times out after five seconds; a rejected connection is
  closed (or reset); an answer may also get lost.
\<close>

definition probe_answers :: "bool \<Rightarrow> nat \<Rightarrow> nat \<Rightarrow> string \<Rightarrow> string option set" where
  "probe_answers held current max_connections host =
     (if held then {None} else
      case on_accept current max_connections (Some (take 11 (as_bytes (health_request host)))) of
        Health response \<Rightarrow> {Some response, None}
      | Reject \<Rightarrow> {Some [], None}
      | Serve \<Rightarrow> {None})"

text \<open>
  C40: the health probe (\<open>main\<close> with the argument \<open>healthcheck\<close>) exits with 0 exactly if the
  configured address is a numeric socket address that accepts the connection and the request, the
  server's accept loop is not held by a silent client, the server is below its connection limit,
  and the answer arrives; and with 1 otherwise. So a listening server that is full, or whose accept
  loop waits for another client's first bytes, or that is configured by host name, is reported as
  unhealthy. The probe touches no DDS entity.
\<close>

theorem health_probe_exit_code:
  assumes "1 < length args" and "args ! 1 = ''healthcheck''"
    and "tcp_read T \<in> probe_answers held current max_connections (probe_host H args)"
  shows "main_start H T E bind_ok args w =
    (Exit (if sock_addr_ok T (probe_addr H args) \<and> tcp_connect T (probe_addr H args) \<and>
        tcp_write T (health_request (probe_host H args)) \<and>
        \<not> held \<and> current < max_connections \<and> tcp_read T \<noteq> None then 0 else 1), w)"
proof -
  let ?h = "probe_host H args"
  have probe: "run_healthcheck H T args =
      (if \<not> (sock_addr_ok T (probe_addr H args) \<and> tcp_connect T (probe_addr H args) \<and> tcp_write T (health_request ?h)) then 1
       else case tcp_read T of None \<Rightarrow> 1 | Some response \<Rightarrow> if starts_with ''HTTP/1.1 200'' response then 0 else 1)"
    by (simp add: run_healthcheck_def probe_addr_def probe_host_def probe_config_def health_request_def Let_def)
  have "(case tcp_read T of None \<Rightarrow> 1 | Some response \<Rightarrow> if starts_with ''HTTP/1.1 200'' response then 0 else (1 :: int)) =
      (if \<not> held \<and> current < max_connections \<and> tcp_read T \<noteq> None then 0 else 1)"
    using assms(3) health_response_ok
    by (auto simp: probe_answers_def probe_recognized starts_with_def split: if_splits)
  with probe assms(1,2) show ?thesis by (simp add: main_start_def)
qed

text \<open>
  The numeric IPv4 socket addresses: four octets without leading zeros, a colon and a port. This is
  all the example hosts below know of \<open>SocketAddr::from_str\<close>.
\<close>

fun split_on :: "char \<Rightarrow> string \<Rightarrow> string list" where
  "split_on x [] = [[]]"
| "split_on x (c # cs) = (if c = x then [] # split_on x cs
     else case split_on x cs of [] \<Rightarrow> [[c]] | w # ws \<Rightarrow> (c # w) # ws)"

definition ipv4_octet :: "string \<Rightarrow> bool" where
  "ipv4_octet s \<longleftrightarrow> s \<noteq> [] \<and> (hd s = CHR ''0'' \<longrightarrow> tl s = []) \<and> parse_digits 255 0 s \<noteq> None"

definition ipv4_socket_addr :: "string \<Rightarrow> bool" where
  "ipv4_socket_addr s \<longleftrightarrow> (case split_on CHR '':'' s of
     [ip, port] \<Rightarrow> length (split_on CHR ''.'' ip) = 4 \<and> list_all ipv4_octet (split_on CHR ''.'' ip) \<and>
       port \<noteq> [] \<and> parse_digits 65535 0 port \<noteq> None
   | _ \<Rightarrow> False)"

definition demo_host :: "string option \<Rightarrow> host" where
  "demo_host addr = \<lparr>env_var = Map.empty(''DDS_BRIDGE_WS_ADDR'' := addr), read_to_string = \<lambda>_. Inl ''none'', toml_from_str = \<lambda>_. Inl ''none''\<rparr>"

definition demo_tcp :: "string option \<Rightarrow> tcp" where
  "demo_tcp answer = \<lparr>sock_addr_ok = ipv4_socket_addr, tcp_connect = \<lambda>_. True, tcp_write = \<lambda>_. True, tcp_read = answer\<rparr>"

lemma fmt_9876: "fmt_dec 9876 = ''9876''"
  by (simp add: fmt_dec.simps [of 9876] fmt_dec.simps [of 987] fmt_dec.simps [of 98] fmt_dec.simps [of 9] digit_char_def char_of_def bit_0)

lemma demo_addr:
  "probe_addr (demo_host None) [''bridge'', ''healthcheck''] = ''127.0.0.1:9876''"
  "probe_addr (demo_host (Some ''localhost'')) [''bridge'', ''healthcheck''] = ''localhost:9876''"
  by (simp_all add: probe_addr_def probe_host_def probe_config_def demo_host_def load_config_from_args_def from_defaults_def
      apply_env_overrides_def parse_verbosity_def config_default_def websocket_config_default_def fmt_9876 Let_def)

lemma demo_addr_ok: "ipv4_socket_addr ''127.0.0.1:9876''" "\<not> ipv4_socket_addr ''localhost:9876''"
  by (simp_all add: ipv4_socket_addr_def ipv4_octet_def digit_def Let_def)

text \<open>A free server, a full one, one whose accept loop is held, and one configured by host name.\<close>

theorem health_probe_exit_code_witness:
  "main_start (demo_host None) (demo_tcp (Some HEALTH_RESPONSE)) sim_env (\<lambda>_. True) [''bridge'', ''healthcheck''] sim_start = (Exit 0, sim_start) \<and>
   main_start (demo_host None) (demo_tcp (Some [])) sim_env (\<lambda>_. True) [''bridge'', ''healthcheck''] sim_start = (Exit 1, sim_start) \<and>
   main_start (demo_host None) (demo_tcp None) sim_env (\<lambda>_. True) [''bridge'', ''healthcheck''] sim_start = (Exit 1, sim_start) \<and>
   main_start (demo_host (Some ''localhost'')) (demo_tcp (Some HEALTH_RESPONSE)) sim_env (\<lambda>_. True) [''bridge'', ''healthcheck''] sim_start =
     (Exit 1, sim_start)"
proof -
  have answers: "Some HEALTH_RESPONSE \<in> probe_answers False 0 64 h" "Some [] \<in> probe_answers False 64 64 h"
    "None \<in> probe_answers True 0 64 h" for h
    by (simp_all add: probe_answers_def probe_recognized)
  let ?args = "[''bridge'', ''healthcheck'']"
  note probe = health_probe_exit_code [where args = ?args and E = sim_env and bind_ok = "\<lambda>_. True" and w = sim_start]
  have read: "tcp_read (demo_tcp a) = a" "sock_addr_ok (demo_tcp a) = ipv4_socket_addr" "tcp_connect (demo_tcp a) x" "tcp_write (demo_tcp a) x" for a x
    by (simp_all add: demo_tcp_def)
  have "main_start (demo_host None) (demo_tcp (Some HEALTH_RESPONSE)) sim_env (\<lambda>_. True) ?args sim_start = (Exit 0, sim_start)"
    by (subst probe [where held = False and current = 0 and max_connections = 64]) (simp_all add: read answers demo_addr demo_addr_ok)
  moreover have "main_start (demo_host None) (demo_tcp (Some [])) sim_env (\<lambda>_. True) ?args sim_start = (Exit 1, sim_start)"
    by (subst probe [where held = False and current = 64 and max_connections = 64]) (simp_all add: read answers)
  moreover have "main_start (demo_host None) (demo_tcp None) sim_env (\<lambda>_. True) ?args sim_start = (Exit 1, sim_start)"
    by (subst probe [where held = True and current = 0 and max_connections = 64]) (simp_all add: read answers)
  moreover have "main_start (demo_host (Some ''localhost'')) (demo_tcp (Some HEALTH_RESPONSE)) sim_env (\<lambda>_. True) ?args sim_start = (Exit 1, sim_start)"
    by (subst probe [where held = False and current = 0 and max_connections = 64]) (simp_all add: read answers demo_addr demo_addr_ok)
  ultimately show ?thesis by blast
qed

end
