(* ===== verification/Ledger.thy ===== *)
theory Ledger
  imports System
begin

text \<open>
  What the bridge promises its clients, as an abstract specification: a ledger of who owns which
  writer and who is subscribed to what, with operations that are only defined for an open session
  acting on its own entries. The simulation: every step of the running system is one operation
  of the ledger, and what a connection reads is an operation of its own session (\<open>session_op\<close>).
\<close>

section \<open>Specification\<close>

record ledger =
  l_writers :: "u32 \<rightharpoonup> u64 \<times> string \<times> string"   \<comment> \<open>owner, topic, type\<close>
  l_subs :: "u64 \<times> string \<times> string \<rightharpoonup> u64"
  l_open :: "u64 set"

datatype ledger_op =
    Idle
  | Connect u64
  | Disconnect u64
  | AddWriter u64 u32 string string
  | DropWriter u64 u32
  | Record u64 string string u64
  | Forget u64 string string

definition ledger_init :: ledger where
  "ledger_init = \<lparr>l_writers = Map.empty, l_subs = Map.empty, l_open = {}\<rparr>"

fun ledger_do :: "ledger_op \<Rightarrow> ledger \<Rightarrow> ledger option" where
  "ledger_do Idle l = Some l"
| "ledger_do (Connect t) l = (if t \<in> l_open l then None else Some (l\<lparr>l_open := insert t (l_open l)\<rparr>))"
| "ledger_do (Disconnect t) l =
     (if t \<notin> l_open l then None
      else Some \<lparr>l_writers = (\<lambda>wid. case l_writers l wid of None \<Rightarrow> None | Some (o', x) \<Rightarrow> if o' = t then None else Some (o', x)),
        l_subs = (\<lambda>(o', x). if o' = t then None else l_subs l (o', x)), l_open = l_open l - {t}\<rparr>)"
| "ledger_do (AddWriter t wid n ty) l =
     (if t \<notin> l_open l \<or> l_writers l wid \<noteq> None then None
      else Some (l\<lparr>l_writers := (l_writers l)(wid \<mapsto> (t, n, ty))\<rparr>))"
| "ledger_do (DropWriter t wid) l =
     (case l_writers l wid of
        None \<Rightarrow> None
      | Some (o', _) \<Rightarrow> if o' \<noteq> t \<or> t \<notin> l_open l then None else Some (l\<lparr>l_writers := (l_writers l)(wid := None)\<rparr>))"
| "ledger_do (Record t n ty r) l =
     (if t \<notin> l_open l then None else Some (l\<lparr>l_subs := (l_subs l)((t, n, ty) \<mapsto> r)\<rparr>))"
| "ledger_do (Forget t n ty) l =
     (if t \<notin> l_open l \<or> l_subs l (t, n, ty) = None then None else Some (l\<lparr>l_subs := (l_subs l)((t, n, ty) := None)\<rparr>))"

fun ledger_run :: "ledger_op list \<Rightarrow> ledger \<Rightarrow> ledger option" where
  "ledger_run [] l = Some l"
| "ledger_run (x # xs) l = (case ledger_do x l of None \<Rightarrow> None | Some l' \<Rightarrow> ledger_run xs l')"

text \<open>The operations a message of session \<open>t\<close> may amount to: on \<open>t\<close>'s own entries only.\<close>

fun session_op :: "u64 \<Rightarrow> ledger_op \<Rightarrow> bool" where
  "session_op t Idle \<longleftrightarrow> True"
| "session_op t (Connect t') \<longleftrightarrow> False"
| "session_op t (Disconnect t') \<longleftrightarrow> False"
| "session_op t (AddWriter t' wid n ty) \<longleftrightarrow> t' = t"
| "session_op t (DropWriter t' wid) \<longleftrightarrow> t' = t"
| "session_op t (Record t' n ty r) \<longleftrightarrow> t' = t"
| "session_op t (Forget t' n ty) \<longleftrightarrow> t' = t"

lemma ledger_run_snoc: "ledger_run xs l = Some l' \<Longrightarrow> ledger_do x l' = Some l'' \<Longrightarrow> ledger_run (xs @ [x]) l = Some l''"
  by (induction xs arbitrary: l) (auto split: option.splits)

text \<open>Everything in the ledger belongs to an open session.\<close>

definition ledger_ok :: "ledger \<Rightarrow> bool" where
  "ledger_ok l \<longleftrightarrow> (\<forall>wid t x. l_writers l wid = Some (t, x) \<longrightarrow> t \<in> l_open l) \<and>
     (\<forall>t x r. l_subs l (t, x) = Some r \<longrightarrow> t \<in> l_open l)"

lemma ledger_do_ok: "ledger_do x l = Some l' \<Longrightarrow> ledger_ok l \<Longrightarrow> ledger_ok l'"
  by (cases x) (auto simp: ledger_ok_def split: if_splits option.splits, blast+)

lemma ledger_run_ok: "ledger_run xs l = Some l' \<Longrightarrow> ledger_ok l \<Longrightarrow> ledger_ok l'"
  by (induction xs arbitrary: l) (auto intro: ledger_do_ok split: option.splits)

lemma ledger_init_ok: "ledger_ok ledger_init"
  by (simp add: ledger_ok_def ledger_init_def)

section \<open>Simulation\<close>

definition ledger_of :: "'w process \<Rightarrow> ledger" where
  "ledger_of p = \<lparr>
     l_writers = (\<lambda>wid. case wr_writers (br_writers p) wid of
        None \<Rightarrow> None | Some (wr, o') \<Rightarrow> Some (o', tp_topic_name (w_topic wr), tp_type_name (w_topic wr))),
     l_subs = rr_session_subscriptions (br_readers p),
     l_open = dom (br_session_senders p)\<rparr>"

lemma ledger_of_light: "light s s' \<Longrightarrow> ledger_of s' = ledger_of s"
  by (simp add: light_def ledger_of_def)

lemma ledger_of_world [simp]: "ledger_of (p\<lparr>world := w\<rparr>) = ledger_of p"
  by (simp add: ledger_of_def)

text \<open>One message of an open session is one operation.\<close>

lemma effect_ledger:
  assumes inv: "bridge_inv B k s" and eff: "effect E B sid s s'" and sid: "sid \<in> dom (br_session_senders s)"
  shows "\<exists>x. session_op sid x \<and> ledger_do x (ledger_of s) = Some (ledger_of s')"
  using eff
proof (cases rule: effect.cases)
  case unchanged
  then have "ledger_do Idle (ledger_of s) = Some (ledger_of s')" by (simp add: ledger_of_light)
  then show ?thesis by (intro exI [of _ "Idle"]) simp
next
  case (registered wr w wid ws w')
  let ?x = "AddWriter sid (next_writer_id s) (tp_topic_name (w_topic wr)) (tp_type_name (w_topic wr))"
  have "wr_writers ws = (wr_writers (br_writers s))(next_writer_id s \<mapsto> (wr, sid))"
    using wr_register_simps(2) [OF registered(1)] registered(2) by simp
  moreover have "wr_writers (br_writers s) (next_writer_id s) = None" by (rule fresh_writer_id [OF inv])
  ultimately have "ledger_do ?x (ledger_of s) = Some (ledger_of s')"
    using sid unfolding ledger_of_light [OF registered(3)] by (auto simp: ledger_of_def fun_eq_iff)
  then show ?thesis by (intro exI [of _ "?x"]) simp
next
  case (deleted wid w r ws w')
  show ?thesis
  proof (cases "\<exists>wr. wr_writers (br_writers s) wid = Some (wr, sid)")
    case True
    then have "wr_writers ws = (wr_writers (br_writers s))(wid := None)"
      using deleted(1) by (auto simp: wr_delete_def Let_def split: option.splits)
    with True have "ledger_do (DropWriter sid wid) (ledger_of s) = Some (ledger_of s')"
      using sid unfolding ledger_of_light [OF deleted(2)] by (auto simp: ledger_of_def fun_eq_iff)
    then show ?thesis by (intro exI [of _ "DropWriter sid wid"]) simp
  next
    case False
    then have "ws = br_writers s"
      using deleted(1) by (auto simp: wr_delete_def split: option.splits if_splits)
    then have "ledger_do Idle (ledger_of s) = Some (ledger_of s')"
      unfolding ledger_of_light [OF deleted(2)] by (simp add: ledger_of_def)
    then show ?thesis by (intro exI [of _ "Idle"]) simp
  qed
next
  case (subscribed ph tp qp q w res n' rs w')
  note keep = ledger_of_light [OF subscribed(2)]
  have "\<exists>x. session_op sid x \<and> ledger_do x (ledger_of s) = Some (ledger_of (s\<lparr>br_readers := rs, next_reader_id := n'\<rparr>))"
    using bridge_invD(3) [OF inv] fresh_reader_id [OF inv] subscribed(1)
  proof (cases rule: rr_subscribe_cases)
    case (joined rid r)
    then show ?thesis using sid
      by (intro exI [of _ "Record sid (tp_topic_name (r_topic r)) (tp_type_name (r_topic r)) rid"])
        (simp add: ledger_of_def rr_join_def)
  next
    case (created r h)
    then show ?thesis using sid
      by (intro exI [of _ "Record sid (tp_topic_name (r_topic r)) (tp_type_name (r_topic r)) (r_reader_id r)"])
        (simp add: ledger_of_def rr_add_def)
  next
    case (failed h)
    then show ?thesis by (intro exI [of _ Idle]) (simp add: ledger_of_def)
  qed
  then show ?thesis unfolding keep .
next
  case (unsubscribed n ty w found rs w')
  note keep = ledger_of_light [OF unsubscribed(2)]
  show ?thesis
  proof (cases "rr_session_subscriptions (br_readers s) (sid, n, ty)")
    case None
    with unsubscribed(1) have "rs = br_readers s" by (simp add: rr_unsubscribe_def)
    then show ?thesis unfolding keep by (intro exI [of _ Idle]) (simp add: ledger_of_def)
  next
    case (Some rid)
    with unsubscribed(1) have "rr_session_subscriptions rs = (rr_session_subscriptions (br_readers s))((sid, n, ty) := None)"
      by (auto simp: rr_unsubscribe_def Let_def split: option.splits if_splits)
    with Some sid show ?thesis unfolding keep by (intro exI [of _ "Forget sid n ty"]) (auto simp: ledger_of_def)
  qed
qed

text \<open>The open sessions of the ledger are those of the connections being served.\<close>

lemma ledger_open:
  assumes ok: "sessions_ok s"
  shows "l_open (ledger_of (sys_bridge s)) = open_sessions s"
proof (intro subset_antisym subsetI)
  fix t assume "t \<in> l_open (ledger_of (sys_bridge s))"
  then have "br_session_senders (sys_bridge s) t \<noteq> None" by (auto simp: ledger_of_def)
  then have "\<not> idle t (sys_bridge s)" by (simp add: idle_def session_view_def)
  with sessions_okD(6) [OF ok] show "t \<in> open_sessions s" by blast
next
  fix t assume "t \<in> open_sessions s"
  then obtain c x where "sys_conns s c = Some x" "open_conn x" "t = c_session x" unfolding open_sessions_def by blast
  with sessions_okD(2) [OF ok this(1,2)] show "t \<in> l_open (ledger_of (sys_bridge s))" by (simp add: ledger_of_def domIff)
qed

lemma v_writers_iff: "v_writers (session_view t s) wid = Some wr \<longleftrightarrow> wr_writers (br_writers s) wid = Some (wr, t)"
  by (auto simp: session_view_def split: option.splits)

context hash_iteration
begin

lemma unregister_ledger:
  assumes inv: "bridge_inv B k s" and sid: "sid \<in> dom (br_session_senders s)"
  shows "ledger_do (Disconnect sid) (ledger_of s) = Some (ledger_of (unregister_session E sid s))"
proof -
  let ?s = "unregister_session E sid s"
  note un = unregister_session_fields(1-3) [OF inv, where sid = sid]
  have ws: "wr_writers (br_writers ?s) wid = Some (wr, t) \<longleftrightarrow> t \<noteq> sid \<and> wr_writers (br_writers s) wid = Some (wr, t)" for wid wr t
    unfolding v_writers_iff [symmetric] un(1) by simp
  have "l_writers (ledger_of ?s) wid = (case l_writers (ledger_of s) wid of
      None \<Rightarrow> None | Some (o', x) \<Rightarrow> if o' = sid then None else Some (o', x))" for wid
  proof (cases "wr_writers (br_writers s) wid")
    case None
    then have "wr_writers (br_writers ?s) wid = None" using ws [of wid] by (cases "wr_writers (br_writers ?s) wid") auto
    with None show ?thesis by (simp add: ledger_of_def)
  next
    case (Some x)
    obtain wr t where x: "x = (wr, t)" by fastforce
    show ?thesis
    proof (cases "t = sid")
      case True
      then have "wr_writers (br_writers ?s) wid \<noteq> Some (v, t')" for v t'
        unfolding ws using Some x True by auto
      then have "wr_writers (br_writers ?s) wid = None" by (cases "wr_writers (br_writers ?s) wid") auto
      with Some x True show ?thesis by (simp add: ledger_of_def)
    next
      case False
      then have "wr_writers (br_writers ?s) wid = Some (wr, t)" using ws [of wid wr t] Some x by simp
      with Some x False show ?thesis by (simp add: ledger_of_def)
    qed
  qed
  moreover have "l_subs (ledger_of ?s) (t, x) = (if t = sid then None else l_subs (ledger_of s) (t, x))" for t x
    using fun_cong [OF un(2) [of t], of x] by (cases x) (auto simp: session_view_def ledger_of_def split: if_splits)
  moreover have "l_open (ledger_of ?s) = l_open (ledger_of s) - {sid}"
    using un(3) by (auto simp: session_view_def ledger_of_def dom_def split: if_splits)
  ultimately show ?thesis using sid
    by (intro trans [OF ledger_do.simps(3)]) (auto simp: ledger_of_def fun_eq_iff)
qed

text \<open>The operation of each step that touches the bridge, by the connection that takes it.\<close>

lemma read_ledger:
  assumes ok: "sessions_ok s" and inv: "bridge_inv B k (sys_bridge s)"
    and c: "sys_conns s c = Some x" "c_phase x = Reading"
    and run: "read_iteration E B (c_session x) (c_max_payload x) ev (sys_bridge s) = (ms, l, p)"
  shows "\<exists>op. session_op (c_session x) op \<and> ledger_do op (ledger_of (sys_bridge s)) = Some (ledger_of p)"
proof (rule effect_ledger [OF inv])
  show "effect E B (c_session x) (sys_bridge s) p"
    using run process_binary_frame_effect
    by (auto simp: read_iteration_def intro: effect.unchanged split: ws_event.splits prod.splits option.splits)
  show "c_session x \<in> dom (br_session_senders (sys_bridge s))"
    using sessions_okD(2) [OF ok c(1)] by (simp add: open_conn_def c(2) domIff)
qed

lemma closed_ledger:
  assumes ok: "sessions_ok s" and inv: "bridge_inv B k (sys_bridge s)"
    and c: "sys_conns s c = Some x" "c_phase x = Draining"
  shows "ledger_do (Disconnect (c_session x)) (ledger_of (sys_bridge s)) =
    Some (ledger_of (unregister_session E (c_session x) (sys_bridge s)))"
  using sessions_okD(2) [OF ok c(1)] by (intro unregister_ledger [OF inv]) (simp add: open_conn_def c(2) domIff)

lemma opened_ledger:
  assumes ok: "sessions_ok s" and "open_session tx (sys_bridge s) = (x, p)"
  shows "ledger_do (if c_phase x = Aborted then Idle else Connect (c_session x)) (ledger_of (sys_bridge s)) = Some (ledger_of p)"
proof -
  let ?t = "next_session_id (sys_bridge s)"
  have "?t \<notin> open_sessions s"
  proof
    assume "?t \<in> open_sessions s"
    then obtain d y where "sys_conns s d = Some y" "open_conn y" "?t = c_session y" unfolding open_sessions_def by blast
    with sessions_okD(1) [OF ok this(1,2)] show False by simp
  qed
  with ledger_open [OF ok] have "?t \<notin> l_open (ledger_of (sys_bridge s))" by simp
  with assms(2) show ?thesis
    by (cases rule: open_session_cases) (auto simp: register_session_def ledger_of_def)
qed

lemma poll_ledger: "poll_take E p = (pending, p') \<Longrightarrow> ledger_of p' = ledger_of p"
  by (auto simp: poll_take_def Let_def split: prod.splits)

text \<open>Every step of the system is one operation.\<close>

lemma step_ledger:
  assumes "sys_step E B m s s'" and ok: "sessions_ok s" and inv: "bridge_inv B k (sys_bridge s)"
  shows "\<exists>x. ledger_do x (ledger_of (sys_bridge s)) = Some (ledger_of (sys_bridge s'))"
  using assms(1)
proof cases
  case (opened c x tx x' p)
  with opened_ledger [OF ok opened(4)] show ?thesis by (intro exI) simp
next
  case (read c x ev ms l p)
  with read_ledger [OF ok inv read(2-4)] show ?thesis by auto
next
  case (closed c x)
  with closed_ledger [OF ok inv closed(2,3)] show ?thesis by (intro exI [of _ "Disconnect (c_session x)"]) simp
next
  case (poll_taken pending p)
  with poll_ledger [OF poll_taken(3)] show ?thesis by (intro exI [of _ Idle]) simp
qed (rule exI [of _ Idle], simp)+

lemma reach_ledger:
  "reach E B m config n s \<Longrightarrow> Suc (Suc n) < 2 ^ 32 \<Longrightarrow>
   \<exists>xs. length xs = n \<and> ledger_run xs ledger_init = Some (ledger_of (sys_bridge s))"
proof (induction rule: reach.induct)
  case (start w p w')
  then have "ledger_of p = ledger_init"
    by (auto simp: create_bridge_def ledger_of_def ledger_init_def wr_new_def rr_new_def Let_def split: prod.splits result.splits)
  then show ?case by (simp add: sys_init_def)
next
  case (step n s s')
  then obtain xs where xs: "length xs = n" "ledger_run xs ledger_init = Some (ledger_of (sys_bridge s))" by auto
  from reach_ok [OF step.hyps(1)] step.prems have "sessions_ok s" "bridge_inv B (Suc n) (sys_bridge s)" by simp_all
  from step_ledger [OF step.hyps(2) this] obtain x where "ledger_do x (ledger_of (sys_bridge s)) = Some (ledger_of (sys_bridge s'))" ..
  with ledger_run_snoc [OF xs(2)] xs(1) show ?case by (intro exI [of _ "xs @ [x]"]) simp
qed

end

end
