(* ===== verification/Departed.thy ===== *)
theory Departed
  imports System
begin

text \<open>
  What becomes of the readers of a session that is over. A session is departed once its id has
  been given out and no connection being served has it any more. Ids are not reused, so nothing
  ever acts for a departed session again: where it is still a subscriber, it stays one.
\<close>

definition departed :: "u64 \<Rightarrow> 'w system \<Rightarrow> bool" where
  "departed t s \<longleftrightarrow> t \<notin> open_sessions s \<and> t < next_session_id (sys_bridge s)"

lemma open_sessions_set_conn:
  assumes "t \<in> open_sessions (set_conn c x s)"
  shows "t \<in> open_sessions s \<or> (open_conn x \<and> t = c_session x)"
  using assms by (auto simp: open_sessions_def split: if_splits)

lemma rr_left_owned:
  assumes "rid \<in> rr_owned reg t" and "t = sid \<Longrightarrow> rid \<notin> rids"
  shows "rid \<in> rr_owned (rr_left sid rids keys reg) t"
proof -
  from assms(1) obtain r where r: "rr_readers reg rid = Some r" "t \<in> r_subscribers r" by (auto simp: rr_owned_def)
  show ?thesis
  proof (cases "rid \<in> rids")
    case True
    with assms(2) r(2) have "leave sid r = Some (r\<lparr>r_subscribers := r_subscribers r - {sid}\<rparr>)" "t \<noteq> sid"
      by (auto simp: leave_eq_Some)
    with r True show ?thesis by (auto simp: rr_owned_def rr_left_readers_Some)
  next
    case False
    with r show ?thesis by (auto simp: rr_owned_def rr_left_readers_Some)
  qed
qed

context hash_iteration
begin

lemma unregister_owned:
  assumes inv: "bridge_inv B k s" and "rid \<in> rr_owned (br_readers s) t"
    and "t = sid \<Longrightarrow> rid \<notin> rr_recorded (br_readers s) sid"
  shows "rid \<in> rr_owned (br_readers (unregister_session E sid s)) t"
proof -
  obtain ws w where ws: "wr_remove_session E sid (br_writers s) (world s) = (ws, w)" by fastforce
  have "br_readers (unregister_session E sid s) = fst (rr_remove_session E sid (br_readers s) w)"
    by (simp add: unregister_session_def ws split: prod.split)
  with rr_remove_session_left [OF bridge_invD(3) [OF inv], of sid w] rr_left_owned [OF assms(2,3)]
  show ?thesis by simp
qed

lemma departed_step:
  assumes "sys_step E B m s s'" and ok: "sessions_ok s" and inv: "bridge_inv B k (sys_bridge s)"
    and id: "unat (next_session_id (sys_bridge s)) \<le> k" and k: "Suc k < 2 ^ 32" and gone: "departed t s"
    and own: "rid \<in> rr_owned (br_readers (sys_bridge s)) t"
  shows "departed t s' \<and> rid \<in> rr_owned (br_readers (sys_bridge s')) t"
  using assms(1)
proof cases
  case (accept current peeked c)
  then show ?thesis using gone own open_sessions_set_conn [of t c new_conn "s\<lparr>sys_active := sys_active s + 1, sys_loaded := None\<rparr>"]
    by (auto simp: departed_def new_conn_def open_conn_def)
next
  case (handshake_failed c x)
  then show ?thesis using gone own open_sessions_set_conn [of t c "x\<lparr>c_phase := Finished\<rparr>" "s\<lparr>sys_active := sys_active s - 1\<rparr>"]
    by (auto simp: departed_def open_conn_def)
next
  case (opened c x tx x' p)
  have k64: "Suc k < 2 ^ LENGTH(64)" using k by simp
  have t: "t \<notin> open_sessions s" "t < next_session_id (sys_bridge s)" using gone by (auto simp: departed_def)
  have p: "br_readers p = br_readers (sys_bridge s)" "next_session_id p = next_session_id (sys_bridge s) + 1"
    "open_conn x' \<Longrightarrow> c_session x' = next_session_id (sys_bridge s)"
    using opened(4) by (cases rule: open_session_cases; simp add: register_session_def new_conn_def open_conn_def)+
  have "t \<notin> open_sessions (set_conn c x' (s\<lparr>sys_bridge := p\<rparr>))"
    using open_sessions_set_conn [of t c x' "s\<lparr>sys_bridge := p\<rparr>"] t p(3) by auto
  moreover have "t < next_session_id p" unfolding p(2) using less_add_one_word(3) [OF id k64 t(2)] .
  ultimately show ?thesis using opened(1) own p(1) by (simp add: departed_def)
next
  case (read c x ev ms l p)
  have mine: "c_session x \<in> open_sessions s" using read by (auto simp: open_sessions_def open_conn_def)
  have eff: "effect E B (c_session x) (sys_bridge s) p"
    using read(4) process_binary_frame_effect
    by (auto simp: read_iteration_def intro: effect.unchanged split: ws_event.splits prod.splits option.splits)
  then have next_id: "next_session_id p = next_session_id (sys_bridge s)" by (auto simp: light_def elim!: effect_cases)
  have t: "t \<notin> open_sessions s" "t \<noteq> c_session x" using gone mine by (auto simp: departed_def)
  with effect_isolation [OF inv eff t(2)] have "rr_owned (br_readers p) t = rr_owned (br_readers (sys_bridge s)) t"
    by (simp add: session_view_def)
  moreover have "t \<notin> open_sessions (set_conn c (x\<lparr>c_phase := phase_after l\<rparr>) (s\<lparr>sys_bridge := p\<rparr>))"
    using open_sessions_set_conn [of t c "x\<lparr>c_phase := phase_after l\<rparr>" "s\<lparr>sys_bridge := p\<rparr>"] t by auto
  ultimately show ?thesis using read(1) gone own next_id by (simp add: departed_def)
next
  case (sink_failed c x)
  have "open_conn x" using sessions_okD(5) [OF ok sink_failed(2)] sink_failed(3) by blast
  with sink_failed have "c_session x \<in> open_sessions s" by (auto simp: open_sessions_def)
  with sink_failed gone own open_sessions_set_conn [of t c "x\<lparr>c_writer_alive := False, c_sink_failed := True\<rparr>" s]
  show ?thesis by (auto simp: departed_def)
next
  case (channels_closed c x)
  have "open_conn x" using sessions_okD(5) [OF ok channels_closed(2)] channels_closed(3) by blast
  with channels_closed have "c_session x \<in> open_sessions s" by (auto simp: open_sessions_def)
  with channels_closed gone own open_sessions_set_conn [of t c "x\<lparr>c_writer_alive := False\<rparr>" s]
  show ?thesis by (auto simp: departed_def)
next
  case (closed c x)
  let ?p = "unregister_session E (c_session x) (sys_bridge s)"
  have "c_session x \<in> open_sessions s" using closed by (auto simp: open_sessions_def open_conn_def)
  with gone have t: "t \<noteq> c_session x" by (auto simp: departed_def)
  have "rid \<in> rr_owned (br_readers ?p) t" by (rule unregister_owned [OF inv own]) (use t in simp)
  then show ?thesis
    using closed gone unregister_session_fields(5) [OF inv]
      open_sessions_set_conn [of t c "x\<lparr>c_phase := Returned\<rparr>" "s\<lparr>sys_bridge := ?p\<rparr>"]
    by (auto simp: departed_def open_conn_def)
next
  case (finished c x)
  then show ?thesis using gone own open_sessions_set_conn [of t c "x\<lparr>c_phase := Finished\<rparr>" "s\<lparr>sys_active := sys_active s - 1\<rparr>"]
    by (auto simp: departed_def open_conn_def)
next
  case (poll_taken pending p)
  then show ?thesis using gone own by (auto simp: departed_def poll_take_def Let_def split: prod.splits)
qed (use gone own in \<open>simp_all add: departed_def\<close>)

lemma departed_run:
  assumes "(sys_step E B m ^^ k) s s'" and reach: "reach E B m config n s" and bound: "n + k + 2 < 2 ^ 32"
    and "departed t s" and "rid \<in> rr_owned (br_readers (sys_bridge s)) t"
  shows "departed t s' \<and> rid \<in> rr_owned (br_readers (sys_bridge s')) t \<and> reach E B m config (n + k) s'"
  using assms(1) bound
proof (induction k arbitrary: s')
  case 0
  with reach assms(4,5) show ?case by simp
next
  case (Suc k)
  from Suc.prems(1) obtain u where u: "(sys_step E B m ^^ k) s u" "sys_step E B m u s'" by auto
  from Suc.IH [OF u(1)] Suc.prems(2) have IH: "departed t u" "rid \<in> rr_owned (br_readers (sys_bridge u)) t" "reach E B m config (n + k) u"
    by simp_all
  from reach_ok [OF IH(3)] Suc.prems(2) have "sessions_ok u" "bridge_inv B (Suc (n + k)) (sys_bridge u)"
    "unat (next_session_id (sys_bridge u)) \<le> Suc (n + k)" by simp_all
  from departed_step [OF u(2) this _ IH(1,2)] Suc.prems(2) reach.step [OF IH(3) u(2)] show ?case by simp
qed

text \<open>Closing a session whose membership is not recorded makes it such a departed subscriber.\<close>

lemma orphan_stays:
  assumes reach: "reach E B m config n s" and c: "sys_conns s c = Some x" "c_phase x = Draining" "\<not> c_writer_alive x"
    and orphan: "rid \<in> rr_owned (br_readers (sys_bridge s)) (c_session x)" "rid \<notin> rr_recorded (br_readers (sys_bridge s)) (c_session x)"
    and run: "(sys_step E B m ^^ k) (set_conn c (x\<lparr>c_phase := Returned\<rparr>)
      (s\<lparr>sys_bridge := unregister_session E (c_session x) (sys_bridge s)\<rparr>)) s'" (is "(_ ^^ _) ?s _")
    and bound: "n + k + 3 < 2 ^ 32"
  shows "departed (c_session x) s' \<and> rid \<in> rr_owned (br_readers (sys_bridge s')) (c_session x)"
proof -
  have close: "sys_step E B m s ?s" by (rule sys_step.closed [OF c])
  have r: "reach E B m config (Suc n) ?s" by (rule reach.step [OF reach close])
  from reach_ok [OF reach] bound have ok: "sessions_ok s" and inv: "bridge_inv B (Suc n) (sys_bridge s)" by simp_all
  have lt: "c_session x < next_session_id (sys_bridge s)"
    by (rule sessions_okD(1) [OF ok c(1)]) (simp add: open_conn_def c(2))
  have own: "rid \<in> rr_owned (br_readers (sys_bridge ?s)) (c_session x)"
    using unregister_owned [OF inv orphan(1)] orphan(2) by simp
  have "c_session x \<notin> open_sessions ?s"
  proof
    assume "c_session x \<in> open_sessions ?s"
    then obtain d y where y: "sys_conns ?s d = Some y" "open_conn y" "c_session y = c_session x"
      unfolding open_sessions_def by auto
    then have "d \<noteq> c" by (auto simp: open_conn_def)
    with y have "sys_conns s d = Some y" by simp
    with sessions_okD(4) [OF ok this c(1) y(2) _ y(3)] \<open>d \<noteq> c\<close> c(2) show False by (simp add: open_conn_def)
  qed
  with lt unregister_session_fields(5) [OF inv, of "c_session x"] have "departed (c_session x) ?s"
    by (simp add: departed_def)
  from departed_run [OF run r _ this own] bound show ?thesis by simp
qed

end

end
