(* ===== verification/Quiescence.thy ===== *)
theory Quiescence
  imports System
begin

text \<open>
  What the process does when nothing comes in. An input is a new connection at the listener, a
  client frame that keeps its read loop going, or a tick of the poll timer; every other step
  (a decision of the accept loop, the end of a handshake, of a read loop or of a writer task, the
  shutdown, unregistering, the fan-out of samples already taken) brings the process closer to
  rest. \<open>sys_rank\<close> counts how many of them can follow at most. Several of them happen only if a
  client or the network makes them happen; \<open>own_step\<close> are those that do not, and \<open>waiting\<close> the
  states in which none is left.
\<close>

inductive sys_input :: "'w environment \<Rightarrow> bytes_crate \<Rightarrow> 'w system \<Rightarrow> 'w system \<Rightarrow> bool"
  for E B where
  arrival: "sys_loaded s = None \<Longrightarrow> sys_input E B s (s\<lparr>sys_loaded := Some (sys_active s)\<rparr>)"
| frame: "sys_conns s c = Some x \<Longrightarrow> c_phase x = Reading \<Longrightarrow>
    read_iteration E B (c_session x) (c_max_payload x) ev (sys_bridge s) = (ms, Continue, p) \<Longrightarrow>
    sys_input E B s (set_conn c (x\<lparr>c_phase := phase_after Continue\<rparr>) (s\<lparr>sys_bridge := p\<rparr>))"
| tick: "sys_pending s = [] \<Longrightarrow> poll_take E (sys_bridge s) = (pending, p) \<Longrightarrow>
    sys_input E B s (s\<lparr>sys_bridge := p, sys_pending := pending\<rparr>)"

inductive_cases sys_inputE: "sys_input E B s s'"

definition quiet_step :: "'w environment \<Rightarrow> bytes_crate \<Rightarrow> nat \<Rightarrow> 'w system \<Rightarrow> 'w system \<Rightarrow> bool" where
  "quiet_step E B m s s' \<longleftrightarrow> sys_step E B m s s' \<and> \<not> sys_input E B s s'"

text \<open>An input leaves the connections and the listener's part of the state alone.\<close>

lemma sys_input_keeps:
  assumes "sys_input E B s s'"
  shows "sys_conns s' = sys_conns s" and "sys_accepting s' = sys_accepting s"
    and "sys_loaded s \<noteq> None \<Longrightarrow> sys_loaded s' = sys_loaded s"
    and "sys_pending s \<noteq> [] \<Longrightarrow> sys_pending s' = sys_pending s"
  using assms by (auto elim!: sys_inputE simp: phase_after_def fun_eq_iff)

section \<open>Writer tasks\<close>

text \<open>A writer task exists only between the start and the end of its session.\<close>

definition writers_placed :: "'w system \<Rightarrow> bool" where
  "writers_placed s \<longleftrightarrow> (\<forall>c x. sys_conns s c = Some x \<and> \<not> open_conn x \<longrightarrow> \<not> c_writer_alive x)"

lemma sys_step_placed: "sys_step E B m s s' \<Longrightarrow> writers_placed s \<Longrightarrow> writers_placed s'"
  by (erule sys_step.cases)
    (auto simp: writers_placed_def open_session_def new_conn_def open_conn_def phase_after_def
      split: prod.splits if_splits loop_state.splits)

lemma reach_placed: "reach E B m config n s \<Longrightarrow> writers_placed s"
  by (induction rule: reach.induct) (auto elim: sys_step_placed, simp add: writers_placed_def sys_init_def)

section \<open>The rank of a state\<close>

definition conn_rank :: "conn \<Rightarrow> nat" where
  "conn_rank x = (case c_phase x of Handshaking \<Rightarrow> 5 | Reading \<Rightarrow> 3 | Draining \<Rightarrow> 2 | Returned \<Rightarrow> 1 | Finished \<Rightarrow> 0 | Crashed \<Rightarrow> 0 | Aborted \<Rightarrow> 0)
     + (if c_writer_alive x then 1 else 0)"

definition conns_rank :: "'w system \<Rightarrow> nat" where
  "conns_rank s = (\<Sum>c \<in> live_conns s. conn_rank (the (sys_conns s c)))"

definition sys_rank :: "'w system \<Rightarrow> nat" where
  "sys_rank s = conns_rank s + (if sys_loaded s = None then 0 else 6) + (if sys_pending s = [] then 0 else 1)
     + (if sys_accepting s then 1 else 0)"

lemma conns_rank_cong: "sys_conns s' = sys_conns s \<Longrightarrow> conns_rank s' = conns_rank s"
  by (simp add: conns_rank_def live_conns_def)

lemma conns_rank_set_conn:
  assumes "finite (live_conns s)"
  shows "conns_rank (set_conn c y s) + (if c \<in> live_conns s then conn_rank (the (sys_conns s c)) else 0) =
    conns_rank s + (if live y then conn_rank y else 0)"
proof -
  let ?f = "\<lambda>d. conn_rank (the (sys_conns s d))" and ?L = "live_conns s - {c}"
  have rest: "(\<Sum>d \<in> ?L. conn_rank (the (sys_conns (set_conn c y s) d))) = (\<Sum>d \<in> ?L. ?f d)"
    by (rule sum.cong) auto
  have new: "conns_rank (set_conn c y s) = (\<Sum>d \<in> ?L. ?f d) + (if live y then conn_rank y else 0)"
    using assms rest by (simp add: conns_rank_def sum.insert_remove)
  have old: "conns_rank s = (\<Sum>d \<in> ?L. ?f d) + (if c \<in> live_conns s then ?f c else 0)"
    using assms by (auto simp: conns_rank_def sum.remove [of _ c])
  show ?thesis unfolding new old by simp
qed

text \<open>A step of one connection that lowers its rank lowers the rank of the state.\<close>

lemma sys_rank_conn:
  assumes "finite (live_conns s)" and "sys_conns s c = Some x" and "live x"
    and "(if live y then conn_rank y else 0) < conn_rank x"
    and "sys_conns s' = (sys_conns s)(c \<mapsto> y)" "sys_loaded s' = sys_loaded s" "sys_pending s' = sys_pending s"
      "sys_accepting s' = sys_accepting s"
  shows "sys_rank s' < sys_rank s"
proof -
  have "conns_rank s' = conns_rank (set_conn c y s)" by (rule conns_rank_cong) (simp add: assms)
  with conns_rank_set_conn [OF assms(1), of c y] assms show ?thesis
    by (simp add: sys_rank_def in_live_conns split: if_splits)
qed

lemma quiet_step_rank:
  assumes "quiet_step E B m s s'" and fin: "finite (live_conns s)" and placed: "writers_placed s"
  shows "sys_rank s' < sys_rank s"
proof -
  from assms(1) have st: "sys_step E B m s s'" and quiet: "\<not> sys_input E B s s'" by (simp_all add: quiet_step_def)
  have dead: "\<not> c_writer_alive x" if "sys_conns s c = Some x" "\<not> open_conn x" for c x
    using placed that by (auto simp: writers_placed_def)
  have same: "sys_conns s' = sys_conns s \<Longrightarrow> conns_rank s' = conns_rank s" by (rule conns_rank_cong)
  show ?thesis using st
  proof cases
    case load
    with quiet show ?thesis by (auto intro: sys_input.arrival)
  next
    case (accept current peeked c)
    have "conns_rank s' = conns_rank (set_conn c new_conn s)" by (rule conns_rank_cong) (simp add: accept)
    moreover have "c \<notin> live_conns s" using accept by (simp add: live_conns_def)
    ultimately show ?thesis using conns_rank_set_conn [OF fin, of c new_conn] accept
      by (simp add: sys_rank_def new_conn_def conn_rank_def live_def)
  next
    case (handshake_failed c x)
    with dead [of c x] show ?thesis
      by (intro sys_rank_conn [OF fin]) (auto simp: conn_rank_def live_def open_conn_def)
  next
    case (opened c x tx x' p)
    then show ?thesis
      by (intro sys_rank_conn [OF fin]) (auto simp: conn_rank_def live_def open_session_def new_conn_def split: prod.splits if_splits)
  next
    case (read c x ev ms l p)
    then have "l \<noteq> Continue" using quiet by (auto intro: sys_input.frame)
    with read show ?thesis
      by (intro sys_rank_conn [OF fin]) (auto simp: conn_rank_def live_def phase_after_def split: loop_state.splits)
  next
    case (sink_failed c x)
    with dead [of c x] show ?thesis
      by (intro sys_rank_conn [OF fin]) (auto simp: conn_rank_def live_def open_conn_def split: phase.splits)
  next
    case (channels_closed c x)
    with dead [of c x] show ?thesis
      by (intro sys_rank_conn [OF fin]) (auto simp: conn_rank_def live_def open_conn_def split: phase.splits)
  next
    case (closed c x)
    then show ?thesis by (intro sys_rank_conn [OF fin]) (auto simp: conn_rank_def live_def)
  next
    case (finished c x)
    with dead [of c x] show ?thesis
      by (intro sys_rank_conn [OF fin]) (auto simp: conn_rank_def live_def open_conn_def)
  next
    case poll_taken
    with quiet show ?thesis by (auto intro: sys_input.tick)
  qed (use same in \<open>auto simp: sys_rank_def\<close>)
qed

lemma reach_quiet: "reach E B m config n s \<Longrightarrow> quiet_step E B m s s' \<Longrightarrow> reach E B m config (Suc n) s'"
  by (simp add: quiet_step_def reach.step)

lemma quiet_run:
  assumes "(quiet_step E B m ^^ k) s s'" and "reach E B m config n s"
  shows "reach E B m config (n + k) s' \<and> sys_rank s' + k \<le> sys_rank s"
  using assms(1)
proof (induction k arbitrary: s')
  case 0
  with assms(2) show ?case by simp
next
  case (Suc k)
  then obtain y where y: "(quiet_step E B m ^^ k) s y" "quiet_step E B m y s'" by auto
  from Suc.IH [OF y(1)] have r: "reach E B m config (n + k) y" and le: "sys_rank y + k \<le> sys_rank s" by simp_all
  have "sys_rank s' < sys_rank y"
    using quiet_step_rank [OF y(2)] reach_counter [OF r] reach_placed [OF r] by (simp add: counter_ok_def)
  with le reach_quiet [OF r y(2)] show ?case by simp
qed

text \<open>A connection that is served has rank at most 5, so the rank is bounded by the connection limit.\<close>

lemma reach_rank:
  assumes "reach E B m config n s"
  shows "sys_rank s \<le> 5 * m + 8"
proof -
  have c: "card (live_conns s) \<le> m" using reach_counter [OF assms] by (simp add: counter_ok_def)
  have "conn_rank (the (sys_conns s c)) \<le> 5" if "c \<in> live_conns s" for c
    using that reach_placed [OF assms]
    by (auto simp: live_conns_def conn_rank_def writers_placed_def open_conn_def split: phase.split)
  then have "conns_rank s \<le> card (live_conns s) * 5"
    unfolding conns_rank_def using sum_bounded_above [of "live_conns s" "\<lambda>c. conn_rank (the (sys_conns s c))" 5] by simp
  with c show ?thesis by (simp add: sys_rank_def)
qed

section \<open>What the process does on its own\<close>

text \<open>
  The steps that need nothing from outside: turning away a connection at the limit, the end of a writer task whose channels are closed, the
  unregistering and the end of a connection task, the fan-out. All others wait for a client, the
  network, the poll timer or the shutdown signal.
\<close>

inductive own_step :: "'w environment \<Rightarrow> bytes_crate \<Rightarrow> nat \<Rightarrow> 'w system \<Rightarrow> 'w system \<Rightarrow> bool" for E B m where
  rejected: "sys_loaded s = Some current \<Longrightarrow> m \<le> current \<Longrightarrow> own_step E B m s (s\<lparr>sys_loaded := None\<rparr>)"
| channels_closed: "sys_conns s c = Some x \<Longrightarrow> c_writer_alive x \<Longrightarrow> c_phase x \<noteq> Reading \<Longrightarrow>
    bridge_channel_closed (c_session x) s \<Longrightarrow> own_step E B m s (set_conn c (x\<lparr>c_writer_alive := False\<rparr>) s)"
| closed: "sys_conns s c = Some x \<Longrightarrow> c_phase x = Draining \<Longrightarrow> \<not> c_writer_alive x \<Longrightarrow>
    own_step E B m s (set_conn c (x\<lparr>c_phase := Returned\<rparr>) (s\<lparr>sys_bridge := unregister_session E (c_session x) (sys_bridge s)\<rparr>))"
| finished: "sys_conns s c = Some x \<Longrightarrow> c_phase x = Returned \<Longrightarrow>
    own_step E B m s (set_conn c (x\<lparr>c_phase := Finished\<rparr>) (s\<lparr>sys_active := sys_active s - 1\<rparr>))"
| poll_sent: "sys_pending s \<noteq> [] \<Longrightarrow>
    own_step E B m s (s\<lparr>sys_bridge := (sys_bridge s)\<lparr>world := fan_out E B (sys_pending s) (world (sys_bridge s))\<rparr>, sys_pending := []\<rparr>)"

lemma own_step_sys: "own_step E B m s s' \<Longrightarrow> sys_step E B m s s'"
proof (induction rule: own_step.induct)
  case (rejected s current)
  then have "on_accept current m None \<noteq> Serve" by (simp add: on_accept_def)
  with rejected(1) show ?case by (rule sys_step.turned_away)
qed (rule sys_step.channels_closed sys_step.closed sys_step.finished sys_step.poll_sent; assumption)+

text \<open>
  Nothing is left to do: the fan-out is through, the connection the accept loop holds, if any, is
  below the limit (so its first bytes are awaited), and each connection waits for its handshake, for
  the client, or, when its read loop is over, for a send on its socket to fail, or is over itself.
\<close>

definition waiting :: "nat \<Rightarrow> 'w system \<Rightarrow> bool" where
  "waiting m s \<longleftrightarrow> sys_pending s = [] \<and> (\<forall>current. sys_loaded s = Some current \<longrightarrow> current < m) \<and>
     (\<forall>c x. sys_conns s c = Some x \<longrightarrow>
        c_phase x \<in> {Handshaking, Reading, Finished, Crashed, Aborted} \<or> c_phase x = Draining \<and> c_writer_alive x)"

text \<open>The bridge channel of a session with a writer task is never closed: its sender is registered.\<close>

lemma channel_stays_open:
  assumes "sessions_ok s" and "sys_conns s c = Some x" and "c_writer_alive x"
  shows "\<not> bridge_channel_closed (c_session x) s"
proof -
  have "open_conn x" using sessions_okD(5) [OF assms(1,2)] assms(3) by blast
  from sessions_okD(2) [OF assms(1,2) this] show ?thesis by (simp add: bridge_channel_closed_def)
qed

lemma waitingD:
  "waiting m s \<Longrightarrow> sys_conns s c = Some x \<Longrightarrow>
   c_phase x \<in> {Handshaking, Reading, Finished, Crashed, Aborted} \<or> c_phase x = Draining \<and> c_writer_alive x"
  by (simp add: waiting_def)

lemma own_step_iff:
  assumes ok: "sessions_ok s"
  shows "(\<exists>t. own_step E B m s t) \<longleftrightarrow> \<not> waiting m s"
proof
  assume "\<exists>t. own_step E B m s t"
  then obtain t where "own_step E B m s t" ..
  then show "\<not> waiting m s"
  proof cases
    case (channels_closed c x)
    with channel_stays_open [OF ok channels_closed(2,3)] show ?thesis by simp
  next
    case (closed c x)
    then show ?thesis using waitingD [of m s c x] by auto
  next
    case (finished c x)
    then show ?thesis using waitingD [of m s c x] by auto
  qed (auto simp: waiting_def)
next
  assume busy: "\<not> waiting m s"
  show "\<exists>t. own_step E B m s t"
  proof (rule ccontr)
    assume no: "\<not> (\<exists>t. own_step E B m s t)"
    have "c_phase x \<in> {Handshaking, Reading, Finished, Crashed, Aborted} \<or> c_phase x = Draining \<and> c_writer_alive x"
      if c: "sys_conns s c = Some x" for c x
    proof (cases "c_phase x")
      case Draining
      with no own_step.closed [OF c Draining] show ?thesis by blast
    next
      case Returned
      with no own_step.finished [OF c Returned] show ?thesis by blast
    qed simp_all
    moreover have "sys_pending s = []" using no own_step.poll_sent by blast
    moreover have "current < m" if "sys_loaded s = Some current" for current
      using no own_step.rejected [OF that] by (meson not_le)
    ultimately show False using busy by (simp add: waiting_def)
  qed
qed

end
