(* ===== verification/Spec2Isabelle.thy ===== *)
theory Spec2Isabelle
  imports Protocol_Props Bridge_Props Serdata_Props Config_Props Qos_Props Startup Ledger Departed Quiescence
begin

text \<open>
  \<^bold>\<open>The program.\<close> \<open>cyclone-dds-ws-bridge\<close> lets WebSocket clients publish to and subscribe from a
  DDS domain. A server task accepts connections up to a limit and answers health probes
  (\<open>src/ws/server.rs\<close>); each connection has a read loop that checks binary frames and hands them
  to the bridge, and a writer task that sends what is queued for it (\<open>src/ws/session.rs\<close>). The
  bridge (\<open>src/bridge.rs\<close>) owns, under one lock, the participant with its topic cache, the registry
  of writers and the registry of shared readers (\<open>src/dds/\<close>), and the outbound channel of every
  session; a poll loop takes samples from the readers and fans them out. The wire format is in
  \<open>src/protocol.rs\<close> and \<open>src/qos.rs\<close>; \<open>src/dds/sertype.rs\<close> implements Cyclone's serialization
  callbacks on opaque bytes; \<open>src/config.rs\<close> and \<open>src/main.rs\<close> read the settings.

  \<^bold>\<open>Theories and sources.\<close>
  \<^item> \<open>Prelude\<close>, \<open>Codec\<close>, \<open>Effects\<close>, \<open>Rust_Std\<close>: results with panics, the contract between a
    serializer and its parser as a locale, state actions with triples, UTF-8 and number formatting,
    and the \<open>bytes\<close> crate as a parameter (locale \<open>bytes_laws\<close>, interpreted on a concrete buffer).
  \<^item> \<open>Wire\<close>, \<open>Qos\<close>, \<open>Messages\<close>: \<open>protocol.rs\<close> and \<open>qos.rs\<close>, one function per parser and
    serializer. Every message type is an instance of the codec locales. \<open>Protocol_Props\<close>: the
    parsers accept exactly what the serializers write, never panic, respect the length limits;
    header framing.
  \<^item> \<open>Sertype\<close>, \<open>Hashing\<close>: keys of \<open>sertype.rs\<close>, MurmurHash3 and MD5 (equal to the RFC 1321
    algorithm). \<open>Memory\<close>, \<open>Serdata\<close>: its callbacks through raw pointers, and \<open>helper.c\<close>, on an
    explicit memory in which a use after free, a double free, a wrong capacity or a read out of
    bounds is an error outcome. \<open>Serdata_Mem\<close>, \<open>Serdata_Life\<close>, \<open>Serdata_Props\<close>: ownership invariant,
    life cycle without leaks, sample round trip, fragment reassembly, reference counting, keys.
  \<^item> \<open>Dds_Api\<close>, \<open>Participant\<close>, \<open>Writers\<close>, \<open>Readers\<close>: \<open>src/dds/\<close>. The calls into Cyclone DDS, the
    channels and the iteration order of hash containers are the fields of the record
    \<open>environment\<close>, a parameter of every operation. \<open>Session_Registry\<close> is the contract of a registry
    of per-session resources, met by both registries; \<open>Registry_Props\<close> holds their properties.
  \<^item> \<open>Bridge\<close>: the record \<open>process\<close> (shared state and outside world) and every handler of
    \<open>bridge.rs\<close>. \<open>Bridge_Inv\<close>: its invariant and that every handler keeps it. \<open>Bridge_Resp\<close>: replies,
    and the typing of every message the server sends (\<open>server_message_ok\<close>).
    \<open>Bridge_Frame\<close>: panics, the registry effect of a message (an inductive relation) and isolation
    of sessions. \<open>Bridge_Props\<close>: the properties of one message, one poll and one unregistration. A
    round of polling is compared with what DDS gave out (\<open>taken\<close>, \<open>polled\<close>), the fan-out with
    what a client of the protocol reads from the messages (\<open>client_receive\<close>).
  \<^item> \<open>Session\<close>, \<open>System\<close>: frame dispatch, the read loop and the accept decision, and the interleaving
    of all tasks as the step relation \<open>sys_step\<close> with reachability \<open>reach\<close>; invariants by rule
    induction. The relation allows every step a peer or the network could cause, so it has at least
    the runs of the program; properties are stated of all runs, or of a step the program takes by
    itself. \<open>Sim_Env\<close> is an in-memory environment on which the assumptions hold, \<open>Sim_Run\<close> holds
    runs on it from which the examples start. \<open>Ledger\<close>: the abstract specification of what the bridge
    promises (who owns which writer and subscription) and the simulation of every step of the system
    by one of its operations, on behalf of the session that takes the step (\<open>session_op\<close>).
    \<open>Departed\<close>: nothing acts for a session after it is closed, so what it is still subscribed to
    stays. \<open>Quiescence\<close>: a rank that every step other than an input lowers, so the process comes to
    rest, and in which states it can go on by itself (\<open>own_step\<close>) or only waits (\<open>waiting\<close>).
  \<^item> \<open>Config\<close>, \<open>Config_Props\<close>, \<open>Startup\<close>: settings, environment, flags, the health probe, the start
    of the process and what is deleted when it ends. \<open>Qos_Props\<close>: the translation of QoS sets, with
    what DDS sees of a policy (\<open>dds_view\<close>).
  \<^item> This theory: the properties of whole runs.

  \<^bold>\<open>State and machine integers.\<close> \<open>HashMap\<close> fields are maps, ids are \<open>u32\<close> and \<open>u64\<close> words whose counters
  wrap as in the code; the invariant therefore carries a bound on the counters, and the properties
  of runs ask for fewer than \<open>2^32 - 2\<close> steps, each of which takes at most one id. A panic is the
  outcome \<open>Panic\<close> of an operation and ends the task (phase \<open>Crashed\<close>, or \<open>Aborted\<close> before the session exists). Locks are held for a whole
  handler, so a step is a critical section, or one access to the atomic connection counter. There is
  no fuel: every loop is structural recursion or has its termination proof.

  \<^bold>\<open>Not modelled.\<close> Logging; the WebSocket handshake and TLS-free socket I/O (their outcomes are
  inputs); channel capacities (a full channel is an outcome of
  \<open>try_send\<close>; only the panic on a capacity of zero is modelled); TOML parsing, which is
  a parameter, as are the success of binding the address and the order in which hash maps are
  dropped; \<open>build.rs\<close> and the
  generated bindings; the static tables of function pointers; memory exhaustion and overflow of
  \<open>usize\<close> sums, which no input of representable size reaches.
\<close>

section \<open>The running system\<close>

text \<open>
  C1: in every state the running process can reach in fewer than \<open>2^32 - 2\<close> steps, under any
  interleaving of connection tasks, handlers and the poll loop, the bridge invariant holds:
  both registries are well formed, every id in use is below its counter, and the topic of
  every writer and reader is the cached one.
\<close>

theorem reachable_bridge_invariant:
  assumes "hash_iteration E" and "reach E B max_connections config n s" and "n + 2 < 2 ^ 32"
  shows "bridge_inv B (Suc n) (sys_bridge s)"
  using hash_iteration.reach_ok [OF assms(1,2)] assms(3) by simp

theorem reachable_bridge_invariant_witness:
  "bridge_inv documented_bytes (Suc 2) (sys_bridge (set_conn 0 new_conn ((sys_init sim_bridge)\<lparr>sys_active := 1\<rparr>)))"
proof -
  have "(2 :: nat) + 2 < 2 ^ 32" and "(0 :: nat) < 64" by simp_all
  from reachable_bridge_invariant [OF sim.hash_iteration_axioms sim_reach_accepted [OF this(2)] this(1)]
  show ?thesis .
qed

text \<open>
  C8: in every reachable state the connection counter equals the number of connections that
  have been accepted for service and not finished, and never exceeds \<open>max_connections\<close>. A
  connection whose task panicked counts as unfinished for ever.
\<close>

theorem connection_counter_exact:
  assumes "reach E B max_connections config n s"
  shows "finite {c. \<exists>x. sys_conns s c = Some x \<and> c_phase x \<noteq> Finished} \<and>
    sys_active s = card {c. \<exists>x. sys_conns s c = Some x \<and> c_phase x \<noteq> Finished} \<and> sys_active s \<le> max_connections"
  using reach_counter [OF assms] by (simp add: counter_ok_def live_conns_def live_def)

theorem connection_counter_exact_witness:
  "sys_active (set_conn 0 new_conn ((sys_init sim_bridge)\<lparr>sys_active := 1\<rparr>)) \<le> 64"
  using connection_counter_exact [OF sim_reach_accepted, of 64] by simp

text \<open>
  C9: a session is only ever unregistered after a send on its socket has failed. The writer
  task of a session whose read loop has ended waits for the bridge channel to close, and its
  sender is removed only by unregistering: a session that ends in good order keeps its
  writers, subscriptions and connection slot until the next notification fails to be sent.
\<close>

theorem unregister_needs_failed_send:
  assumes "hash_iteration E" and "reach E B max_connections config n s" and "n + 2 < 2 ^ 32"
    and "sys_conns s c = Some x" and "c_phase x = Draining" and "\<not> c_writer_alive x"
  shows "c_sink_failed x"
proof -
  have ok: "sessions_ok s" using hash_iteration.reach_ok [OF assms(1,2)] assms(3) by simp
  from sessions_okD(3) [OF ok assms(4)] assms(5,6) show ?thesis by (auto simp: open_conn_def)
qed

text \<open>A run to such a state: accept, handshake, the client closes, a send fails.\<close>

definition sim_closed :: "sim_world system" where
  "sim_closed = sim_hang_up (sys_bridge sim_opened) sim_opened"

lemma sim_reach_closed: "reach sim_env documented_bytes 64 config_default 5 sim_closed"
proof -
  have "Suc (Suc 3) = 5" by simp
  with sim_reach_hang_up [OF sim_reach_opened [of 64]] show ?thesis by (simp add: sim_closed_def sim_opened_def)
qed

theorem unregister_needs_failed_send_witness:
  "\<exists>x. sys_conns sim_closed 0 = Some x \<and> c_phase x = Draining \<and> c_sink_failed x"
proof -
  have "(5 :: nat) + 2 < 2 ^ 32" by simp
  with unregister_needs_failed_send [OF sim.hash_iteration_axioms sim_reach_closed, of 0] show ?thesis
    by (simp add: sim_closed_def sim_hang_up_def)
qed

text \<open>
  C11: once as many connection tasks have panicked as \<open>max_connections\<close> allows, the server
  serves no new connection ever again: whatever steps follow, the connections stay the same
  and the counter stays at its limit. (A panicked task neither decrements the counter nor
  unregisters its session.)
\<close>

theorem crashed_connections_lock_server:
  assumes "reach E B max_connections config n s"
    and "max_connections \<le> card {c. \<exists>x. sys_conns s c = Some x \<and> c_phase x \<in> {Crashed, Aborted}}"
    and "(sys_step E B max_connections)\<^sup>*\<^sup>* s s'"
  shows "dom (sys_conns s') = dom (sys_conns s) \<and> sys_active s' = max_connections"
proof -
  have "max_connections \<le> card (crashed s)" using assms(2) by (simp add: crashed_def)
  from crashed_full_run [OF assms(3) reach_counter [OF assms(1)] this] show ?thesis
    using crashed_full(1) by blast
qed

text \<open>A run with room for one connection, whose client sends a type name with a NUL byte.\<close>

lemma nul_frame_panics:
  "process_binary_frame sim_env documented_bytes 1 (build_message MsgType.Subscribe 1 (serialize_subscribe documented_bytes nul_subscribe))
     DEFAULT_MAX_PAYLOAD_SIZE (sys_bridge sim_opened) = (None, sys_bridge sim_opened)"
proof -
  let ?p = "serialize_subscribe documented_bytes nul_subscribe"
  have "length ?p = 13"
    by (simp add: doc_bytes.subscribe_msg.mser_enc enc_subscribe_def nul_subscribe_def enc_string_def enc_qos_def
        enc_bool_def enc_key_descriptors_def as_bytes_def)
  moreover have "br_participant (sys_bridge sim_opened) = br_participant sim_bridge"
    by (simp add: sim_opened_def register_session_def)
  note nul_subscribe_panics [OF this]
  ultimately show ?thesis by (subst process_built_frame) (simp_all add: DEFAULT_MAX_PAYLOAD_SIZE_def)
qed

theorem crashed_connections_lock_server_witness:
  "\<exists>s. sys_conns s 0 \<noteq> None \<and> (\<forall>s'. (sys_step sim_env documented_bytes 1)\<^sup>*\<^sup>* s s' \<longrightarrow> dom (sys_conns s') = {0})"
proof -
  let ?s = "set_conn 0 (sim_conn\<lparr>c_phase := phase_after Crash\<rparr>) (sim_opened\<lparr>sys_bridge := sys_bridge sim_opened\<rparr>)"
  have "sys_step sim_env documented_bytes 1 sim_opened ?s"
    by (rule sys_step.read [where x = sim_conn and ms = "[]" and
          ev = "WsBinary (build_message MsgType.Subscribe 1 (serialize_subscribe documented_bytes nul_subscribe))"])
      (use nul_frame_panics in \<open>simp_all add: read_iteration_def sim_opened_def sim_conn_def\<close>)
  note run = reach.step [OF sim_reach_opened this, OF zero_less_one]
  have one: "{c. \<exists>x. sys_conns ?s c = Some x \<and> c_phase x \<in> {Crashed, Aborted}} = {0}"
    by (auto simp: phase_after_def sim_opened_def split: if_splits)
  have dom: "dom (sys_conns ?s) = {0}" by (auto simp: sim_opened_def split: if_splits)
  have "dom (sys_conns s') = {0}" if "(sys_step sim_env documented_bytes 1)\<^sup>*\<^sup>* ?s s'" for s'
    using crashed_connections_lock_server [OF run _ that] one dom by simp
  moreover have "sys_conns ?s 0 \<noteq> None" by simp
  ultimately show ?thesis by blast
qed

text \<open>
  C4: the process refines the ledger, and each connection only ever acts on its own entries. In every
  state reached in fewer than \<open>2^32 - 2\<close> steps the ledger's open sessions are those of the connections being served, and every
  writer and recorded subscription belongs to one of them; the run so far is a run of the
  ledger. From there, whatever a connection reads, the effect is an operation of its own session:
  adding a writer under a fresh id, dropping one of its own writers, recording or forgetting one of
  its own subscriptions, or nothing. Opening a connection connects a session that is not in the
  ledger (or, where the channel cannot be created, nothing), closing it removes exactly that session's
  entries, and polling changes nothing.
\<close>

theorem process_refines_ledger:
  assumes "hash_iteration E" and "reach E B max_connections config n s" and "n + 2 < 2 ^ 32"
  shows "(\<exists>xs. length xs = n \<and> ledger_run xs ledger_init = Some (ledger_of (sys_bridge s))) \<and>
    ledger_ok (ledger_of (sys_bridge s)) \<and>
    l_open (ledger_of (sys_bridge s)) =
      {c_session x | c x. sys_conns s c = Some x \<and> c_phase x \<in> {Reading, Draining, Crashed}} \<and>
    (\<forall>c x ev ms l p. sys_conns s c = Some x \<and> c_phase x = Reading \<and>
       read_iteration E B (c_session x) (c_max_payload x) ev (sys_bridge s) = (ms, l, p) \<longrightarrow>
       (\<exists>op. session_op (c_session x) op \<and> ledger_do op (ledger_of (sys_bridge s)) = Some (ledger_of p))) \<and>
    (\<forall>c x. sys_conns s c = Some x \<and> c_phase x = Draining \<longrightarrow>
       ledger_do (Disconnect (c_session x)) (ledger_of (sys_bridge s)) =
       Some (ledger_of (unregister_session E (c_session x) (sys_bridge s)))) \<and>
    (\<forall>tx x p. open_session tx (sys_bridge s) = (x, p) \<longrightarrow>
       ledger_do (if c_phase x = Aborted then Idle else Connect (c_session x)) (ledger_of (sys_bridge s)) =
       Some (ledger_of p)) \<and>
    (\<forall>pending p. poll_take E (sys_bridge s) = (pending, p) \<longrightarrow> ledger_of p = ledger_of (sys_bridge s))"
proof -
  have n: "Suc (Suc n) < 2 ^ 32" using assms(3) by simp
  note h = hash_iteration.read_ledger [OF assms(1)] hash_iteration.closed_ledger [OF assms(1)]
    hash_iteration.opened_ledger [OF assms(1)] hash_iteration.poll_ledger [OF assms(1)]
  from hash_iteration.reach_ok [OF assms(1,2) n] have ok: "sessions_ok s" and inv: "bridge_inv B (Suc n) (sys_bridge s)" by simp_all
  obtain xs where xs: "length xs = n" "ledger_run xs ledger_init = Some (ledger_of (sys_bridge s))"
    using hash_iteration.reach_ledger [OF assms(1,2) n] by blast
  have "l_open (ledger_of (sys_bridge s)) =
      {c_session x | c x. sys_conns s c = Some x \<and> c_phase x \<in> {Reading, Draining, Crashed}}"
    using ledger_open [OF ok] by (simp add: open_sessions_def open_conn_def)
  with xs ledger_run_ok [OF xs(2) ledger_init_ok] h(1) [OF ok inv] h(2) [OF ok inv] h(3) [OF ok] h(4)
  show ?thesis by (intro conjI allI impI) blast+
qed

lemma length_sim_cw: "length (serialize_create_writer documented_bytes sim_cw) < 1000"
  by (simp add: doc_bytes.create_writer_msg.mser_enc enc_create_writer_def sim_cw_def enc_qos_def enc_bool_def
      enc_key_descriptors_def)

lemma sim_creates_writer:
  obtains ms p where "handle_message sim_env documented_bytes 1 MsgType.CreateWriter 3
      (serialize_create_writer documented_bytes sim_cw) (sys_bridge sim_opened) = (Some ms, p)"
    and "ledger_of p = \<lparr>l_writers = [1 \<mapsto> (1, ''t'', ''T'')], l_subs = Map.empty, l_open = {1}\<rparr>"
proof -
  have "\<exists>ms p. handle_create_writer sim_env documented_bytes 1 3 (serialize_create_writer documented_bytes sim_cw)
      (sys_bridge sim_opened) = (Ok ms, p) \<and>
    ledger_of p = \<lparr>l_writers = [1 \<mapsto> (1, ''t'', ''T'')], l_subs = Map.empty, l_open = {1}\<rparr>"
    by (simp add: handle_create_writer_def sim_cw_parses sim_cw_fields bind_st_def lift_st_def map_err_st_def get_topic_def
        get_or_create_topic_def create_opaque_sertype_def cstring_new_def as_bytes_def sim_opened_def register_session_def
        sim_bridge_def sim_start_def sim_env_simps with_qos_def make_qos_def from_qos_set_def drop_qos_handle_def new_writer_def
        dds_writer_new_def register_writer_def wr_register_def wr_new_def rr_new_def return_st_def ledger_of_def fun_eq_iff
        split_beta Let_def)
  with that show ?thesis by (auto simp: handle_message_def dispatch_def)
qed

text \<open>Connection 0 reads a CREATE_WRITER frame: an operation of its session, which leaves the writer to it.\<close>

theorem process_refines_ledger_witness:
  "\<exists>ms p op. read_iteration sim_env documented_bytes 1 DEFAULT_MAX_PAYLOAD_SIZE
       (WsBinary (build_message MsgType.CreateWriter 3 (serialize_create_writer documented_bytes sim_cw))) (sys_bridge sim_opened) =
       (ms, Continue, p) \<and>
     session_op 1 op \<and>
     ledger_do op \<lparr>l_writers = Map.empty, l_subs = Map.empty, l_open = {1}\<rparr> =
       Some \<lparr>l_writers = [1 \<mapsto> (1, ''t'', ''T'')], l_subs = Map.empty, l_open = {1}\<rparr>"
proof -
  let ?b = "sys_bridge sim_opened" and ?f = "serialize_create_writer documented_bytes sim_cw"
  obtain ms p where run: "handle_message sim_env documented_bytes 1 MsgType.CreateWriter 3 ?f ?b = (Some ms, p)"
    and p: "ledger_of p = \<lparr>l_writers = [1 \<mapsto> (1, ''t'', ''T'')], l_subs = Map.empty, l_open = {1}\<rparr>"
    by (rule sim_creates_writer)
  have conn: "sys_conns sim_opened 0 = Some sim_conn" by (simp add: sim_opened_def)
  have read: "read_iteration sim_env documented_bytes 1 DEFAULT_MAX_PAYLOAD_SIZE (WsBinary (build_message MsgType.CreateWriter 3 ?f)) ?b =
      (ms, Continue, p)"
    by (rule sim_reach_frame(2) [OF sim_reach_opened [of 64] conn run]) (simp_all add: length_sim_cw)
  have b: "ledger_of ?b = \<lparr>l_writers = Map.empty, l_subs = Map.empty, l_open = {1}\<rparr>"
    by (simp add: sim_opened_def ledger_of_def register_session_def sim_bridge_def wr_new_def rr_new_def)
  have "(3 :: nat) + 2 < 2 ^ 32" and "(0 :: nat) < 64" by simp_all
  from process_refines_ledger [OF sim.hash_iteration_axioms sim_reach_opened [OF this(2)] this(1)]
  have "\<forall>c x ev ms l p. sys_conns sim_opened c = Some x \<and> c_phase x = Reading \<and>
       read_iteration sim_env documented_bytes (c_session x) (c_max_payload x) ev ?b = (ms, l, p) \<longrightarrow>
       (\<exists>op. session_op (c_session x) op \<and> ledger_do op (ledger_of ?b) = Some (ledger_of p))" by blast
  from this [rule_format, of 0 sim_conn] read conn
  have "\<exists>op. session_op 1 op \<and> ledger_do op (ledger_of ?b) = Some (ledger_of p)" by (simp add: sim_conn_def)
  with read b p show ?thesis by auto
qed

text \<open>
  C15: an orphaned reader stays. If a connection is closed while its
  session is a subscriber of a reader that none of its recorded subscriptions leads to (a repeated
  SUBSCRIBE with another QoS leaves it so), then after any further steps, of any tasks in any order
  (fewer than \<open>2^32 - 2\<close> in the whole run), the reader is still in the registry and still has the departed session among its subscribers,
  and that session's id belongs to no connection being served, so no message can remove it.
\<close>

theorem orphaned_reader_stays:
  assumes "hash_iteration E" and "reach E B max_connections config n s"
    and "sys_conns s c = Some x" and "c_phase x = Draining" and "\<not> c_writer_alive x"
    and "rr_readers (br_readers (sys_bridge s)) rid = Some r" and "c_session x \<in> r_subscribers r"
    and "\<forall>n ty. rr_session_subscriptions (br_readers (sys_bridge s)) (c_session x, n, ty) \<noteq> Some rid"
    and "(sys_step E B max_connections ^^ k) (set_conn c (x\<lparr>c_phase := Returned\<rparr>)
      (s\<lparr>sys_bridge := unregister_session E (c_session x) (sys_bridge s)\<rparr>)) s'"
    and "n + k + 3 < 2 ^ 32"
  shows "(\<exists>r'. rr_readers (br_readers (sys_bridge s')) rid = Some r' \<and> c_session x \<in> r_subscribers r') \<and>
    (\<forall>d y. sys_conns s' d = Some y \<and> c_phase y \<in> {Reading, Draining, Crashed} \<longrightarrow> c_session y \<noteq> c_session x)"
proof -
  have "departed (c_session x) s' \<and> rid \<in> rr_owned (br_readers (sys_bridge s')) (c_session x)"
    by (rule hash_iteration.orphan_stays [OF assms(1-5) _ _ assms(9,10)])
      (use assms(6-8) in \<open>auto simp: rr_owned_def rr_recorded_def\<close>)
  then show ?thesis by (auto simp: departed_def open_sessions_def open_conn_def rr_owned_def)
qed

text \<open>A client subscribes twice with different QoS and hangs up: reader 1 stays.\<close>

theorem orphaned_reader_stays_witness:
  "\<exists>s x. reach sim_env documented_bytes 64 config_default 8 s \<and> sys_conns s 0 = Some x \<and> c_phase x = Returned \<and>
     (\<forall>k s'. k < 1000 \<and> (sys_step sim_env documented_bytes 64 ^^ k) s s' \<longrightarrow> rr_readers (br_readers (sys_bridge s')) 1 \<noteq> None)"
proof -
  obtain s where s: "reach sim_env documented_bytes 64 config_default 7 s"
    and conn: "sys_conns s 0 = Some (sim_conn\<lparr>c_phase := Draining, c_writer_alive := False, c_sink_failed := True\<rparr>)"
      (is "_ = Some ?x")
    and orphan: "1 \<in> rr_owned (br_readers (sys_bridge s)) 1" "1 \<notin> rr_recorded (br_readers (sys_bridge s)) 1"
    by (rule sim_reach_orphan)
  let ?t = "set_conn 0 (?x\<lparr>c_phase := Returned\<rparr>) (s\<lparr>sys_bridge := unregister_session sim_env (c_session ?x) (sys_bridge s)\<rparr>)"
  from orphan obtain r where r: "rr_readers (br_readers (sys_bridge s)) 1 = Some r" "c_session ?x \<in> r_subscribers r"
    "\<forall>n ty. rr_session_subscriptions (br_readers (sys_bridge s)) (c_session ?x, n, ty) \<noteq> Some 1"
    by (auto simp: rr_owned_def rr_recorded_def sim_conn_def)
  have x: "c_phase ?x = Draining" "\<not> c_writer_alive ?x" by simp_all
  have "\<forall>k s'. k < 1000 \<and> (sys_step sim_env documented_bytes 64 ^^ k) ?t s' \<longrightarrow> rr_readers (br_readers (sys_bridge s')) 1 \<noteq> None"
  proof (intro allI impI, elim conjE)
    fix k s' assume k: "k < 1000" and run: "(sys_step sim_env documented_bytes 64 ^^ k) ?t s'"
    from k have "7 + k + 3 < 2 ^ 32" by simp
    from orphaned_reader_stays [OF sim.hash_iteration_axioms s conn x r run this]
    show "rr_readers (br_readers (sys_bridge s')) 1 \<noteq> None" by blast
  qed
  moreover have "reach sim_env documented_bytes 64 config_default (Suc 7) ?t"
    by (rule reach.step [OF s sys_step.closed [OF conn x]])
  moreover have "sys_conns ?t 0 = Some (?x\<lparr>c_phase := Returned\<rparr>)" "Suc 7 = 8" by simp_all
  ultimately show ?thesis by (intro exI [of _ ?t] exI [of _ "?x\<lparr>c_phase := Returned\<rparr>"]) simp
qed



end
